theory Spec2Isabelle
  imports Complex_Main "HOL-Library.Word" "HOL-Library.AList" "HOL-Library.Multiset"
begin

section \<open>Conventions of the embedding\<close>

text \<open>
  The program is the React component of \<^verbatim>\<open>app.js\<close> (the version that votes with
  nearest neighbours and label prototypes). JavaScript numbers are modelled as real
  numbers: \<^verbatim>\<open>NaN\<close> and the infinities are outside the model. A double is a real
  number, and the rounding of every operation to a double is written out where a
  statement depends on it. \<^verbatim>\<open>vectorizeCanvas\<close> and \<^verbatim>\<open>getDrawingStats\<close> compute with a
  few hundred numbers between \<open>0\<close> and \<open>765\<close> and are modelled in doubles throughout.
  \<^verbatim>\<open>buildPrototypes\<close>, \<^verbatim>\<open>cosineDistance\<close> and the ranking of the votes are modelled
  twice, in exact arithmetic and (suffix \<open>_fl\<close>) in doubles. The scoring of the samples
  takes \<^verbatim>\<open>Math.log\<close>, whose value JavaScript leaves to the implementation, and is
  modelled in exact arithmetic only: there every distance is finite and every vote is
  positive, while in the program a distance that overflows gives a vote of \<open>0\<close>. A read
  past the end of an array gives
  \<^verbatim>\<open>undefined\<close> in JavaScript; where the source compares such a value the comparison is
  false and the model says so, where the source does arithmetic on it the model leaves
  the value unspecified (\<open>xs ! i\<close>) and the theorems that need it assume the lengths the
  program maintains. A sample is a typed record: its vector holds numbers and its
  features, when present, hold all nine numbers.

  Component state (\<^verbatim>\<open>useState\<close>, \<^verbatim>\<open>strokesRef\<close>, the canvas, \<^verbatim>\<open>localStorage\<close>) is one
  record that every handler takes and returns. The pointer handlers and the two
  references they alone use (\<^verbatim>\<open>isDrawingRef\<close>, \<^verbatim>\<open>activeStrokeRef\<close>) are not modelled, and
  \<^verbatim>\<open>localStorage.setItem\<close> is taken to succeed.
\<close>

definition GRID_SIZE :: nat where
  "GRID_SIZE = 16"

definition OBJECTS :: "string list" where
  "OBJECTS =
    [''cat'', ''dog'', ''tree'', ''house'', ''car'', ''bicycle'', ''apple'', ''banana'', ''fish'', ''bird'',
     ''cloud'', ''sun'', ''moon'', ''star'', ''flower'', ''cup'', ''book'', ''chair'', ''table'', ''phone'',
     ''clock'', ''pizza'', ''burger'', ''ice cream'', ''guitar'', ''drum'', ''camera'', ''airplane'', ''rocket'', ''boat'',
     ''train'', ''bus'', ''robot'', ''monster'', ''dragon'', ''castle'', ''crown'', ''shoe'', ''hat'', ''glasses'',
     ''toothbrush'', ''key'', ''lock'', ''lamp'', ''cookie'', ''donut'', ''snail'', ''frog'', ''whale'', ''tennis ball'']"

text \<open>\<^verbatim>\<open>randomPrompt\<close>: the argument is the value of \<^verbatim>\<open>Math.random()\<close>, in \<open>[0, 1)\<close>.\<close>

definition randomPrompt :: "real \<Rightarrow> string" where
  "randomPrompt r = OBJECTS ! nat \<lfloor>r * real (length OBJECTS)\<rfloor>"

section \<open>The persisted store and \<^verbatim>\<open>loadDataset\<close>\<close>

text \<open>A value as \<^verbatim>\<open>JSON.parse\<close> returns it. An object is the list of its properties.\<close>

datatype json =
    JNull
  | JBool bool
  | JNum real
  | JStr string
  | JArr "json list"
  | JObj "(string \<times> json) list"

text \<open>
  What reading the store gives: \<^verbatim>\<open>localStorage.getItem\<close> throws, returns \<^verbatim>\<open>null\<close>,
  returns the empty string, returns a text that \<^verbatim>\<open>JSON.parse\<close> rejects, or returns a
  text that parses to a value.
\<close>

datatype stored =
    Unavailable
  | Absent
  | EmptyText
  | Unparseable
  | Parsed json

text \<open>JavaScript truthiness of a parsed value (\<^verbatim>\<open>item && ...\<close>).\<close>

fun truthy :: "json \<Rightarrow> bool" where
  "truthy JNull = False"
| "truthy (JBool b) = b"
| "truthy (JNum n) = (n \<noteq> 0)"
| "truthy (JStr s) = (s \<noteq> [])"
| "truthy (JArr xs) = True"
| "truthy (JObj kvs) = True"

text \<open>
  \<^verbatim>\<open>item.label\<close> and \<^verbatim>\<open>item.vector\<close>: an own property of an object, \<^verbatim>\<open>undefined\<close>
  (here \<open>None\<close>) on every other truthy value.
\<close>

fun get_property :: "json \<Rightarrow> string \<Rightarrow> json option" where
  "get_property (JObj kvs) k = map_of kvs k"
| "get_property _ k = None"

fun typeof_string :: "json option \<Rightarrow> bool" where
  "typeof_string (Some (JStr s)) = True"
| "typeof_string _ = False"

fun isArray_of_length :: "json option \<Rightarrow> nat \<Rightarrow> bool" where
  "isArray_of_length (Some (JArr xs)) n = (length xs = n)"
| "isArray_of_length _ n = False"

definition keep_item :: "json \<Rightarrow> bool" where
  "keep_item item =
     (truthy item \<and> typeof_string (get_property item ''label'') \<and>
      isArray_of_length (get_property item ''vector'') (GRID_SIZE * GRID_SIZE))"

fun loadDataset :: "stored \<Rightarrow> json list" where
  "loadDataset Unavailable = []"
| "loadDataset Absent = []"
| "loadDataset EmptyText = []"
| "loadDataset Unparseable = []"
| "loadDataset (Parsed (JArr parsed)) = filter keep_item parsed"
| "loadDataset (Parsed _) = []"

text \<open>
  The structural check in the words of the specification: the label is text and the ink
  vector has exactly \<open>N\<^sup>2\<close> numeric entries.
\<close>

fun is_number :: "json \<Rightarrow> bool" where
  "is_number (JNum n) = True"
| "is_number _ = False"

fun spec_structural_check :: "json \<Rightarrow> bool" where
  "spec_structural_check item =
     (typeof_string (get_property item ''label'') \<and>
      (case get_property item ''vector'' of
         Some (JArr xs) \<Rightarrow> length xs = GRID_SIZE * GRID_SIZE \<and> list_all is_number xs
       | _ \<Rightarrow> False))"

section \<open>Data model\<close>

record point =
  px :: real
  py :: real

type_synonym stroke = "point list"

text \<open>The object \<^verbatim>\<open>extractShapeFeatures\<close> returns: it has no \<^verbatim>\<open>strokeCount\<close> key.\<close>

record shape_features =
  fillRatio :: real
  aspectRatio :: real
  compactness :: real
  symmetryX :: real
  symmetryY :: real
  edgeDensity :: real
  lengthNorm :: real
  straightness :: real

record stroke_features =
  lengthNorm :: real
  straightness :: real
  strokeCount :: real

text \<open>The merged object of \<^verbatim>\<open>combineFeatures\<close>, also the shape of a prototype's means.\<close>

record features =
  fillRatio :: real
  aspectRatio :: real
  compactness :: real
  symmetryX :: real
  symmetryY :: real
  edgeDensity :: real
  lengthNorm :: real
  straightness :: real
  strokeCount :: real

text \<open>
  A training sample. Samples written by older versions of the program have no
  \<^verbatim>\<open>features\<close> property: \<open>None\<close>.
\<close>

record sample =
  label :: string
  vector :: "real list"
  features :: "features option"
  ts :: int

section \<open>Feature extraction\<close>

text \<open>
  \<^verbatim>\<open>vector[idx] > threshold\<close> and \<^verbatim>\<open>vector[idx] <= threshold\<close> with \<^verbatim>\<open>threshold = 0.2\<close>;
  both are false when the read is out of range.
\<close>

definition cell_on :: "real list \<Rightarrow> int \<Rightarrow> bool" where
  "cell_on v idx = (0 \<le> idx \<and> nat idx < length v \<and> v ! nat idx > 0.2)"

definition cell_off :: "real list \<Rightarrow> int \<Rightarrow> bool" where
  "cell_off v idx = (0 \<le> idx \<and> nat idx < length v \<and> v ! nat idx \<le> 0.2)"

text \<open>
  One pass of the body of the double loop of \<^verbatim>\<open>extractShapeFeatures\<close> at cell \<open>(x, y)\<close>;
  the accumulator is (edgeCount, symmetryMatchesX, symmetryMatchesY, symmetryChecksX,
  symmetryChecksY).
\<close>

definition shape_cell ::
  "real list \<Rightarrow> int \<Rightarrow> int \<Rightarrow> int \<Rightarrow> int \<Rightarrow> nat \<times> nat \<times> nat \<times> nat \<times> nat \<Rightarrow> int \<times> int \<Rightarrow>
   nat \<times> nat \<times> nat \<times> nat \<times> nat" where
  "shape_cell v minX minY maxX maxY acc c =
     (case acc of (edgeCount, mX, mY, cX, cY) \<Rightarrow>
      case c of (x, y) \<Rightarrow>
        let g = int GRID_SIZE in
        if \<not> cell_on v (y * g + x) then acc
        else
          let neighbors = [(x - 1, y), (x + 1, y), (x, y - 1), (x, y + 1)];
              edge = list_ex (\<lambda>(nx, ny).
                       if nx < minX \<or> ny < minY \<or> nx > maxX \<or> ny > maxY then True
                       else cell_off v (ny * g + nx)) neighbors;
              mirrorX = maxX - (x - minX);
              mirrorY = maxY - (y - minY)
          in (if edge then edgeCount + 1 else edgeCount,
              if cell_on v (y * g + mirrorX) then mX + 1 else mX,
              if cell_on v (mirrorY * g + x) then mY + 1 else mY,
              cX + 1,
              cY + 1))"

definition extractShapeFeatures :: "real list \<Rightarrow> shape_features" where
  "extractShapeFeatures v =
     (let g = int GRID_SIZE;
          ink = foldl (\<lambda>ink value. ink + value) 0 v;
          active = filter (\<lambda>i. v ! i > 0.2) [0..<length v]
      in if length active = 0 then
           \<lparr> shape_features.fillRatio = 0, shape_features.aspectRatio = 1,
             shape_features.compactness = 0, shape_features.symmetryX = 1,
             shape_features.symmetryY = 1, shape_features.edgeDensity = 0,
             shape_features.lengthNorm = 0, shape_features.straightness = 0 \<rparr>
         else
           let minX = foldl (\<lambda>m index. min m (int index mod g)) g active;
               minY = foldl (\<lambda>m index. min m (int index div g)) g active;
               maxX = foldl (\<lambda>m index. max m (int index mod g)) 0 active;
               maxY = foldl (\<lambda>m index. max m (int index div g)) 0 active;
               width = maxX - minX + 1;
               height = maxY - minY + 1;
               boxArea = width * height;
               cells = concat (map (\<lambda>y. map (\<lambda>x. (x, y)) [minX..maxX]) [minY..maxY]);
               (edgeCount, mX, mY, cX, cY) =
                  foldl (shape_cell v minX minY maxX maxY) (0, 0, 0, 0, 0) cells
           in \<lparr> shape_features.fillRatio = ink / real (GRID_SIZE * GRID_SIZE),
                shape_features.aspectRatio = real_of_int width / real_of_int (max height 1),
                shape_features.compactness = real (length active) / real_of_int (max boxArea 1),
                shape_features.symmetryX = real mX / real (max cX 1),
                shape_features.symmetryY = real mY / real (max cY 1),
                shape_features.edgeDensity = real edgeCount / real (max (length active) 1),
                shape_features.lengthNorm = 0, shape_features.straightness = 0 \<rparr>)"

text \<open>The polyline length of a stroke: the loop from \<^verbatim>\<open>i = 1\<close>.\<close>

definition polyline_length :: "stroke \<Rightarrow> real" where
  "polyline_length s =
     foldl (\<lambda>len i.
        let dx = px (s ! i) - px (s ! (i - 1));
            dy = py (s ! i) - py (s ! (i - 1))
        in len + sqrt (dx * dx + dy * dy)) 0 [1..<length s]"

text \<open>The body of the loop over the strokes; the accumulator is (totalLength, weightedStraightness).\<close>

definition stroke_step :: "real \<times> real \<Rightarrow> stroke \<Rightarrow> real \<times> real" where
  "stroke_step acc s =
     (case acc of (totalLength, weightedStraightness) \<Rightarrow>
        if length s < 2 then acc
        else
          let len = polyline_length s;
              dx = px (s ! (length s - 1)) - px (s ! 0);
              dy = py (s ! (length s - 1)) - py (s ! 0);
              directDistance = sqrt (dx * dx + dy * dy);
              straight = directDistance / max len 1
          in (totalLength + len, weightedStraightness + straight * len))"

definition extractStrokeFeatures :: "stroke list \<Rightarrow> stroke_features" where
  "extractStrokeFeatures strokes =
     (if length strokes = 0 then
        \<lparr> stroke_features.lengthNorm = 0, stroke_features.straightness = 0,
          stroke_features.strokeCount = 0 \<rparr>
      else
        let diagonal = sqrt (500 * 500 + 500 * 500);
            (totalLength, weightedStraightness) = foldl stroke_step (0, 0) strokes
        in \<lparr> stroke_features.lengthNorm = min (totalLength / diagonal) 1.5,
             stroke_features.straightness = weightedStraightness / max totalLength 1,
             stroke_features.strokeCount = real (length strokes) \<rparr>)"

text \<open>
  \<^verbatim>\<open>{...extractShapeFeatures(vector), ...extractStrokeFeatures(strokes)}\<close>: the keys of
  the second object override those of the first.
\<close>

definition combineFeatures :: "real list \<Rightarrow> stroke list \<Rightarrow> features" where
  "combineFeatures v strokes =
     (let sh = extractShapeFeatures v; st = extractStrokeFeatures strokes
      in \<lparr> fillRatio = shape_features.fillRatio sh,
           aspectRatio = shape_features.aspectRatio sh,
           compactness = shape_features.compactness sh,
           symmetryX = shape_features.symmetryX sh,
           symmetryY = shape_features.symmetryY sh,
           edgeDensity = shape_features.edgeDensity sh,
           lengthNorm = stroke_features.lengthNorm st,
           straightness = stroke_features.straightness st,
           strokeCount = stroke_features.strokeCount st \<rparr>)"

section \<open>Distances\<close>

text \<open>
  \<^verbatim>\<open>featureDistance\<close>: \<^verbatim>\<open>Math.log\<close> is the natural logarithm, and \<^verbatim>\<open>a.strokeCount || 0\<close>
  is the stroke count itself, which is a number here.
\<close>

definition featureDistance :: "features \<Rightarrow> features \<Rightarrow> real" where
  "featureDistance a b =
     (let aspectA = ln (features.aspectRatio a + 1 / 1000000);
          aspectB = ln (features.aspectRatio b + 1 / 1000000);
          strokeCountA = min (features.strokeCount a) 8 / 8;
          strokeCountB = min (features.strokeCount b) 8 / 8;
          terms =
            [(features.fillRatio a, features.fillRatio b, 1.4),
             (aspectA, aspectB, 1.1),
             (features.compactness a, features.compactness b, 1.3),
             (features.symmetryX a, features.symmetryX b, 0.8),
             (features.symmetryY a, features.symmetryY b, 0.8),
             (features.edgeDensity a, features.edgeDensity b, 1.1),
             (features.lengthNorm a, features.lengthNorm b, 1.3),
             (features.straightness a, features.straightness b, 1.4),
             (strokeCountA, strokeCountB, 0.7)]
      in sqrt (foldl (\<lambda>total (x, y, weight). let delta = x - y in total + weight * delta * delta)
                 0 terms))"

definition distance :: "real list \<Rightarrow> real list \<Rightarrow> real" where
  "distance a b =
     sqrt (foldl (\<lambda>total i. let d = a ! i - b ! i in total + d * d) 0 [0..<length a])"

definition cosineDistance :: "real list \<Rightarrow> real list \<Rightarrow> real" where
  "cosineDistance a b =
     (let (dot, normA, normB) =
            foldl (\<lambda>(dot, normA, normB) i.
                     (dot + a ! i * b ! i, normA + a ! i * a ! i, normB + b ! i * b ! i))
                  (0, 0, 0) [0..<length a];
          denom = sqrt normA * sqrt normB
      in if denom = 0 then 1 else 1 - dot / denom)"

section \<open>Prototypes\<close>

text \<open>The per-label accumulator of \<^verbatim>\<open>buildPrototypes\<close>.\<close>

record bucket =
  count :: nat
  vectorSum :: "real list"
  featureSum :: features

record prototype =
  label :: string
  count :: nat
  vector :: "real list"
  features :: features

definition empty_bucket :: bucket where
  "empty_bucket =
     \<lparr> bucket.count = 0,
       vectorSum = replicate (GRID_SIZE * GRID_SIZE) 0,
       featureSum = \<lparr> fillRatio = 0, aspectRatio = 0, compactness = 0, symmetryX = 0,
                     symmetryY = 0, edgeDensity = 0, lengthNorm = 0, straightness = 0,
                     strokeCount = 0 \<rparr> \<rparr>"

text \<open>
  \<^verbatim>\<open>bucket.featureSum[key] += features[key] || 0\<close> for every key of the sum; on a real
  number \<^verbatim>\<open>x || 0\<close> is \<open>x\<close>.
\<close>

definition add_features :: "features \<Rightarrow> features \<Rightarrow> features" where
  "add_features s f =
     \<lparr> fillRatio = fillRatio s + fillRatio f,
       aspectRatio = aspectRatio s + aspectRatio f,
       compactness = compactness s + compactness f,
       symmetryX = symmetryX s + symmetryX f,
       symmetryY = symmetryY s + symmetryY f,
       edgeDensity = edgeDensity s + edgeDensity f,
       lengthNorm = lengthNorm s + lengthNorm f,
       straightness = straightness s + straightness f,
       strokeCount = strokeCount s + strokeCount f \<rparr>"

definition scale_features :: "features \<Rightarrow> real \<Rightarrow> features" where
  "scale_features s c =
     \<lparr> fillRatio = fillRatio s / c,
       aspectRatio = aspectRatio s / c,
       compactness = compactness s / c,
       symmetryX = symmetryX s / c,
       symmetryY = symmetryY s / c,
       edgeDensity = edgeDensity s / c,
       lengthNorm = lengthNorm s / c,
       straightness = straightness s / c,
       strokeCount = strokeCount s / c \<rparr>"

text \<open>\<^verbatim>\<open>item.features || combineFeatures(item.vector, [])\<close>.\<close>

definition item_features :: "sample \<Rightarrow> features" where
  "item_features item =
     (case sample.features item of Some f \<Rightarrow> f | None \<Rightarrow> combineFeatures (sample.vector item) [])"

text \<open>
  The updates of one bucket for one sample. The loop over \<^verbatim>\<open>item.vector\<close> writes
  \<^verbatim>\<open>vectorSum[i]\<close>; with more than \<open>GRID_SIZE\<^sup>2\<close> entries JavaScript would extend the
  array, the list here is left as it is.
\<close>

definition bucket_add :: "bucket \<Rightarrow> sample \<Rightarrow> bucket" where
  "bucket_add b item =
     \<lparr> bucket.count = bucket.count b + 1,
       vectorSum = foldl (\<lambda>vs i. vs[i := vs ! i + sample.vector item ! i]) (vectorSum b)
                     [0..<length (sample.vector item)],
       featureSum = add_features (featureSum b) (item_features item) \<rparr>"

text \<open>
  \<^verbatim>\<open>byLabel\<close> is a \<^verbatim>\<open>Map\<close>: its entries keep the order in which the keys were first set,
  so it is an association list; a new key goes to the end, a known key keeps its place.
\<close>

definition byLabel_step :: "(string \<times> bucket) list \<Rightarrow> sample \<Rightarrow> (string \<times> bucket) list" where
  "byLabel_step byLabel item =
     (case map_of byLabel (sample.label item) of
        None \<Rightarrow> byLabel @ [(sample.label item, bucket_add empty_bucket item)]
      | Some b \<Rightarrow> AList.update (sample.label item) (bucket_add b item) byLabel)"

definition finish_bucket :: "string \<times> bucket \<Rightarrow> prototype" where
  "finish_bucket e =
     (case e of (l, b) \<Rightarrow>
        \<lparr> label = l,
          count = bucket.count b,
          vector = map (\<lambda>v. v / real (bucket.count b)) (vectorSum b),
          features = scale_features (featureSum b) (real (bucket.count b)) \<rparr>)"

definition buildPrototypes :: "sample list \<Rightarrow> prototype list" where
  "buildPrototypes ds = map finish_bucket (foldl byLabel_step [] ds)"

section \<open>The arithmetic of doubles\<close>

text \<open>
  A JavaScript number is an IEEE-754 double: a sum, a difference, a product, a quotient
  or a square root is the exact result rounded to the nearest double, a tie going to the
  even significand, and a decimal literal of the source is the double nearest to it. The
  rounding is \<open>fl\<close>. A double has a significand of 53 bits; below \<open>2\<^sup>-\<^sup>1\<^sup>0\<^sup>2\<^sup>2\<close> the spacing
  is that of the subnormal numbers, so a result below \<open>2\<^sup>-\<^sup>1\<^sup>0\<^sup>7\<^sup>5\<close> is rounded to \<open>0\<close>; overflow
  to infinity is not modelled, so a model in doubles is the program as long as every
  result stays below \<open>2\<^sup>1\<^sup>0\<^sup>2\<^sup>4\<close>.
\<close>

definition round_half_even :: "real \<Rightarrow> int" where
  "round_half_even x =
     (let f = \<lfloor>x\<rfloor>; d = x - of_int f
      in if d < 1 / 2 then f else if 1 / 2 < d then f + 1 else if even f then f else f + 1)"

definition fl :: "real \<Rightarrow> real" where
  "fl x =
     (if x = 0 then 0
      else let e = max \<lfloor>log 2 \<bar>x\<bar>\<rfloor> (- 1022) - 52
           in sgn x * of_int (round_half_even (\<bar>x\<bar> / 2 powr of_int e)) * 2 powr of_int e)"

definition add_features_fl :: "features \<Rightarrow> features \<Rightarrow> features" where
  "add_features_fl s f =
     \<lparr> fillRatio = fl (fillRatio s + fillRatio f),
       aspectRatio = fl (aspectRatio s + aspectRatio f),
       compactness = fl (compactness s + compactness f),
       symmetryX = fl (symmetryX s + symmetryX f),
       symmetryY = fl (symmetryY s + symmetryY f),
       edgeDensity = fl (edgeDensity s + edgeDensity f),
       lengthNorm = fl (lengthNorm s + lengthNorm f),
       straightness = fl (straightness s + straightness f),
       strokeCount = fl (strokeCount s + strokeCount f) \<rparr>"

definition scale_features_fl :: "features \<Rightarrow> real \<Rightarrow> features" where
  "scale_features_fl s c =
     \<lparr> fillRatio = fl (fillRatio s / c),
       aspectRatio = fl (aspectRatio s / c),
       compactness = fl (compactness s / c),
       symmetryX = fl (symmetryX s / c),
       symmetryY = fl (symmetryY s / c),
       edgeDensity = fl (edgeDensity s / c),
       lengthNorm = fl (lengthNorm s / c),
       straightness = fl (straightness s / c),
       strokeCount = fl (strokeCount s / c) \<rparr>"

definition bucket_add_fl :: "bucket \<Rightarrow> sample \<Rightarrow> bucket" where
  "bucket_add_fl b item =
     \<lparr> bucket.count = bucket.count b + 1,
       vectorSum = foldl (\<lambda>vs i. vs[i := fl (vs ! i + sample.vector item ! i)]) (vectorSum b)
                     [0..<length (sample.vector item)],
       featureSum = add_features_fl (featureSum b) (item_features item) \<rparr>"

definition byLabel_step_fl :: "(string \<times> bucket) list \<Rightarrow> sample \<Rightarrow> (string \<times> bucket) list" where
  "byLabel_step_fl byLabel item =
     (case map_of byLabel (sample.label item) of
        None \<Rightarrow> byLabel @ [(sample.label item, bucket_add_fl empty_bucket item)]
      | Some b \<Rightarrow> AList.update (sample.label item) (bucket_add_fl b item) byLabel)"

definition finish_bucket_fl :: "string \<times> bucket \<Rightarrow> prototype" where
  "finish_bucket_fl e =
     (case e of (l, b) \<Rightarrow>
        \<lparr> label = l,
          count = bucket.count b,
          vector = map (\<lambda>v. fl (v / real (bucket.count b))) (vectorSum b),
          features = scale_features_fl (featureSum b) (real (bucket.count b)) \<rparr>)"

definition buildPrototypes_fl :: "sample list \<Rightarrow> prototype list" where
  "buildPrototypes_fl ds = map finish_bucket_fl (foldl byLabel_step_fl [] ds)"

text \<open>
  \<^verbatim>\<open>cosineDistance\<close> in doubles: every product, every addition of the loop, the two
  square roots, their product, the quotient and the final difference are rounded
  (\<^verbatim>\<open>Math.sqrt\<close> is the correctly rounded square root of IEEE 754).
\<close>

definition cosineDistance_fl :: "real list \<Rightarrow> real list \<Rightarrow> real" where
  "cosineDistance_fl a b =
     (let (dot, normA, normB) =
            foldl (\<lambda>(dot, normA, normB) i.
                     (fl (dot + fl (a ! i * b ! i)), fl (normA + fl (a ! i * a ! i)),
                      fl (normB + fl (b ! i * b ! i))))
                  (0, 0, 0) [0..<length a];
          denom = fl (fl (sqrt normA) * fl (sqrt normB))
      in if denom = 0 then 1 else fl (1 - fl (dot / denom)))"

section \<open>The component\<close>

text \<open>
  The state of \<^verbatim>\<open>App\<close>: the \<^verbatim>\<open>useState\<close> cells, \<^verbatim>\<open>strokesRef.current\<close>, the RGBA
  bytes that \<^verbatim>\<open>getImageData\<close> returns for the canvas scaled to \<open>GRID_SIZE \<times> GRID_SIZE\<close>
  (the scaling is the browser's), and the entry of \<^verbatim>\<open>localStorage\<close> under
  \<^verbatim>\<open>STORAGE_KEY\<close>. \<^verbatim>\<open>prototypes\<close> is \<^verbatim>\<open>useMemo\<close> of the dataset, so it is computed
  where it is used.
\<close>

record app =
  dataset :: "sample list"
  prompt :: string
  guess :: string
  confidence :: int
  statusMessage :: string
  isErasing :: bool
  strokesRef :: "stroke list"
  canvasData :: "8 word list"
  storage :: stored

text \<open>
  \<^verbatim>\<open>vectorizeCanvas\<close>: one grid cell for every four bytes. \<^verbatim>\<open>getImageData\<close> returns
  \<open>4 * GRID_SIZE\<^sup>2\<close> bytes, so no group is ever incomplete. The sum of three bytes is an
  integer below \<open>766\<close> and exact; the two quotients and the difference are rounded.
\<close>

fun vectorizeCanvas :: "8 word list \<Rightarrow> real list" where
  "vectorizeCanvas (r # g # b # a # rest) =
     (let gray = fl ((real (unat r) + real (unat g) + real (unat b)) / 3)
      in fl (1 - fl (gray / 255)) # vectorizeCanvas rest)"
| "vectorizeCanvas _ = []"

text \<open>
  \<^verbatim>\<open>getDrawingStats\<close>: \<^verbatim>\<open>reduce\<close> adds the cells from left to right, every sum rounded;
  the literal \<^verbatim>\<open>0.18\<close> is the double nearest to \<open>0.18\<close>, and the counts are small integers.
\<close>

record drawingStats =
  vec :: "real list"
  totalInk :: real
  activePixels :: nat
  drawnStrokeCount :: nat
  hasMeaningfulDrawing :: bool

definition getDrawingStats :: "app \<Rightarrow> drawingStats" where
  "getDrawingStats st =
     (let v = vectorizeCanvas (canvasData st);
          ink = foldl (\<lambda>sum value. fl (sum + value)) 0 v;
          active = foldl (\<lambda>count value. count + (if value > fl 0.18 then 1 else 0)) 0 v;
          drawn = length (filter (\<lambda>stroke. length stroke > 1) (strokesRef st))
      in \<lparr> vec = v, totalInk = ink, activePixels = active, drawnStrokeCount = drawn,
           hasMeaningfulDrawing = (ink > 5 \<and> active > 8 \<and> drawn > 0) \<rparr>)"

subsection \<open>Scoring and voting\<close>

definition scoreExample :: "real list \<Rightarrow> features \<Rightarrow> sample \<Rightarrow> string \<times> real" where
  "scoreExample v fs item =
     (let itemFeatures = item_features item;
          pixelDist = distance v (sample.vector item) / sqrt (real (length v));
          angularDist = cosineDistance v (sample.vector item);
          shapeDist = featureDistance fs itemFeatures;
          dist = pixelDist * 1.9 + angularDist * 1.4 + shapeDist * 1.7
      in (sample.label item, dist))"

definition scorePrototype :: "real list \<Rightarrow> features \<Rightarrow> prototype \<Rightarrow> string \<times> real" where
  "scorePrototype v fs proto =
     (let pixelDist = distance v (vector proto) / sqrt (real (length v));
          angularDist = cosineDistance v (vector proto);
          shapeDist = featureDistance fs (features proto);
          sampleBonus = real (min (count proto) 12) / 120;
          dist = pixelDist * 1.6 + angularDist * 1.2 + shapeDist * 1.5 - sampleBonus
      in (label proto, dist))"

text \<open>
  \<^verbatim>\<open>votes.set(e.label, (votes.get(e.label) || 0) + w / Math.max(e.dist, 0.05))\<close> on the
  \<^verbatim>\<open>Map\<close> of votes, again an association list in insertion order.
\<close>

definition add_vote :: "real \<Rightarrow> (string \<times> real) list \<Rightarrow> string \<times> real \<Rightarrow> (string \<times> real) list" where
  "add_vote w votes e =
     (let weight = w / max (snd e) 0.05;
          old = (case map_of votes (fst e) of None \<Rightarrow> 0 | Some s \<Rightarrow> s)
      in AList.update (fst e) (old + weight) votes)"

text \<open>The votes of the nine nearest samples, then of every prototype.\<close>

definition castVotes ::
  "real list \<Rightarrow> features \<Rightarrow> sample list \<Rightarrow> prototype list \<Rightarrow> (string \<times> real) list" where
  "castVotes v fs ds prototypes =
     (let scoredExamples = map (scoreExample v fs) ds;
          scoredPrototypes = map (scorePrototype v fs) prototypes;
          nearest = take 9 (sort_key snd scoredExamples)
      in foldl (add_vote 0.9) (foldl (add_vote 1) [] nearest) scoredPrototypes)"

text \<open>
  The values \<^verbatim>\<open>guessDrawing\<close> derives from the votes. \<^verbatim>\<open>Array.prototype.sort\<close> is
  stable, as \<open>sort_key\<close> is; \<^verbatim>\<open>Math.round\<close> rounds halves up, as \<open>round\<close> does.
\<close>

record ranking =
  bestLabel :: string
  bestScore :: real
  secondScore :: real
  voteTotal :: real
  margin :: real
  certainty :: real
  prototypeWeight :: real
  conf :: int
  lowConfidence :: bool

definition rankVotes :: "(string \<times> real) list \<Rightarrow> nat \<Rightarrow> ranking" where
  "rankVotes votes nprototypes =
     (let ranked = sort_key (\<lambda>e. - snd e) votes;
          best = (case ranked of [] \<Rightarrow> (''unknown'', 0) | e # _ \<Rightarrow> e);
          second = (case ranked of _ # e # _ \<Rightarrow> snd e | _ \<Rightarrow> 0);
          total = foldl (\<lambda>sum e. sum + snd e) 0 ranked;
          m = snd best - second;
          c = (if total > 0 then snd best / total else 0);
          pw = min (real nprototypes / 10) 1;
          cf = max 1 (min 99 (round ((c * 0.65 + m * 0.25 + pw * 0.1) * 100)));
          low = (cf < 60 \<or> m < 0.12)
      in \<lparr> bestLabel = fst best, bestScore = snd best, secondScore = second, voteTotal = total,
           margin = m, certainty = c, prototypeWeight = pw, conf = cf, lowConfidence = low \<rparr>)"

text \<open>
  The same values in doubles, from a \<^verbatim>\<open>Map\<close> of votes that holds doubles. The comparator
  \<^verbatim>\<open>b[1] - a[1]\<close> of the sort has the sign of the exact difference, because a difference
  of two distinct doubles is never rounded to zero; \<^verbatim>\<open>Math.round\<close> is exact on a double;
  \<^verbatim>\<open>prototypes.length / 10\<close>, the three products, the two sums and the product with
  \<open>100\<close> are rounded, and \<^verbatim>\<open>0.65\<close>, \<^verbatim>\<open>0.25\<close>, \<^verbatim>\<open>0.1\<close> and \<^verbatim>\<open>0.12\<close> are the doubles nearest
  to these numbers.
\<close>

definition rankVotes_fl :: "(string \<times> real) list \<Rightarrow> nat \<Rightarrow> ranking" where
  "rankVotes_fl votes nprototypes =
     (let ranked = sort_key (\<lambda>e. - snd e) votes;
          best = (case ranked of [] \<Rightarrow> (''unknown'', 0) | e # _ \<Rightarrow> e);
          second = (case ranked of _ # e # _ \<Rightarrow> snd e | _ \<Rightarrow> 0);
          total = foldl (\<lambda>sum e. fl (sum + snd e)) 0 ranked;
          m = fl (snd best - second);
          c = (if total > 0 then fl (snd best / total) else 0);
          pw = min (fl (real nprototypes / 10)) 1;
          cf = max 1 (min 99 (round (fl (fl (fl (fl (c * fl 0.65) + fl (m * fl 0.25)) +
                                              fl (pw * fl 0.1)) * 100))));
          low = (cf < 60 \<or> m < fl 0.12)
      in \<lparr> bestLabel = fst best, bestScore = snd best, secondScore = second, voteTotal = total,
           margin = m, certainty = c, prototypeWeight = pw, conf = cf, lowConfidence = low \<rparr>)"

definition classify :: "app \<Rightarrow> ranking" where
  "classify st =
     (let v = vec (getDrawingStats st);
          fs = combineFeatures v (strokesRef st);
          prototypes = buildPrototypes (dataset st)
      in rankVotes (castVotes v fs (dataset st) prototypes) (length prototypes))"

definition dash :: string where
  "dash = [CHR 0xE2, CHR 0x80, CHR 0x94]"

definition guessDrawing :: "app \<Rightarrow> app" where
  "guessDrawing st =
     (let drawingStats = getDrawingStats st in
      if \<not> hasMeaningfulDrawing drawingStats then
        st\<lparr> statusMessage := ''Draw something first '' @ dash @ '' erased/blank canvas cannot be guessed.'',
            guess := ''unknown'',
            confidence := 0 \<rparr>
      else if length (dataset st) = 0 then
        st\<lparr> guess := ''Need training data first'',
            confidence := 0,
            statusMessage := ''Train me with a few drawings before guessing.'' \<rparr>
      else
        let r = classify st in
        st\<lparr> guess := (if lowConfidence r then ''unknown'' else bestLabel r),
            confidence := conf r,
            statusMessage :=
              (if lowConfidence r
               then ''Not confident enough to guess yet '' @ dash @ '' try cleaner strokes.''
               else []) \<rparr>)"

subsection \<open>Saving\<close>

definition clearCanvas :: "app \<Rightarrow> app" where
  "clearCanvas st =
     st\<lparr> canvasData := replicate (4 * GRID_SIZE * GRID_SIZE) 255,
         strokesRef := [],
         guess := ''unknown'',
         confidence := 0,
         statusMessage := [] \<rparr>"

text \<open>\<^verbatim>\<open>xs.slice(-n)\<close>: the last \<open>n\<close> entries, all of them when there are fewer.\<close>

definition slice_last :: "nat \<Rightarrow> 'a list \<Rightarrow> 'a list" where
  "slice_last n xs = drop (length xs - n) xs"

text \<open>What \<^verbatim>\<open>JSON.stringify\<close> writes for the dataset, as \<^verbatim>\<open>JSON.parse\<close> reads it back.\<close>

definition features_json :: "features \<Rightarrow> json" where
  "features_json f =
     JObj [(''fillRatio'', JNum (fillRatio f)), (''aspectRatio'', JNum (aspectRatio f)),
           (''compactness'', JNum (compactness f)), (''symmetryX'', JNum (symmetryX f)),
           (''symmetryY'', JNum (symmetryY f)), (''edgeDensity'', JNum (edgeDensity f)),
           (''lengthNorm'', JNum (lengthNorm f)), (''straightness'', JNum (straightness f)),
           (''strokeCount'', JNum (strokeCount f))]"

definition sample_json :: "sample \<Rightarrow> json" where
  "sample_json s =
     JObj ([(''label'', JStr (sample.label s)), (''vector'', JArr (map JNum (sample.vector s)))] @
           (case sample.features s of None \<Rightarrow> [] | Some f \<Rightarrow> [(''features'', features_json f)]) @
           [(''ts'', JNum (real_of_int (ts s)))])"

definition saveDataset :: "sample list \<Rightarrow> stored" where
  "saveDataset ds = Parsed (JArr (map sample_json ds))"

text \<open>
  \<^verbatim>\<open>saveDrawing\<close>; \<open>now\<close> is the value of \<^verbatim>\<open>Date.now()\<close> and \<open>r\<close> that of
  \<^verbatim>\<open>Math.random()\<close>. The first definition is the object it appends,
  \<^verbatim>\<open>{ label: prompt, vector: vec, features, ts: Date.now() }\<close>.
\<close>

definition new_sample :: "int \<Rightarrow> app \<Rightarrow> sample" where
  "new_sample now st =
     (let v = vec (getDrawingStats st);
          fs = combineFeatures v (strokesRef st)
      in \<lparr> sample.label = prompt st, sample.vector = v, sample.features = Some fs, ts = now \<rparr>)"

definition saveDrawing :: "int \<Rightarrow> real \<Rightarrow> app \<Rightarrow> app" where
  "saveDrawing now r st =
     (let drawingStats = getDrawingStats st in
      if \<not> hasMeaningfulDrawing drawingStats then
        st\<lparr> statusMessage := ''Nope '' @ dash @ '' draw first. Blank/erased canvas won't be saved to training.'' \<rparr>
      else
        let updated = slice_last 2000 (dataset st @ [new_sample now st])
        in (clearCanvas (st\<lparr> dataset := updated, storage := saveDataset updated,
                             prompt := randomPrompt r \<rparr>))
             \<lparr> statusMessage := ''Saved to training set. Nice.'' \<rparr>)"

section \<open>Notions used in the statements\<close>

text \<open>
  The tally of a label in the \<^verbatim>\<open>Map\<close> of votes (\<open>0\<close> when the label has no entry), and the
  sum of the weights \<open>w / max(dist, 0.05)\<close> that a list of scored entries gives to a label.
\<close>

definition vote_of :: "(string \<times> real) list \<Rightarrow> string \<Rightarrow> real" where
  "vote_of votes k = (case map_of votes k of None \<Rightarrow> 0 | Some s \<Rightarrow> s)"

definition vote_weights :: "real \<Rightarrow> string \<Rightarrow> (string \<times> real) list \<Rightarrow> real" where
  "vote_weights w k es = sum_list (map (\<lambda>e. w / max (snd e) 0.05) (filter (\<lambda>e. fst e = k) es))"

text \<open>The bucket of a label in \<^verbatim>\<open>byLabel\<close>, the fresh bucket when the label is new.\<close>

definition bucket_or_empty :: "(string \<times> bucket) list \<Rightarrow> string \<Rightarrow> bucket" where
  "bucket_or_empty byLabel l = (case map_of byLabel l of None \<Rightarrow> empty_bucket | Some b \<Rightarrow> b)"

text \<open>The nine nearest scored samples, and the votes of a state once all are cast.\<close>

definition nearest_of :: "real list \<Rightarrow> features \<Rightarrow> sample list \<Rightarrow> (string \<times> real) list" where
  "nearest_of v fs ds = take 9 (sort_key snd (map (scoreExample v fs) ds))"

definition tallies :: "app \<Rightarrow> (string \<times> real) list" where
  "tallies st =
     (let v = vec (getDrawingStats st);
          fs = combineFeatures v (strokesRef st)
      in castVotes v fs (dataset st) (buildPrototypes (dataset st)))"

text \<open>
  The blended distance \<^verbatim>\<open>dist\<close> that \<^verbatim>\<open>guessDrawing\<close> computes between the current
  drawing and a sample.
\<close>

definition blended_distance :: "app \<Rightarrow> sample \<Rightarrow> real" where
  "blended_distance st s =
     (let v = vec (getDrawingStats st) in snd (scoreExample v (combineFeatures v (strokesRef st)) s))"

text \<open>
  The sum of a list as \<^verbatim>\<open>reduce\<close> accumulates it in doubles, and the three accumulators
  of the loop of \<^verbatim>\<open>cosineDistance\<close> in doubles, each on its own.
\<close>

definition double_sum :: "real list \<Rightarrow> real" where
  "double_sum xs = foldl (\<lambda>sum value. fl (sum + value)) 0 xs"

definition dot_fl :: "real list \<Rightarrow> real list \<Rightarrow> real" where
  "dot_fl a b = foldl (\<lambda>dot i. fl (dot + fl (a ! i * b ! i))) 0 [0..<length a]"

definition norm2_fl :: "real list \<Rightarrow> real" where
  "norm2_fl a = foldl (\<lambda>norm i. fl (norm + fl (a ! i * a ! i))) 0 [0..<length a]"

text \<open>
  The weighted sum of \<^verbatim>\<open>guessDrawing\<close> in doubles,
  \<^verbatim>\<open>certainty * 0.65 + margin * 0.25 + prototypeWeight * 0.1\<close>.
\<close>

definition blend_fl :: "real \<Rightarrow> real \<Rightarrow> real \<Rightarrow> real" where
  "blend_fl c m pw = fl (fl (fl (c * fl 0.65) + fl (m * fl 0.25)) + fl (pw * fl 0.1))"

text \<open>Two entries of \<^verbatim>\<open>byLabel\<close> that agree on the label and on the count.\<close>

definition same_count :: "string \<times> bucket \<Rightarrow> string \<times> bucket \<Rightarrow> bool" where
  "same_count e e' = (fst e = fst e' \<and> bucket.count (snd e) = bucket.count (snd e'))"

section \<open>The formulas of the specification\<close>

text \<open>
  The dot product and the Euclidean norm of the definition of the cosine distance in the
  specification, and its \<open>clamp(x, lo, hi)\<close>.
\<close>

definition dot_product :: "real list \<Rightarrow> real list \<Rightarrow> real" where
  "dot_product a b = sum_list (map (\<lambda>(x, y). x * y) (zip a b))"

definition vector_norm :: "real list \<Rightarrow> real" where
  "vector_norm a = sqrt (sum_list (map (\<lambda>x. x * x) a))"

definition spec_clamp :: "real \<Rightarrow> real \<Rightarrow> real \<Rightarrow> real" where
  "spec_clamp x lo hi = max lo (min hi x)"

text \<open>
  The prototype of a label in the words of the specification: the samples of the label are
  counted, their ink vectors are averaged element-wise and each feature is averaged on
  its own.
\<close>

definition spec_prototype :: "string \<Rightarrow> sample list \<Rightarrow> prototype" where
  "spec_prototype l ds =
     (let xs = filter (\<lambda>s. sample.label s = l) ds;
          n = real (length xs);
          mean = (\<lambda>f. sum_list (map (\<lambda>s. f (item_features s)) xs) / n)
      in \<lparr> label = l,
           count = length xs,
           vector = map (\<lambda>i. sum_list (map (\<lambda>s. sample.vector s ! i) xs) / n)
                      [0..<GRID_SIZE * GRID_SIZE],
           features =
             \<lparr> fillRatio = mean fillRatio, aspectRatio = mean aspectRatio,
               compactness = mean compactness, symmetryX = mean symmetryX,
               symmetryY = mean symmetryY, edgeDensity = mean edgeDensity,
               lengthNorm = mean lengthNorm, straightness = mean straightness,
               strokeCount = mean strokeCount \<rparr> \<rparr>)"

section \<open>Concrete states\<close>

text \<open>
  The component as it mounts on an empty store, with a white canvas; then with a canvas
  painted black and one stroke of three points; then with nine cells on white, three
  black, three of the grey \<open>85\<close> and three of the grey \<open>170\<close>; then with twenty-five cells
  of the grey \<open>204\<close> on white.
\<close>

definition blank_canvas :: "8 word list" where
  "blank_canvas = concat (replicate 256 [255, 255, 255, 255])"

definition black_canvas :: "8 word list" where
  "black_canvas = concat (replicate 256 [0, 0, 0, 255])"

definition grey_canvas :: "8 word list" where
  "grey_canvas =
     concat (replicate 3 [0, 0, 0, 255]) @ concat (replicate 3 [85, 85, 85, 255]) @
     concat (replicate 3 [170, 170, 170, 255]) @ concat (replicate 247 [255, 255, 255, 255])"

definition faint_canvas :: "8 word list" where
  "faint_canvas =
     concat (replicate 25 [204, 204, 204, 255]) @ concat (replicate 231 [255, 255, 255, 255])"

definition example_stroke :: stroke where
  "example_stroke = [\<lparr> px = 0, py = 0 \<rparr>, \<lparr> px = 30, py = 40 \<rparr>, \<lparr> px = 60, py = 80 \<rparr>]"

definition initial_app :: app where
  "initial_app =
     \<lparr> dataset = [], prompt = ''cat'', guess = ''unknown'', confidence = 0, statusMessage = [],
       isErasing = False, strokesRef = [], canvasData = blank_canvas, storage = Absent \<rparr>"

definition drawn_app :: app where
  "drawn_app = initial_app\<lparr> strokesRef := [example_stroke], canvasData := black_canvas \<rparr>"

definition grey_app :: app where
  "grey_app = initial_app\<lparr> strokesRef := [example_stroke], canvasData := grey_canvas \<rparr>"

definition faint_app :: app where
  "faint_app = initial_app\<lparr> strokesRef := [example_stroke], canvasData := faint_canvas \<rparr>"

text \<open>A sample of the black drawing, as \<^verbatim>\<open>saveDrawing\<close> stores it under the prompt "cat".\<close>

definition cat_sample :: sample where
  "cat_sample =
     \<lparr> sample.label = ''cat'', sample.vector = replicate 256 1,
       sample.features = Some (combineFeatures (replicate 256 1) [example_stroke]), ts = 0 \<rparr>"

definition trained_app :: "nat \<Rightarrow> app" where
  "trained_app n = drawn_app\<lparr> dataset := replicate n cat_sample \<rparr>"

text \<open>The same drawing stored under another label.\<close>

definition dog_sample :: sample where
  "dog_sample = cat_sample\<lparr> sample.label := ''dog'' \<rparr>"


text \<open>
  Four samples labelled "cat" whose vectors differ in the first cell only, where they hold
  \<open>1\<close>, \<open>2\<^sup>-\<^sup>5\<^sup>3\<close>, \<open>2\<^sup>-\<^sup>5\<^sup>3\<close> and \<open>0\<close>, in two orders.
\<close>

definition ulp_sample :: "real \<Rightarrow> sample" where
  "ulp_sample x =
     \<lparr> sample.label = ''cat'', sample.vector = x # replicate 255 0,
       sample.features =
         Some \<lparr> fillRatio = 0, aspectRatio = 1, compactness = 0, symmetryX = 1, symmetryY = 1,
                edgeDensity = 0, lengthNorm = 0, straightness = 0, strokeCount = 0 \<rparr>,
       ts = 0 \<rparr>"

definition ulp_order_a :: "sample list" where
  "ulp_order_a = [ulp_sample 1, ulp_sample (1 / 2 ^ 53), ulp_sample (1 / 2 ^ 53), ulp_sample 0]"

definition ulp_order_b :: "sample list" where
  "ulp_order_b = [ulp_sample (1 / 2 ^ 53), ulp_sample (1 / 2 ^ 53), ulp_sample 1, ulp_sample 0]"

text \<open>
  Two tallies, the doubles that print as \<^verbatim>\<open>0.8416510083462732\<close> and
  \<^verbatim>\<open>0.36108296342529805\<close>; and a \<^verbatim>\<open>Map\<close> whose only vote is \<open>0\<close>, the weight
  \<^verbatim>\<open>1 / Math.max(dist, 0.05)\<close> of a distance that is \<^verbatim>\<open>Infinity\<close>.
\<close>

definition close_votes :: "(string \<times> real) list" where
  "close_votes = [(''cat'', 1895229583782139 / 2 ^ 51), (''dog'', 6504692398128027 / 2 ^ 54)]"

definition zero_votes :: "(string \<times> real) list" where
  "zero_votes = [(''cat'', 0)]"

text \<open>
  A stored sample that makes every distance overflow, and the black drawing against it;
  and the tally of the black drawing against ten samples equal to it, nine votes of \<open>20\<close>
  and the vote \<open>18\<close> of the prototype.
\<close>

definition huge_sample :: sample where
  "huge_sample =
     \<lparr> sample.label = ''cat'', sample.vector = replicate 256 (10 ^ 200),
       sample.features = None, ts = 0 \<rparr>"

definition overflow_app :: app where
  "overflow_app = drawn_app\<lparr> dataset := [huge_sample] \<rparr>"

definition strong_votes :: "(string \<times> real) list" where
  "strong_votes = [(''cat'', 198)]"

text \<open>An entry without a label, and a store that holds it after a well-formed sample.\<close>

definition unlabelled_entry :: json where
  "unlabelled_entry = JObj [(''vector'', JArr (replicate 256 (JNum 0)))]"

definition example_store :: stored where
  "example_store = Parsed (JArr [sample_json cat_sample, unlabelled_entry])"

text \<open>A stored entry whose vector has the right length and no number in it.\<close>

definition unchecked_entry :: json where
  "unchecked_entry = JObj [(''label'', JStr ''cat''), (''vector'', JArr (replicate 256 JNull))]"

section \<open>Rounding to a double\<close>

text \<open>
  Rounding to the nearest integer with ties to even is monotone and leaves integers alone;
  so rounding to a double is monotone, odd and idempotent, it leaves every number
  \<open>m \<cdot> 2\<^sup>k\<close> with \<open>m < 2\<^sup>5\<^sup>3\<close> and \<open>k \<ge> -1074\<close> alone, it sends the numbers up to
  \<open>2\<^sup>-\<^sup>1\<^sup>0\<^sup>7\<^sup>5\<close> to \<open>0\<close>, and a positive result is at least \<open>2\<^sup>-\<^sup>1\<^sup>0\<^sup>7\<^sup>4\<close>.
\<close>

lemma round_half_even_int: "round_half_even (of_int m) = m"
  by (simp add: round_half_even_def)

lemma round_half_even_floor: "\<lfloor>x\<rfloor> \<le> round_half_even x" "round_half_even x \<le> \<lfloor>x\<rfloor> + 1"
  by (simp_all add: round_half_even_def Let_def)

lemma round_half_even_near:
  assumes "\<bar>x - of_int m\<bar> < 1 / 2"
  shows "round_half_even x = m"
proof (cases "of_int m \<le> x")
  case True
  then have f: "\<lfloor>x\<rfloor> = m" using assms by (intro floor_unique) (simp_all add: abs_if split: if_splits)
  show ?thesis using assms True by (simp add: round_half_even_def Let_def f)
next
  case False
  then have f: "\<lfloor>x\<rfloor> = m - 1" using assms by (intro floor_unique) (simp_all add: abs_if split: if_splits)
  show ?thesis using assms False by (simp add: round_half_even_def Let_def f)
qed

lemma round_half_even_tie_up:
  assumes "x = of_int m - 1 / 2" and "even m"
  shows "round_half_even x = m"
proof -
  have f: "\<lfloor>x\<rfloor> = m - 1" unfolding assms(1) by (intro floor_unique) simp_all
  show ?thesis using assms(2) by (simp add: round_half_even_def Let_def f) (simp add: assms(1))
qed

lemma round_half_even_tie_down:
  assumes "x = of_int m + 1 / 2" and "even m"
  shows "round_half_even x = m"
proof -
  have f: "\<lfloor>x\<rfloor> = m" unfolding assms(1) by (intro floor_unique) simp_all
  show ?thesis using assms(2) by (simp add: round_half_even_def Let_def f) (simp add: assms(1))
qed

lemma round_half_even_mono:
  assumes "x \<le> y"
  shows "round_half_even x \<le> round_half_even y"
proof (cases "\<lfloor>x\<rfloor> = \<lfloor>y\<rfloor>")
  case True
  have "x - of_int \<lfloor>y\<rfloor> \<le> y - of_int \<lfloor>y\<rfloor>" using assms by simp
  then show ?thesis unfolding round_half_even_def Let_def True
    by (simp split: if_splits)
next
  case False
  have "\<lfloor>x\<rfloor> \<le> \<lfloor>y\<rfloor>" using assms by (rule floor_mono)
  then have "\<lfloor>x\<rfloor> + 1 \<le> \<lfloor>y\<rfloor>" using False by simp
  then show ?thesis
    using round_half_even_floor(2)[of x] round_half_even_floor(1)[of y] by linarith
qed

lemma fl_zero: "fl 0 = 0"
  by (simp add: fl_def)

lemma fl_neg: "fl (- x) = - fl x"
  by (simp add: fl_def Let_def sgn_if)

lemma fl_pos:
  assumes "0 < x" and "e = max \<lfloor>log 2 x\<rfloor> (- 1022) - 52"
  shows "fl x = of_int (round_half_even (x / 2 powr of_int e)) * 2 powr of_int e"
  using assms(1) unfolding assms(2) by (simp add: fl_def Let_def)

lemma scaled_below:
  assumes "0 < x" and "e = max \<lfloor>log 2 x\<rfloor> (- 1022) - 52"
  shows "x / 2 powr of_int e < 2 ^ 53"
proof -
  have "\<lfloor>log 2 x\<rfloor> + 1 \<le> e + 53" unfolding assms(2) by simp
  then have "(of_int (\<lfloor>log 2 x\<rfloor> + 1) :: real) \<le> of_int (e + 53)" by (subst of_int_le_iff)
  moreover have "log 2 x < of_int (\<lfloor>log 2 x\<rfloor> + 1)" by linarith
  ultimately have "log 2 x < of_int (e + 53)" by linarith
  then have "x < 2 powr of_int (e + 53)" using assms(1) by (simp add: log_less_iff)
  also have "\<dots> = 2 powr of_int e * 2 powr 53" by (simp add: powr_add)
  also have "\<dots> = 2 powr of_int e * 2 ^ 53" by (simp add: powr_numeral)
  finally show ?thesis by (simp add: field_simps)
qed

lemma scaled_above:
  assumes "0 < x" and "e = max \<lfloor>log 2 x\<rfloor> (- 1022) - 52" and "- 1022 \<le> \<lfloor>log 2 x\<rfloor>"
  shows "2 ^ 52 \<le> x / 2 powr of_int e"
proof -
  have e: "e + 52 = \<lfloor>log 2 x\<rfloor>" using assms(3) unfolding assms(2) by simp
  have "of_int (e + 52) \<le> log 2 x" unfolding e by simp
  then have "2 powr of_int (e + 52) \<le> x" using assms(1) by (simp add: le_log_iff)
  moreover have "2 powr of_int (e + 52) = 2 powr of_int e * (2::real) ^ 52"
    by (simp add: powr_add powr_numeral)
  ultimately show ?thesis by (simp add: field_simps)
qed

lemma scaled_round_nonneg:
  assumes "0 < x"
  shows "0 \<le> round_half_even (x / 2 powr of_int e)"
proof -
  have "0 \<le> x / 2 powr of_int e" using assms by simp
  then have "0 \<le> \<lfloor>x / 2 powr of_int e\<rfloor>" by simp
  then show ?thesis using round_half_even_floor(1) by (rule order_trans)
qed

lemma fl_nonneg: "0 \<le> x \<Longrightarrow> 0 \<le> fl x"
proof (cases "x = 0")
  case True
  then show ?thesis by (simp add: fl_zero)
next
  case False
  assume "0 \<le> x"
  then have pos: "0 < x" using False by simp
  define e where "e = max \<lfloor>log 2 x\<rfloor> (- 1022) - 52"
  show ?thesis unfolding fl_pos[OF pos e_def] using scaled_round_nonneg[OF pos, of e] by simp
qed

lemma fl_mono_pos:
  assumes "0 < x" and "x \<le> y"
  shows "fl x \<le> fl y"
proof -
  have ypos: "0 < y" using assms by simp
  define ex where "ex = max \<lfloor>log 2 x\<rfloor> (- 1022) - 52"
  define ey where "ey = max \<lfloor>log 2 y\<rfloor> (- 1022) - 52"
  have "log 2 x \<le> log 2 y" using assms by simp
  then have fle: "\<lfloor>log 2 x\<rfloor> \<le> \<lfloor>log 2 y\<rfloor>" by (rule floor_mono)
  then have ele: "ex \<le> ey" unfolding ex_def ey_def by simp
  show ?thesis
  proof (cases "ex = ey")
    case True
    have "x / 2 powr of_int ey \<le> y / 2 powr of_int ey"
      using assms(2) by (simp add: divide_right_mono)
    then have "round_half_even (x / 2 powr of_int ey) \<le> round_half_even (y / 2 powr of_int ey)"
      by (rule round_half_even_mono)
    then have "(of_int (round_half_even (x / 2 powr of_int ey)) :: real)
                 \<le> of_int (round_half_even (y / 2 powr of_int ey))"
      by (subst of_int_le_iff)
    then have "of_int (round_half_even (x / 2 powr of_int ey)) * (2::real) powr of_int ey
                 \<le> of_int (round_half_even (y / 2 powr of_int ey)) * 2 powr of_int ey"
      by (intro mult_right_mono) simp_all
    then show ?thesis unfolding fl_pos[OF assms(1) ex_def] fl_pos[OF ypos ey_def] True .
  next
    case False
    then have lt: "ex + 1 \<le> ey" using ele by linarith
    then have norm: "- 1022 \<le> \<lfloor>log 2 y\<rfloor>" unfolding ex_def ey_def by linarith
    have "round_half_even (x / 2 powr of_int ex) \<le> round_half_even (of_int (2 ^ 53))"
      using scaled_below[OF assms(1) ex_def] by (intro round_half_even_mono) simp
    then have "round_half_even (x / 2 powr of_int ex) \<le> 2 ^ 53"
      unfolding round_half_even_int .
    then have "(of_int (round_half_even (x / 2 powr of_int ex)) :: real) \<le> of_int (2 ^ 53)"
      by (subst of_int_le_iff)
    then have "of_int (round_half_even (x / 2 powr of_int ex)) * (2::real) powr of_int ex
                 \<le> of_int (2 ^ 53) * 2 powr of_int ex"
      by (intro mult_right_mono) simp_all
    then have a: "fl x \<le> 2 ^ 53 * 2 powr of_int ex" unfolding fl_pos[OF assms(1) ex_def] by simp
    have "round_half_even (of_int (2 ^ 52)) \<le> round_half_even (y / 2 powr of_int ey)"
      using scaled_above[OF ypos ey_def norm] by (intro round_half_even_mono) simp
    then have "2 ^ 52 \<le> round_half_even (y / 2 powr of_int ey)"
      unfolding round_half_even_int .
    then have "(of_int (2 ^ 52) :: real) \<le> of_int (round_half_even (y / 2 powr of_int ey))"
      by (subst of_int_le_iff)
    then have "of_int (2 ^ 52) * (2::real) powr of_int ey
                 \<le> of_int (round_half_even (y / 2 powr of_int ey)) * 2 powr of_int ey"
      by (intro mult_right_mono) simp_all
    then have b: "2 ^ 52 * 2 powr of_int ey \<le> fl y" unfolding fl_pos[OF ypos ey_def] by simp
    have "(2::real) powr of_int (ex + 1) \<le> 2 powr of_int ey"
      using lt by (intro powr_mono) simp_all
    then have "2 * 2 powr of_int ex \<le> (2::real) powr of_int ey"
      by (simp add: powr_add)
    then have "2 ^ 53 * 2 powr of_int ex \<le> 2 ^ 52 * (2::real) powr of_int ey" by simp
    with a b show ?thesis by linarith
  qed
qed

lemma fl_mono:
  assumes "x \<le> y"
  shows "fl x \<le> fl y"
proof -
  consider "0 < x" | "x \<le> 0 \<and> 0 \<le> y" | "y < 0" using assms by linarith
  then show ?thesis
  proof cases
    case 1
    then show ?thesis using assms by (rule fl_mono_pos)
  next
    case 2
    then have "0 \<le> fl y" by (simp add: fl_nonneg)
    moreover have "0 \<le> fl (- x)" using 2 by (simp add: fl_nonneg)
    ultimately show ?thesis by (simp add: fl_neg)
  next
    case 3
    then have "fl (- y) \<le> fl (- x)" using assms by (intro fl_mono_pos) simp_all
    then show ?thesis by (simp add: fl_neg)
  qed
qed

lemma fl_repr:
  assumes "0 < m" and "m < 2 ^ 53" and "- 1074 \<le> k"
  shows "fl (of_int m * 2 powr of_int k) = of_int m * 2 powr of_int k"
proof -
  define x :: real where "x = of_int m * 2 powr of_int k"
  define e where "e = max \<lfloor>log 2 x\<rfloor> (- 1022) - 52"
  have mpos: "(0::real) < of_int m" using assms(1) by simp
  have xpos: "0 < x" unfolding x_def using mpos by simp
  have "(of_int m :: real) < of_int (2 ^ 53)" using assms(2) by (subst of_int_less_iff)
  then have "(of_int m :: real) < 2 powr 53" by (simp add: powr_numeral)
  then have "log 2 (of_int m) < 53" using mpos by (simp add: log_less_iff)
  moreover have "log 2 x = log 2 (of_int m) + of_int k"
    unfolding x_def using mpos by (simp add: log_mult)
  ultimately have "log 2 x < of_int (53 + k)" by simp
  then have "\<lfloor>log 2 x\<rfloor> < 53 + k" by (simp add: floor_less_iff)
  then have ele: "e \<le> k" unfolding e_def using assms(3) by simp
  define j where "j = nat (k - e)"
  have "k = e + int j" using ele unfolding j_def by simp
  then have k: "(of_int k :: real) = of_int e + real j" by simp
  have "x / 2 powr of_int e = of_int m * (2 powr of_int k / 2 powr of_int e)"
    unfolding x_def by simp
  also have "2 powr of_int k / 2 powr of_int e = (2::real) powr real j"
    unfolding k by (simp add: powr_add)
  also have "\<dots> = 2 ^ j" by (simp add: powr_realpow)
  finally have q: "x / 2 powr of_int e = of_int (m * 2 ^ j)" by simp
  have "fl x = of_int (m * 2 ^ j) * 2 powr of_int e"
    unfolding fl_pos[OF xpos e_def] q round_half_even_int ..
  also have "\<dots> = of_int m * ((2::real) powr real j * 2 powr of_int e)"
    by (simp add: powr_realpow)
  also have "(2::real) powr real j * 2 powr of_int e = 2 powr of_int k"
    unfolding k by (simp add: powr_add)
  finally show ?thesis unfolding x_def .
qed

lemma fl_idem: "fl (fl x) = fl x"
proof -
  have pos: "fl (fl x) = fl x" if xpos: "0 < x" for x
  proof -
    define e where "e = max \<lfloor>log 2 x\<rfloor> (- 1022) - 52"
    define M where "M = round_half_even (x / 2 powr of_int e)"
    have e: "- 1074 \<le> e" unfolding e_def by simp
    have M0: "0 \<le> M" unfolding M_def using xpos by (rule scaled_round_nonneg)
    have "M \<le> round_half_even (of_int (2 ^ 53))"
      unfolding M_def using scaled_below[OF xpos e_def] by (intro round_half_even_mono) simp
    then have M1: "M \<le> 2 ^ 53" unfolding round_half_even_int .
    have f: "fl x = of_int M * 2 powr of_int e" unfolding M_def by (rule fl_pos[OF xpos e_def])
    consider "M = 0" | "0 < M \<and> M < 2 ^ 53" | "M = 2 ^ 53" using M0 M1 by linarith
    then show ?thesis
    proof cases
      case 1
      then have "fl x = 0" unfolding f by simp
      then show ?thesis by (simp add: fl_zero)
    next
      case 2
      then show ?thesis unfolding f using e by (intro fl_repr) simp_all
    next
      case 3
      have "(2::real) powr of_int (e + 1) = 2 powr of_int e * 2" by (simp add: powr_add)
      then have "fl x = of_int (2 ^ 52) * 2 powr of_int (e + 1)"
        unfolding f 3 by simp
      moreover have "fl (of_int (2 ^ 52) * 2 powr of_int (e + 1)) =
                       of_int (2 ^ 52) * 2 powr of_int (e + 1)"
        using e by (intro fl_repr) simp_all
      ultimately show ?thesis by simp
    qed
  qed
  consider "0 < x" | "x = 0" | "x < 0" by linarith
  then show ?thesis
  proof cases
    case 1
    then show ?thesis by (rule pos)
  next
    case 2
    then show ?thesis by (simp add: fl_zero)
  next
    case 3
    then have "fl (fl (- x)) = fl (- x)" by (intro pos) simp
    then show ?thesis by (simp add: fl_neg)
  qed
qed

lemma fl_tiny:
  assumes "0 \<le> x" and "x \<le> 2 powr (- 1075)"
  shows "fl x = 0"
proof (cases "x = 0")
  case True
  then show ?thesis by (simp add: fl_zero)
next
  case False
  then have xpos: "0 < x" using assms(1) by simp
  define e where "e = max \<lfloor>log 2 x\<rfloor> (- 1022) - 52"
  have "log 2 x \<le> - 1075" using assms(2) xpos by (simp add: log_le_iff)
  then have "\<lfloor>log 2 x\<rfloor> \<le> - 1075" by (simp add: floor_le_iff)
  then have e: "e = - 1074" unfolding e_def by simp
  have "(2::real) powr (- 1074) = 2 powr (- 1075 + 1)" by simp
  also have "\<dots> = 2 powr (- 1075) * 2 powr 1" by (rule powr_add)
  finally have "(2::real) powr (- 1075) = 2 powr (- 1074) / 2" by simp
  then have "x \<le> 2 powr (- 1074) / 2" using assms(2) by simp
  then have y: "x / 2 powr (- 1074) \<le> 1 / 2" by (simp add: field_simps)
  have y0: "0 < x / 2 powr (- 1074)" using xpos by simp
  have f: "\<lfloor>x / 2 powr (- 1074)\<rfloor> = 0"
  proof (rule floor_unique)
    show "of_int 0 \<le> x / 2 powr (- 1074)" using y0 by simp
    show "x / 2 powr (- 1074) < of_int 0 + 1" using y by linarith
  qed
  have "round_half_even (x / 2 powr (- 1074)) = 0"
    using y by (simp add: round_half_even_def Let_def f)
  then show ?thesis unfolding fl_pos[OF xpos e_def] e by simp
qed

lemma fl_pos_least:
  assumes "0 < fl x"
  shows "2 powr (- 1074) \<le> fl x"
proof -
  have xpos: "0 < x"
  proof (rule ccontr)
    assume "\<not> 0 < x"
    then have "0 \<le> - x" by simp
    then have "0 \<le> fl (- x)" by (rule fl_nonneg)
    then show False using assms by (simp add: fl_neg)
  qed
  define e where "e = max \<lfloor>log 2 x\<rfloor> (- 1022) - 52"
  define M where "M = round_half_even (x / 2 powr of_int e)"
  have f: "fl x = of_int M * 2 powr of_int e" unfolding M_def by (rule fl_pos[OF xpos e_def])
  have "0 < of_int M * (2::real) powr of_int e" using assms unfolding f .
  then have "(0::real) < of_int M" by (simp add: zero_less_mult_iff)
  then have "1 \<le> M" by simp
  then have "(1::real) \<le> of_int M" by simp
  then have a: "1 * (2::real) powr of_int e \<le> of_int M * 2 powr of_int e"
    by (intro mult_right_mono) simp_all
  have "- 1074 \<le> e" unfolding e_def by simp
  then have "(2::real) powr (- 1074) \<le> 2 powr of_int e"
    by (intro powr_mono) simp_all
  with a show ?thesis unfolding f by linarith
qed

text \<open>
  The double nearest to a number \<open>x\<close>, found by scaling: when \<open>x \<cdot> 2\<^sup>p\<close> lies in
  \<open>[2\<^sup>5\<^sup>2, 2\<^sup>5\<^sup>3)\<close> within a half of the integer \<open>m\<close>, it is \<open>m / 2\<^sup>p\<close>.
\<close>

lemma fl_eval:
  fixes x r :: real and m :: int and p :: nat
  assumes "r = of_int m / 2 ^ p" and "2 ^ 52 \<le> x * 2 ^ p" and "x * 2 ^ p < 2 ^ 53"
    and "\<bar>x * 2 ^ p - of_int m\<bar> < 1 / 2" and "p \<le> 1074"
  shows "fl x = r"
proof -
  have xpos: "0 < x"
  proof -
    have "(0::real) < 2 ^ 52" by simp
    then have "0 < x * 2 ^ p" using assms(2) by linarith
    then show ?thesis by (simp add: zero_less_mult_iff)
  qed
  define e where "e = max \<lfloor>log 2 x\<rfloor> (- 1022) - 52"
  have p: "(2::real) powr of_int (- int p) = 1 / 2 ^ p"
    by (simp add: powr_minus_divide powr_realpow)
  have l: "\<lfloor>log 2 (x * 2 ^ p)\<rfloor> = 52"
  proof -
    have pos: "0 < x * 2 ^ p" using xpos by simp
    have a: "(2::real) powr 52 = 2 ^ 52" by (simp add: powr_numeral)
    have b: "(2::real) powr 53 = 2 ^ 53" by (simp add: powr_numeral)
    have lo: "52 \<le> log 2 (x * 2 ^ p)" using assms(2) pos a by (simp add: le_log_iff)
    have hi: "log 2 (x * 2 ^ p) < 53" using assms(3) pos b by (simp add: log_less_iff)
    show ?thesis using lo hi by (intro floor_unique) simp_all
  qed
  have "log 2 (x * 2 ^ p) = log 2 x + of_int (int p)"
    using xpos by (simp add: log_mult log_nat_power)
  then have "\<lfloor>log 2 x + of_int (int p)\<rfloor> = 52" using l by simp
  then have "\<lfloor>log 2 x\<rfloor> + int p = 52" by (simp only: floor_add_int)
  then have e: "e = - int p" unfolding e_def using assms(5) by simp
  have q: "x / 2 powr of_int (- int p) = x * 2 ^ p" unfolding p by simp
  have "round_half_even (x * 2 ^ p) = m" using assms(4) by (rule round_half_even_near)
  then show ?thesis unfolding fl_pos[OF xpos e_def] e q p assms(1) by simp
qed

lemma fl_eval_tie:
  fixes x r :: real and m :: int and p :: nat
  assumes "r = of_int m / 2 ^ p" and "2 ^ 52 \<le> x * 2 ^ p" and "x * 2 ^ p < 2 ^ 53"
    and "x * 2 ^ p = of_int m + 1 / 2 \<or> x * 2 ^ p = of_int m - 1 / 2" and "even m"
    and "p \<le> 1074"
  shows "fl x = r"
proof -
  have xpos: "0 < x"
  proof -
    have "(0::real) < 2 ^ 52" by simp
    then have "0 < x * 2 ^ p" using assms(2) by linarith
    then show ?thesis by (simp add: zero_less_mult_iff)
  qed
  define e where "e = max \<lfloor>log 2 x\<rfloor> (- 1022) - 52"
  have p: "(2::real) powr of_int (- int p) = 1 / 2 ^ p"
    by (simp add: powr_minus_divide powr_realpow)
  have l: "\<lfloor>log 2 (x * 2 ^ p)\<rfloor> = 52"
  proof -
    have pos: "0 < x * 2 ^ p" using xpos by simp
    have a: "(2::real) powr 52 = 2 ^ 52" by (simp add: powr_numeral)
    have b: "(2::real) powr 53 = 2 ^ 53" by (simp add: powr_numeral)
    have lo: "52 \<le> log 2 (x * 2 ^ p)" using assms(2) pos a by (simp add: le_log_iff)
    have hi: "log 2 (x * 2 ^ p) < 53" using assms(3) pos b by (simp add: log_less_iff)
    show ?thesis using lo hi by (intro floor_unique) simp_all
  qed
  have "log 2 (x * 2 ^ p) = log 2 x + of_int (int p)"
    using xpos by (simp add: log_mult log_nat_power)
  then have "\<lfloor>log 2 x + of_int (int p)\<rfloor> = 52" using l by simp
  then have "\<lfloor>log 2 x\<rfloor> + int p = 52" by (simp only: floor_add_int)
  then have e: "e = - int p" unfolding e_def using assms(6) by simp
  have q: "x / 2 powr of_int (- int p) = x * 2 ^ p" unfolding p by simp
  have "round_half_even (x * 2 ^ p) = m"
    using assms(4)
  proof
    assume "x * 2 ^ p = of_int m + 1 / 2"
    then show ?thesis using assms(5) by (rule round_half_even_tie_down)
  next
    assume "x * 2 ^ p = of_int m - 1 / 2"
    then show ?thesis using assms(5) by (rule round_half_even_tie_up)
  qed
  then show ?thesis unfolding fl_pos[OF xpos e_def] e q p assms(1) by simp
qed

lemma fl_of_nat:
  assumes "n < 2 ^ 53"
  shows "fl (real n) = real n"
proof (cases "n = 0")
  case True
  then show ?thesis by (simp add: fl_zero)
next
  case False
  have "int n < 2 ^ 53" using assms by (metis of_nat_less_iff of_nat_numeral of_nat_power)
  then have "fl (of_int (int n) * 2 powr of_int 0) = of_int (int n) * 2 powr of_int 0"
    using False by (intro fl_repr) simp_all
  then show ?thesis by simp
qed

lemma fl_numeral:
  assumes "(numeral k :: nat) < 2 ^ 53"
  shows "fl (numeral k) = numeral k"
  using fl_of_nat[OF assms] by simp

lemma floor_log2_53:
  assumes "2 ^ 52 \<le> y" and "y < 2 ^ 53"
  shows "\<lfloor>log 2 y\<rfloor> = 52"
proof -
  have pos: "0 < y" using assms(1) by (smt (verit) zero_less_power)
  have a: "(2::real) powr 52 = 2 ^ 52" by (simp add: powr_numeral)
  have b: "(2::real) powr 53 = 2 ^ 53" by (simp add: powr_numeral)
  have lo: "52 \<le> log 2 y" using assms(1) pos a by (simp add: le_log_iff)
  have hi: "log 2 y < 53" using assms(2) pos b by (simp add: log_less_iff)
  show ?thesis using lo hi by (intro floor_unique) simp_all
qed

lemma fl_scaled:
  assumes "2 ^ 52 \<le> y" and "y < 2 ^ 53" and "- 1074 \<le> k"
  shows "fl (y * 2 powr of_int k) = of_int (round_half_even y) * 2 powr of_int k"
proof -
  have pos: "0 < y" using assms(1) by (smt (verit) zero_less_power)
  let ?x = "y * 2 powr of_int k"
  have xpos: "0 < ?x" using pos by simp
  have "log 2 ?x = log 2 y + of_int k"
    using pos by (simp add: log_mult)
  then have "\<lfloor>log 2 \<bar>?x\<bar>\<rfloor> = 52 + k"
    using xpos floor_log2_53[OF assms(1,2)] by simp
  then have e: "max \<lfloor>log 2 \<bar>?x\<bar>\<rfloor> (- 1022) - 52 = k" using assms(3) by simp
  have q: "\<bar>?x\<bar> / 2 powr of_int k = y" using xpos by simp
  show ?thesis
    unfolding fl_def Let_def e q using xpos pos by simp
qed

lemma fl_exact:
  assumes "2 ^ 52 \<le> m" and "m < 2 ^ 53" and "- 1074 \<le> k"
  shows "fl (of_int m * 2 powr of_int k) = of_int m * 2 powr of_int k"
proof -
  have a: "(2::real) ^ 52 \<le> of_int m" using assms(1) by (metis of_int_le_iff of_int_numeral of_int_power)
  have b: "of_int m < (2::real) ^ 53" using assms(2) by (metis of_int_less_iff of_int_numeral of_int_power)
  show ?thesis using fl_scaled[OF a b assms(3)] by (simp add: round_half_even_int)
qed

lemma powr_neg52: "(2::real) powr of_int (- 52) = 1 / 2 ^ 52"
  by (simp add: powr_minus_divide powr_numeral)

lemma fl_one: "fl 1 = 1"
proof -
  have "fl (of_int (2 ^ 52) * 2 powr of_int (- 52)) = of_int (2 ^ 52) * 2 powr of_int (- 52)"
    by (rule fl_exact) simp_all
  then show ?thesis by (simp add: powr_minus_divide powr_numeral)
qed

lemma fl_exact_val:
  assumes "x = of_int m * 2 powr of_int k" and "2 ^ 52 \<le> m" and "m < 2 ^ 53" and "- 1074 \<le> k"
  shows "fl x = x"
  unfolding assms(1) by (rule fl_exact[OF assms(2-4)])

lemma fl_quarter: "fl (1 / 4) = 1 / 4"
  by (rule fl_exact_val[of _ "2 ^ 52" "- 54"]) (simp_all add: powr_minus_divide powr_numeral)

lemma fl_eps: "fl (1 / 2 ^ 53) = 1 / 2 ^ 53"
  by (rule fl_exact_val[of _ "2 ^ 52" "- 105"]) (simp_all add: powr_minus_divide powr_numeral)

lemma fl_two_eps: "fl (1 / 2 ^ 53 + 1 / 2 ^ 53) = 1 / 2 ^ 52"
proof -
  have "fl (1 / 2 ^ 52) = 1 / 2 ^ 52"
    by (rule fl_exact_val[of _ "2 ^ 52" "- 104"]) (simp_all add: powr_minus_divide powr_numeral)
  moreover have "(1::real) / 2 ^ 53 + 1 / 2 ^ 53 = 1 / 2 ^ 52" by simp
  ultimately show ?thesis by simp
qed

lemma fl_one_ulp_id: "fl (1 + 1 / 2 ^ 52) = 1 + 1 / 2 ^ 52"
  by (rule fl_exact_val[of _ "2 ^ 52 + 1" "- 52"]) (simp_all add: powr_minus_divide powr_numeral)

lemma fl_one_ulp: "fl (1 / 2 ^ 52 + 1) = 1 + 1 / 2 ^ 52"
  using fl_one_ulp_id by (simp add: add.commute)

lemma fl_one_ulp_quarter: "fl ((1 + 1 / 2 ^ 52) / 4) = 1 / 4 + 1 / 2 ^ 54"
proof -
  have "fl (1 / 4 + 1 / 2 ^ 54) = 1 / 4 + 1 / 2 ^ 54"
    by (rule fl_exact_val[of _ "2 ^ 52 + 1" "- 54"]) (simp_all add: powr_minus_divide powr_numeral)
  moreover have "((1::real) + 1 / 2 ^ 52) / 4 = 1 / 4 + 1 / 2 ^ 54" by simp
  ultimately show ?thesis by simp
qed

lemma fl_one_half_ulp: "fl (1 + 1 / 2 ^ 53) = 1"
proof -
  have r: "round_half_even (2 ^ 52 + 1 / 2) = 2 ^ 52"
    by (simp add: round_half_even_def Let_def)
  have "fl ((2 ^ 52 + 1 / 2) * 2 powr of_int (- 52)) =
          of_int (round_half_even (2 ^ 52 + 1 / 2)) * 2 powr of_int (- 52)"
    by (rule fl_scaled) simp_all
  then have s: "fl ((2 ^ 52 + 1 / 2) * 2 powr of_int (- 52)) = of_int (2 ^ 52) * 2 powr of_int (- 52)"
    unfolding r .
  have x: "((2::real) ^ 52 + 1 / 2) * 2 powr of_int (- 52) = 1 + 1 / 2 ^ 53"
    by (simp add: powr_minus_divide powr_numeral)
  have y: "of_int (2 ^ 52) * 2 powr of_int (- 52) = (1::real)"
    by (simp add: powr_minus_divide powr_numeral)
  show ?thesis using s unfolding x y .
qed

section \<open>The meaningful-drawing gate\<close>

lemma foldl_count_filter:
  "foldl (\<lambda>c x. c + (if P x then 1 else 0)) a v = (a::nat) + length (filter P v)"
  by (induction v arbitrary: a) simp_all

lemma vec_stats: "vec (getDrawingStats st) = vectorizeCanvas (canvasData st)"
  by (simp add: getDrawingStats_def Let_def)

lemma totalInk_sum: "totalInk (getDrawingStats st) = double_sum (vectorizeCanvas (canvasData st))"
  by (simp add: getDrawingStats_def Let_def double_sum_def)

lemma activePixels_literal:
  "activePixels (getDrawingStats st) =
     length (filter (\<lambda>v. v > fl 0.18) (vectorizeCanvas (canvasData st)))"
  by (simp add: getDrawingStats_def Let_def foldl_count_filter)

lemma drawn_count:
  "drawnStrokeCount (getDrawingStats st) = length (filter (\<lambda>s. length s \<ge> 2) (strokesRef st))"
proof -
  have "(\<lambda>s::stroke. length s > 1) = (\<lambda>s. length s \<ge> 2)" by auto
  then show ?thesis by (simp add: getDrawingStats_def Let_def)
qed

lemma meaningful_iff:
  "hasMeaningfulDrawing (getDrawingStats st) \<longleftrightarrow>
     totalInk (getDrawingStats st) > 5 \<and> activePixels (getDrawingStats st) > 8 \<and>
     drawnStrokeCount (getDrawingStats st) > 0"
  by (simp add: getDrawingStats_def Let_def)

text \<open>
  The literal \<^verbatim>\<open>0.18\<close> is a double just below \<open>0.18\<close>. Every cell is a double, and no
  double lies between the two, so a cell is above the one exactly when it is above the
  other.
\<close>

lemma fl_018: "fl 0.18 = 3242591731706757 / 2 ^ 54"
  by (rule fl_eval[where m = 6485183463413514 and p = 55]) simp_all

lemma cells_rounded: "v \<in> set (vectorizeCanvas d) \<Longrightarrow> fl v = v"
  by (induction d arbitrary: v rule: vectorizeCanvas.induct) (auto simp: Let_def fl_idem)

lemma cell_threshold:
  assumes "v \<in> set (vectorizeCanvas d)"
  shows "(v > fl 0.18) = (v > 0.18)"
proof
  assume a: "v > fl 0.18"
  show "v > 0.18"
  proof (rule ccontr)
    assume "\<not> v > 0.18"
    then have "v \<le> 0.18" by simp
    then have "fl v \<le> fl 0.18" by (rule fl_mono)
    then show False using a cells_rounded[OF assms] by simp
  qed
next
  assume "v > 0.18"
  then show "v > fl 0.18" unfolding fl_018 by simp
qed

lemma activePixels_count:
  "activePixels (getDrawingStats st) =
     length (filter (\<lambda>v. v > 0.18) (vectorizeCanvas (canvasData st)))"
proof -
  have "filter (\<lambda>v. v > fl 0.18) (vectorizeCanvas (canvasData st)) =
        filter (\<lambda>v. v > 0.18) (vectorizeCanvas (canvasData st))"
    by (rule filter_cong[OF refl]) (rule cell_threshold)
  then show ?thesis by (simp add: activePixels_literal)
qed

lemma double_sum_zeros:
  "fl s = s \<Longrightarrow> foldl (\<lambda>sum value. fl (sum + value)) s (replicate n 0) = s"
  by (induction n) simp_all

lemma double_sum_all_zero: "\<forall>v \<in> set xs. v = 0 \<Longrightarrow> double_sum xs = 0"
proof -
  assume "\<forall>v \<in> set xs. v = 0"
  then have "xs = replicate (length xs) 0" by (simp add: replicate_length_same)
  then have "double_sum xs = foldl (\<lambda>sum value. fl (sum + value)) 0 (replicate (length xs) 0)"
    unfolding double_sum_def by simp
  then show ?thesis by (simp add: double_sum_zeros fl_zero)
qed

lemma double_sum_ones:
  "k + n < 2 ^ 53 \<Longrightarrow>
   foldl (\<lambda>sum value. fl (sum + value)) (real k) (replicate n 1) = real (k + n)"
proof (induction n arbitrary: k)
  case 0
  show ?case by simp
next
  case (Suc n)
  have "Suc k < 2 ^ 53" using Suc.prems by simp
  then have "fl (real (Suc k)) = real (Suc k)" by (rule fl_of_nat)
  then have s: "fl (real k + 1) = real (Suc k)" by (simp add: add.commute)
  have "Suc k + n < 2 ^ 53" using Suc.prems by simp
  then have "foldl (\<lambda>sum value. fl (sum + value)) (real (Suc k)) (replicate n 1) = real (Suc k + n)"
    by (rule Suc.IH)
  then show ?case by (simp add: s)
qed

lemma vectorize_replicate:
  "vectorizeCanvas (concat (replicate n [r, g, b, a]) @ rest) =
     replicate n (fl (1 - fl (fl ((real (unat r) + real (unat g) + real (unat b)) / 3) / 255))) @
     vectorizeCanvas rest"
  by (induction n) (simp_all add: Let_def)

lemma vectorize_replicate_end:
  "vectorizeCanvas (concat (replicate n [r, g, b, a])) =
     replicate n (fl (1 - fl (fl ((real (unat r) + real (unat g) + real (unat b)) / 3) / 255)))"
  using vectorize_replicate[of n r g b a "[]"] by simp

text \<open>The ink of a white, a black and three grey cells.\<close>

lemma cell_white:
  "fl (1 - fl (fl ((real (unat (255::8 word)) + real (unat (255::8 word)) +
      real (unat (255::8 word))) / 3) / 255)) = 0"
  by (simp add: fl_numeral fl_one fl_zero)

lemma cell_black:
  "fl (1 - fl (fl ((real (unat (0::8 word)) + real (unat (0::8 word)) +
      real (unat (0::8 word))) / 3) / 255)) = 1"
  by (simp add: fl_one fl_zero)

lemma gray_85:
  "fl ((real (unat (85::8 word)) + real (unat (85::8 word)) + real (unat (85::8 word))) / 3) = 85"
  by (simp add: fl_numeral)

lemma quotient_85: "fl (85 / 255) = 6004799503160661 / 2 ^ 54"
  by (rule fl_eval[where m = 6004799503160661 and p = 54]) simp_all

lemma ink_85: "fl (1 - 6004799503160661 / 2 ^ 54) = 3002399751580331 / 2 ^ 52"
  by (rule fl_eval_tie[where m = 6004799503160662 and p = 53]) simp_all

lemma cell_85:
  "fl (1 - fl (fl ((real (unat (85::8 word)) + real (unat (85::8 word)) +
      real (unat (85::8 word))) / 3) / 255)) = 3002399751580331 / 2 ^ 52"
  unfolding gray_85 quotient_85 ink_85 by (rule refl)

lemma gray_170:
  "fl ((real (unat (170::8 word)) + real (unat (170::8 word)) + real (unat (170::8 word))) / 3) = 170"
  by (simp add: fl_numeral)

lemma quotient_170: "fl (170 / 255) = 6004799503160661 / 2 ^ 53"
  by (rule fl_eval[where m = 6004799503160661 and p = 53]) simp_all

lemma ink_170: "fl (1 - 6004799503160661 / 2 ^ 53) = 3002399751580331 / 2 ^ 53"
  by (rule fl_eval[where m = 6004799503160662 and p = 54]) simp_all

lemma cell_170:
  "fl (1 - fl (fl ((real (unat (170::8 word)) + real (unat (170::8 word)) +
      real (unat (170::8 word))) / 3) / 255)) = 3002399751580331 / 2 ^ 53"
  unfolding gray_170 quotient_170 ink_170 by (rule refl)

lemma gray_204:
  "fl ((real (unat (204::8 word)) + real (unat (204::8 word)) + real (unat (204::8 word))) / 3) = 204"
  by (simp add: fl_numeral)

lemma quotient_204: "fl (204 / 255) = 3602879701896397 / 2 ^ 52"
  by (rule fl_eval[where m = 7205759403792794 and p = 53]) simp_all

lemma ink_204: "fl (1 - 3602879701896397 / 2 ^ 52) = 900719925474099 / 2 ^ 52"
  by (rule fl_eval[where m = 7205759403792792 and p = 55]) simp_all

lemma cell_204:
  "fl (1 - fl (fl ((real (unat (204::8 word)) + real (unat (204::8 word)) +
      real (unat (204::8 word))) / 3) / 255)) = 900719925474099 / 2 ^ 52"
  unfolding gray_204 quotient_204 ink_204 by (rule refl)

lemma vec_blank: "vectorizeCanvas blank_canvas = replicate 256 0"
  unfolding blank_canvas_def vectorize_replicate_end cell_white by (rule refl)

lemma vec_black: "vectorizeCanvas black_canvas = replicate 256 1"
  unfolding black_canvas_def vectorize_replicate_end cell_black by (rule refl)

lemma vec_grey:
  "vectorizeCanvas grey_canvas =
     replicate 3 1 @ replicate 3 (3002399751580331 / 2 ^ 52) @ replicate 3 (3002399751580331 / 2 ^ 53) @ replicate 247 0"
  unfolding grey_canvas_def vectorize_replicate vectorize_replicate_end
    cell_white cell_black cell_85 cell_170 by (rule refl)

lemma vec_faint:
  "vectorizeCanvas faint_canvas = replicate 25 (900719925474099 / 2 ^ 52) @ replicate 231 0"
  unfolding faint_canvas_def vectorize_replicate vectorize_replicate_end
    cell_white cell_204 by (rule refl)

text \<open>The running sums of the nine grey cells, and of the twenty-five faint ones.\<close>

lemma replicate_3: "replicate 3 x = [x, x, x]"
  by (simp add: numeral_eq_Suc)

lemma replicate_25:
  "replicate 25 x = [x, x, x, x, x, x, x, x, x, x, x, x, x, x, x, x, x, x, x, x, x, x, x, x, x]"
  by (simp add: numeral_eq_Suc)

lemma grey_sum_1: "fl (0 + 1) = 1"
  by (rule fl_eval[where m = 4503599627370496 and p = 52]) simp_all

lemma grey_sum_2: "fl (1 + 1) = 2"
  by (rule fl_eval[where m = 4503599627370496 and p = 51]) simp_all

lemma grey_sum_3: "fl (2 + 1) = 3"
  by (rule fl_eval[where m = 6755399441055744 and p = 51]) simp_all

lemma grey_sum_4: "fl (3 + (3002399751580331 / 2 ^ 52)) = 4128299658422955 / 2 ^ 50"
  by (rule fl_eval_tie[where m = 8256599316845910 and p = 51]) simp_all

lemma grey_sum_5: "fl ((4128299658422955 / 2 ^ 50) + (3002399751580331 / 2 ^ 52)) = 2439449798159019 / 2 ^ 49"
  by (rule fl_eval[where m = 4878899596318038 and p = 50]) simp_all

lemma grey_sum_6: "fl ((2439449798159019 / 2 ^ 49) + (3002399751580331 / 2 ^ 52)) = 5629499534213121 / 2 ^ 50"
  by (rule fl_eval[where m = 5629499534213121 and p = 50]) simp_all

lemma grey_sum_7: "fl ((5629499534213121 / 2 ^ 50) + (3002399751580331 / 2 ^ 53)) = 3002399751580331 / 2 ^ 49"
  by (rule fl_eval[where m = 6004799503160662 and p = 50]) simp_all

lemma grey_sum_8: "fl ((3002399751580331 / 2 ^ 49) + (3002399751580331 / 2 ^ 53)) = 6380099472108203 / 2 ^ 50"
  by (rule fl_eval[where m = 6380099472108203 and p = 50]) simp_all

lemma grey_sum_9: "fl ((6380099472108203 / 2 ^ 50) + (3002399751580331 / 2 ^ 53)) = 6"
  by (rule fl_eval[where m = 6755399441055744 and p = 50]) simp_all

lemma faint_sum_1: "fl (0 + (900719925474099 / 2 ^ 52)) = 900719925474099 / 2 ^ 52"
  by (rule fl_eval[where m = 7205759403792792 and p = 55]) simp_all

lemma faint_sum_2: "fl ((900719925474099 / 2 ^ 52) + (900719925474099 / 2 ^ 52)) = 900719925474099 / 2 ^ 51"
  by (rule fl_eval[where m = 7205759403792792 and p = 54]) simp_all

lemma faint_sum_3: "fl ((900719925474099 / 2 ^ 51) + (900719925474099 / 2 ^ 52)) = 2702159776422297 / 2 ^ 52"
  by (rule fl_eval[where m = 5404319552844594 and p = 53]) simp_all

lemma faint_sum_4: "fl ((2702159776422297 / 2 ^ 52) + (900719925474099 / 2 ^ 52)) = 900719925474099 / 2 ^ 50"
  by (rule fl_eval[where m = 7205759403792792 and p = 53]) simp_all

lemma faint_sum_5: "fl ((900719925474099 / 2 ^ 50) + (900719925474099 / 2 ^ 52)) = 4503599627370495 / 2 ^ 52"
  by (rule fl_eval[where m = 9007199254740990 and p = 53]) simp_all

lemma faint_sum_6: "fl ((4503599627370495 / 2 ^ 52) + (900719925474099 / 2 ^ 52)) = 2702159776422297 / 2 ^ 51"
  by (rule fl_eval[where m = 5404319552844594 and p = 52]) simp_all

lemma faint_sum_7: "fl ((2702159776422297 / 2 ^ 51) + (900719925474099 / 2 ^ 52)) = 6305039478318693 / 2 ^ 52"
  by (rule fl_eval[where m = 6305039478318693 and p = 52]) simp_all

lemma faint_sum_8: "fl ((6305039478318693 / 2 ^ 52) + (900719925474099 / 2 ^ 52)) = 900719925474099 / 2 ^ 49"
  by (rule fl_eval[where m = 7205759403792792 and p = 52]) simp_all

lemma faint_sum_9: "fl ((900719925474099 / 2 ^ 49) + (900719925474099 / 2 ^ 52)) = 8106479329266891 / 2 ^ 52"
  by (rule fl_eval[where m = 8106479329266891 and p = 52]) simp_all

lemma faint_sum_10: "fl ((8106479329266891 / 2 ^ 52) + (900719925474099 / 2 ^ 52)) = 4503599627370495 / 2 ^ 51"
  by (rule fl_eval[where m = 9007199254740990 and p = 52]) simp_all

lemma faint_sum_11: "fl ((4503599627370495 / 2 ^ 51) + (900719925474099 / 2 ^ 52)) = 619244948763443 / 2 ^ 48"
  by (rule fl_eval_tie[where m = 4953959590107544 and p = 51]) simp_all

lemma faint_sum_12: "fl ((619244948763443 / 2 ^ 48) + (900719925474099 / 2 ^ 52)) = 2702159776422297 / 2 ^ 50"
  by (rule fl_eval_tie[where m = 5404319552844594 and p = 51]) simp_all

lemma faint_sum_13: "fl ((2702159776422297 / 2 ^ 50) + (900719925474099 / 2 ^ 52)) = 1463669878895411 / 2 ^ 49"
  by (rule fl_eval_tie[where m = 5854679515581644 and p = 51]) simp_all

lemma faint_sum_14: "fl ((1463669878895411 / 2 ^ 49) + (900719925474099 / 2 ^ 52)) = 3152519739159347 / 2 ^ 50"
  by (rule fl_eval_tie[where m = 6305039478318694 and p = 51]) simp_all

lemma faint_sum_15: "fl ((3152519739159347 / 2 ^ 50) + (900719925474099 / 2 ^ 52)) = 3"
  by (rule fl_eval_tie[where m = 6755399441055744 and p = 51]) simp_all

lemma faint_sum_16: "fl (3 + (900719925474099 / 2 ^ 52)) = 3602879701896397 / 2 ^ 50"
  by (rule fl_eval_tie[where m = 7205759403792794 and p = 51]) simp_all

lemma faint_sum_17: "fl ((3602879701896397 / 2 ^ 50) + (900719925474099 / 2 ^ 52)) = 1914029841632461 / 2 ^ 49"
  by (rule fl_eval_tie[where m = 7656119366529844 and p = 51]) simp_all

lemma faint_sum_18: "fl ((1914029841632461 / 2 ^ 49) + (900719925474099 / 2 ^ 52)) = 4053239664633447 / 2 ^ 50"
  by (rule fl_eval_tie[where m = 8106479329266894 and p = 51]) simp_all

lemma faint_sum_19: "fl ((4053239664633447 / 2 ^ 50) + (900719925474099 / 2 ^ 52)) = 1069604911500493 / 2 ^ 48"
  by (rule fl_eval_tie[where m = 8556839292003944 and p = 51]) simp_all

lemma faint_sum_20: "fl ((1069604911500493 / 2 ^ 48) + (900719925474099 / 2 ^ 52)) = 4503599627370497 / 2 ^ 50"
  by (rule fl_eval[where m = 4503599627370497 and p = 50]) simp_all

lemma faint_sum_21: "fl ((4503599627370497 / 2 ^ 50) + (900719925474099 / 2 ^ 52)) = 2364389804369511 / 2 ^ 49"
  by (rule fl_eval[where m = 4728779608739022 and p = 50]) simp_all

lemma faint_sum_22: "fl ((2364389804369511 / 2 ^ 49) + (900719925474099 / 2 ^ 52)) = 4953959590107547 / 2 ^ 50"
  by (rule fl_eval[where m = 4953959590107547 and p = 50]) simp_all

lemma faint_sum_23: "fl ((4953959590107547 / 2 ^ 50) + (900719925474099 / 2 ^ 52)) = 647392446434509 / 2 ^ 47"
  by (rule fl_eval[where m = 5179139571476072 and p = 50]) simp_all

lemma faint_sum_24: "fl ((647392446434509 / 2 ^ 47) + (900719925474099 / 2 ^ 52)) = 5404319552844597 / 2 ^ 50"
  by (rule fl_eval[where m = 5404319552844597 and p = 50]) simp_all

lemma faint_sum_25: "fl ((5404319552844597 / 2 ^ 50) + (900719925474099 / 2 ^ 52)) = 2814749767106561 / 2 ^ 49"
  by (rule fl_eval[where m = 5629499534213122 and p = 50]) simp_all

lemma double_sum_grey:
  "double_sum (replicate 3 1 @ replicate 3 (3002399751580331 / 2 ^ 52) @ replicate 3 (3002399751580331 / 2 ^ 53) @ replicate 247 0) = 6"
proof -
  have "fl 6 = 6" by (simp add: fl_numeral)
  then have z: "foldl (\<lambda>sum value. fl (sum + value)) 6 (replicate 247 0) = 6"
    by (rule double_sum_zeros)
  show ?thesis
    unfolding double_sum_def replicate_3 foldl_append foldl.simps
      grey_sum_1 grey_sum_2 grey_sum_3 grey_sum_4 grey_sum_5 grey_sum_6 grey_sum_7 grey_sum_8 grey_sum_9 z
    by (rule refl)
qed

lemma double_sum_faint:
  "double_sum (replicate 25 (900719925474099 / 2 ^ 52) @ replicate 231 0) = 2814749767106561 / 2 ^ 49"
proof -
  have "fl (fl ((5404319552844597 / 2 ^ 50) + (900719925474099 / 2 ^ 52))) = fl ((5404319552844597 / 2 ^ 50) + (900719925474099 / 2 ^ 52))"
    by (rule fl_idem)
  then have "fl (2814749767106561 / 2 ^ 49) = 2814749767106561 / 2 ^ 49" unfolding faint_sum_25 .
  then have z: "foldl (\<lambda>sum value. fl (sum + value)) (2814749767106561 / 2 ^ 49) (replicate 231 0) = 2814749767106561 / 2 ^ 49"
    by (rule double_sum_zeros)
  show ?thesis
    unfolding double_sum_def replicate_25 foldl_append foldl.simps
      faint_sum_1 faint_sum_2 faint_sum_3 faint_sum_4 faint_sum_5 faint_sum_6 faint_sum_7 faint_sum_8 faint_sum_9 faint_sum_10 faint_sum_11 faint_sum_12 faint_sum_13 faint_sum_14 faint_sum_15 faint_sum_16 faint_sum_17 faint_sum_18 faint_sum_19 faint_sum_20 faint_sum_21 faint_sum_22 faint_sum_23 faint_sum_24 faint_sum_25 z
    by (rule refl)
qed

lemma blank_not_meaningful: "\<not> hasMeaningfulDrawing (getDrawingStats initial_app)"
proof -
  have "double_sum (vectorizeCanvas (canvasData initial_app)) = 0"
    by (rule double_sum_all_zero) (simp add: initial_app_def vec_blank)
  then show ?thesis by (simp add: meaningful_iff totalInk_sum)
qed

lemma drawn_meaningful: "hasMeaningfulDrawing (getDrawingStats drawn_app)"
proof -
  have "foldl (\<lambda>sum value. fl (sum + value)) (real 0) (replicate 256 1) = real (0 + 256)"
    by (rule double_sum_ones) simp
  then have "double_sum (replicate 256 1) = 256" by (simp add: double_sum_def)
  then show ?thesis
    by (simp add: meaningful_iff totalInk_sum activePixels_count drawn_count drawn_app_def
        initial_app_def vec_black example_stroke_def)
qed

lemma grey_stats:
  "totalInk (getDrawingStats grey_app) = 6 \<and> activePixels (getDrawingStats grey_app) = 9"
proof -
  have c: "canvasData grey_app = grey_canvas" by (simp add: grey_app_def initial_app_def)
  have "totalInk (getDrawingStats grey_app) = 6"
    unfolding totalInk_sum c vec_grey by (rule double_sum_grey)
  moreover have "activePixels (getDrawingStats grey_app) = 9"
    by (simp add: activePixels_count grey_app_def initial_app_def vec_grey)
  ultimately show ?thesis by simp
qed

lemma faint_stats:
  "totalInk (getDrawingStats faint_app) = 2814749767106561 / 2 ^ 49"
  "activePixels (getDrawingStats faint_app) = 25"
  "drawnStrokeCount (getDrawingStats faint_app) = 1"
  "sum_list (vec (getDrawingStats faint_app)) = 25 * (900719925474099 / 2 ^ 52)"
proof -
  have c: "canvasData faint_app = faint_canvas" by (simp add: faint_app_def initial_app_def)
  show "totalInk (getDrawingStats faint_app) = 2814749767106561 / 2 ^ 49"
    unfolding totalInk_sum c vec_faint by (rule double_sum_faint)
  show "activePixels (getDrawingStats faint_app) = 25"
    by (simp add: activePixels_count faint_app_def initial_app_def vec_faint)
  show "drawnStrokeCount (getDrawingStats faint_app) = 1"
    by (simp add: drawn_count faint_app_def initial_app_def example_stroke_def)
  show "sum_list (vec (getDrawingStats faint_app)) = 25 * (900719925474099 / 2 ^ 52)"
    by (simp add: vec_stats faint_app_def initial_app_def vec_faint sum_list_replicate)
qed

lemma stats_trained: "getDrawingStats (trained_app n) = getDrawingStats drawn_app"
  by (simp add: getDrawingStats_def trained_app_def)

lemma trained_meaningful: "hasMeaningfulDrawing (getDrawingStats (trained_app n))"
  by (simp add: stats_trained drawn_meaningful)

text \<open>
  Claim C3, as amended. For every state of the drawing \<^verbatim>\<open>hasMeaningfulDrawing\<close> holds
  exactly when \<^verbatim>\<open>totalInk\<close> is above 5, more than 8 cells are above 0.18 and at least one
  stroke has two points or more, where \<^verbatim>\<open>totalInk\<close> is the sum of the grid as the program
  accumulates it: from left to right, every addition rounded to a double. A grid of zeros
  with no stroke (\<open>blank\<close>) is not meaningful; a drawing with \<open>totalInk = 6\<close>,
  \<open>activePixels = 9\<close> and one stroke of three points (\<open>drawn\<close>) is.
\<close>

theorem meaningful_gate:
  assumes "\<forall>v \<in> set (vec (getDrawingStats blank)). v = 0" and "strokesRef blank = []"
    and "totalInk (getDrawingStats drawn) = 6" and "activePixels (getDrawingStats drawn) = 9"
    and "strokesRef drawn = [s]" and "length s = 3"
  shows "(hasMeaningfulDrawing (getDrawingStats st) \<longleftrightarrow>
           double_sum (vec (getDrawingStats st)) > 5 \<and>
           length (filter (\<lambda>v. v > 0.18) (vec (getDrawingStats st))) > 8 \<and>
           length (filter (\<lambda>s. length s \<ge> 2) (strokesRef st)) > 0)
       \<and> totalInk (getDrawingStats st) = double_sum (vec (getDrawingStats st))
       \<and> activePixels (getDrawingStats st) =
           length (filter (\<lambda>v. v > 0.18) (vec (getDrawingStats st)))
       \<and> \<not> hasMeaningfulDrawing (getDrawingStats blank)
       \<and> hasMeaningfulDrawing (getDrawingStats drawn)"
proof -
  have a: "hasMeaningfulDrawing (getDrawingStats st) \<longleftrightarrow>
           double_sum (vec (getDrawingStats st)) > 5 \<and>
           length (filter (\<lambda>v. v > 0.18) (vec (getDrawingStats st))) > 8 \<and>
           length (filter (\<lambda>s. length s \<ge> 2) (strokesRef st)) > 0"
    by (simp add: meaningful_iff totalInk_sum activePixels_count drawn_count vec_stats)
  have t: "totalInk (getDrawingStats st) = double_sum (vec (getDrawingStats st))"
    by (simp add: totalInk_sum vec_stats)
  have p: "activePixels (getDrawingStats st) =
           length (filter (\<lambda>v. v > 0.18) (vec (getDrawingStats st)))"
    by (simp add: activePixels_count vec_stats)
  have "double_sum (vec (getDrawingStats blank)) = 0"
    using assms(1) by (rule double_sum_all_zero)
  then have b: "\<not> hasMeaningfulDrawing (getDrawingStats blank)"
    by (simp add: meaningful_iff totalInk_sum vec_stats)
  have c: "hasMeaningfulDrawing (getDrawingStats drawn)"
    using assms(3-6) by (simp add: meaningful_iff drawn_count)
  from a t p b c show ?thesis by blast
qed

theorem meaningful_gate_witness:
  "vec (getDrawingStats initial_app) = replicate 256 0 \<and> strokesRef initial_app = []
   \<and> totalInk (getDrawingStats grey_app) = 6 \<and> activePixels (getDrawingStats grey_app) = 9
   \<and> strokesRef grey_app = [example_stroke] \<and> length example_stroke = 3
   \<and> \<not> hasMeaningfulDrawing (getDrawingStats initial_app)
   \<and> hasMeaningfulDrawing (getDrawingStats grey_app)
   \<and> double_sum (vec (getDrawingStats faint_app)) = 5 + 1 / 2 ^ 49
   \<and> hasMeaningfulDrawing (getDrawingStats faint_app)"
proof -
  have 1: "\<forall>v \<in> set (vec (getDrawingStats initial_app)). v = 0"
    by (simp add: vec_stats initial_app_def vec_blank)
  have 2: "strokesRef initial_app = []" by (simp add: initial_app_def)
  have 3: "strokesRef grey_app = [example_stroke]" by (simp add: grey_app_def initial_app_def)
  have 4: "length example_stroke = 3" by (simp add: example_stroke_def)
  have 5: "vec (getDrawingStats initial_app) = replicate 256 0"
    by (simp add: vec_stats initial_app_def vec_blank)
  note g = meaningful_gate[OF 1 2 conjunct1[OF grey_stats] conjunct2[OF grey_stats] 3 4,
      of faint_app]
  have t: "double_sum (vec (getDrawingStats faint_app)) = 5 + 1 / 2 ^ 49"
    using g faint_stats(1) by simp
  have p: "length (filter (\<lambda>v. v > 0.18) (vec (getDrawingStats faint_app))) = 25"
    using g faint_stats(2) by simp
  have d: "length (filter (\<lambda>s. length s \<ge> 2) (strokesRef faint_app)) = 1"
    using faint_stats(3) by (simp add: drawn_count)
  have f: "hasMeaningfulDrawing (getDrawingStats faint_app)"
    using g unfolding t p d by simp
  from g 2 3 4 5 grey_stats t f show ?thesis by blast
qed

text \<open>
  Claim C3 as stated fails on twenty-five cells of the grey \<open>204\<close> with one stroke: the
  ink of a cell is the double below \<open>1/5\<close>, the sum of the grid is below 5, and the
  program accepts the drawing, because its rounded running sum is
  \<open>5 + 2\<^sup>-\<^sup>4\<^sup>9\<close>.
\<close>

theorem meaningful_rounding_counterexample:
  "hasMeaningfulDrawing (getDrawingStats faint_app)
   \<and> sum_list (vec (getDrawingStats faint_app)) < 5
   \<and> length (filter (\<lambda>v. v > 0.18) (vec (getDrawingStats faint_app))) = 25
   \<and> length (filter (\<lambda>s. length s \<ge> 2) (strokesRef faint_app)) = 1
   \<and> totalInk (getDrawingStats faint_app) = 5 + 1 / 2 ^ 49"
proof -
  have t: "totalInk (getDrawingStats faint_app) = 5 + 1 / 2 ^ 49"
    using faint_stats(1) by simp
  have p: "length (filter (\<lambda>v. v > 0.18) (vec (getDrawingStats faint_app))) = 25"
    using faint_stats(2) by (simp add: activePixels_count vec_stats)
  have d: "length (filter (\<lambda>s. length s \<ge> 2) (strokesRef faint_app)) = 1"
    using faint_stats(3) by (simp add: drawn_count)
  have m: "hasMeaningfulDrawing (getDrawingStats faint_app)"
    unfolding meaningful_iff faint_stats(2,3) t by simp
  have s: "sum_list (vec (getDrawingStats faint_app)) < 5"
    unfolding faint_stats(4) by simp
  from m s p d t show ?thesis by blast
qed

section \<open>What \<^verbatim>\<open>guessDrawing\<close> writes\<close>

lemma guess_not_meaningful:
  assumes "\<not> hasMeaningfulDrawing (getDrawingStats st)"
  shows "guessDrawing st =
     st\<lparr> statusMessage := ''Draw something first '' @ dash @ '' erased/blank canvas cannot be guessed.'',
         guess := ''unknown'', confidence := 0 \<rparr>"
  unfolding guessDrawing_def Let_def using assms by (simp only: simp_thms if_True)

lemma guess_empty:
  assumes "hasMeaningfulDrawing (getDrawingStats st)" and "dataset st = []"
  shows "guessDrawing st =
     st\<lparr> guess := ''Need training data first'', confidence := 0,
         statusMessage := ''Train me with a few drawings before guessing.'' \<rparr>"
  unfolding guessDrawing_def Let_def using assms
  by (simp only: simp_thms if_True if_False list.size)

lemma guess_nonempty:
  assumes "hasMeaningfulDrawing (getDrawingStats st)" and "dataset st \<noteq> []"
  shows "guessDrawing st =
     st\<lparr> guess := (if lowConfidence (classify st) then ''unknown'' else bestLabel (classify st)),
         confidence := conf (classify st),
         statusMessage :=
           (if lowConfidence (classify st)
            then ''Not confident enough to guess yet '' @ dash @ '' try cleaner strokes.''
            else []) \<rparr>"
  unfolding guessDrawing_def Let_def using assms
  by (simp only: simp_thms if_True if_False length_0_conv)


text \<open>
  Claim C10. \<^verbatim>\<open>guessDrawing\<close> changes the displayed guess, the confidence and the status
  message and nothing else: the dataset, the persisted store, the prompt, the strokes, the
  canvas and the eraser flag of the resulting state are those of the state it started from.
\<close>

theorem guessDrawing_frame:
  "dataset (guessDrawing st) = dataset st \<and> storage (guessDrawing st) = storage st
   \<and> prompt (guessDrawing st) = prompt st \<and> strokesRef (guessDrawing st) = strokesRef st
   \<and> canvasData (guessDrawing st) = canvasData st \<and> isErasing (guessDrawing st) = isErasing st
   \<and> guessDrawing st = st\<lparr> guess := guess (guessDrawing st),
                             confidence := confidence (guessDrawing st),
                             statusMessage := statusMessage (guessDrawing st) \<rparr>"
proof (cases "hasMeaningfulDrawing (getDrawingStats st)")
  case False
  show ?thesis by (simp add: guess_not_meaningful[OF False])
next
  case True
  show ?thesis
  proof (cases "dataset st = []")
    case e: True
    show ?thesis by (simp add: guess_empty[OF True e])
  next
    case ne: False
    show ?thesis by (simp add: guess_nonempty[OF True ne])
  qed
qed

text \<open>
  Claim C6, as amended. Against an empty dataset the confidence shown is 0 for every canvas
  and stroke list, and the guess is the text "Need training data first" when the drawing is
  meaningful; when it is not, the gate answers first and the guess is "unknown". There is
  no sample and no prototype to measure a distance to, and both answers are returned
  before the scoring.
\<close>

theorem empty_dataset_sentinel:
  assumes "dataset st = []"
  shows "confidence (guessDrawing st) = 0 \<and>
         guess (guessDrawing st) =
           (if hasMeaningfulDrawing (getDrawingStats st) then ''Need training data first''
            else ''unknown'') \<and>
         buildPrototypes (dataset st) = []"
proof (cases "hasMeaningfulDrawing (getDrawingStats st)")
  case False
  then show ?thesis by (simp add: guess_not_meaningful[OF False] assms buildPrototypes_def)
next
  case True
  then show ?thesis by (simp add: guess_empty[OF True assms] assms buildPrototypes_def)
qed

theorem empty_dataset_sentinel_witness:
  "dataset drawn_app = [] \<and> confidence (guessDrawing drawn_app) = 0 \<and>
   guess (guessDrawing drawn_app) = ''Need training data first''"
  using empty_dataset_sentinel[of drawn_app] drawn_meaningful
  by (simp add: drawn_app_def initial_app_def)

text \<open>
  Claim C6 as stated fails on the blank canvas of the freshly mounted component: the
  dataset is empty and the guess is not the "needs training data" text.
\<close>

theorem empty_dataset_blank_counterexample:
  "dataset initial_app = [] \<and> guess (guessDrawing initial_app) \<noteq> ''Need training data first''"
  by (simp add: guess_not_meaningful[OF blank_not_meaningful]) (simp add: initial_app_def)


section \<open>Appending a sample\<close>

lemma slice_last_length: "length (slice_last n xs) = min (length xs) n"
  by (simp add: slice_last_def)

lemma slice_last_short: "length xs \<le> n \<Longrightarrow> slice_last n xs = xs"
  by (simp add: slice_last_def)

lemma slice_last_snoc_full:
  "length xs = n \<Longrightarrow> 0 < n \<Longrightarrow> slice_last n (xs @ [x]) = tl xs @ [x]"
  by (cases xs) (simp_all add: slice_last_def)

lemma slice_last_suffix: "\<exists>old. xs = old @ slice_last n xs"
  unfolding slice_last_def by (metis append_take_drop_id)

lemma save_meaningful:
  assumes "hasMeaningfulDrawing (getDrawingStats st)"
  shows "dataset (saveDrawing now r st) = slice_last 2000 (dataset st @ [new_sample now st])"
    and "storage (saveDrawing now r st) = saveDataset (dataset (saveDrawing now r st))"
  using assms by (simp_all add: saveDrawing_def Let_def clearCanvas_def)

text \<open>
  Claim C4. Saving a meaningful drawing appends the new sample at the end of the dataset:
  the result is a suffix of the prior dataset followed by the new sample, it never has more
  than 2000 entries, below the cap nothing is dropped, and from exactly 2000 entries only
  the first (oldest) one is dropped, the other 1999 staying in order before the new sample.
  The same list is written to the store.
\<close>

theorem saveDrawing_appends:
  assumes "hasMeaningfulDrawing (getDrawingStats st)"
  shows "length (dataset (saveDrawing now r st)) \<le> 2000
     \<and> (length (dataset st) < 2000 \<longrightarrow>
          dataset (saveDrawing now r st) = dataset st @ [new_sample now st])
     \<and> (length (dataset st) = 2000 \<longrightarrow>
          dataset (saveDrawing now r st) = tl (dataset st) @ [new_sample now st])
     \<and> (\<exists>old. dataset st @ [new_sample now st] = old @ dataset (saveDrawing now r st))
     \<and> last (dataset (saveDrawing now r st)) = new_sample now st
     \<and> storage (saveDrawing now r st) = saveDataset (dataset (saveDrawing now r st))"
proof -
  let ?new = "new_sample now st"
  have d: "dataset (saveDrawing now r st) = slice_last 2000 (dataset st @ [?new])"
    by (rule save_meaningful(1)[OF assms])
  have 1: "length (dataset (saveDrawing now r st)) \<le> 2000"
    by (simp add: d slice_last_length)
  have 2: "length (dataset st) < 2000 \<longrightarrow> dataset (saveDrawing now r st) = dataset st @ [?new]"
    by (simp add: d slice_last_short)
  have 3: "length (dataset st) = 2000 \<longrightarrow> dataset (saveDrawing now r st) = tl (dataset st) @ [?new]"
    by (simp add: d slice_last_snoc_full)
  have 4: "\<exists>old. dataset st @ [?new] = old @ dataset (saveDrawing now r st)"
    unfolding d by (rule slice_last_suffix)
  have 5: "last (dataset (saveDrawing now r st)) = ?new"
    by (simp add: d slice_last_def)
  from 1 2 3 4 5 save_meaningful(2)[OF assms] show ?thesis by blast
qed

theorem saveDrawing_appends_witness:
  "hasMeaningfulDrawing (getDrawingStats (trained_app 2000))
   \<and> length (dataset (trained_app 2000)) = 2000
   \<and> dataset (saveDrawing 1 0 (trained_app 2000)) =
       replicate 1999 cat_sample @ [new_sample 1 (trained_app 2000)]
   \<and> length (dataset (saveDrawing 1 0 (trained_app 2000))) = 2000"
  using saveDrawing_appends[of "trained_app 2000" 1 0, OF trained_meaningful] trained_meaningful[of 2000]
  by (simp add: trained_app_def tl_replicate)

section \<open>Loading the store\<close>

lemma spec_check_kept: "spec_structural_check item \<Longrightarrow> keep_item item"
  by (cases item) (auto simp: keep_item_def split: option.splits json.splits)

lemma keep_item_iff:
  "keep_item item \<longleftrightarrow>
     (\<exists>kvs s xs. item = JObj kvs \<and> map_of kvs ''label'' = Some (JStr s) \<and>
        map_of kvs ''vector'' = Some (JArr xs) \<and> length xs = 256)"
proof (cases item)
  case (JObj kvs)
  show ?thesis
  proof (cases "map_of kvs ''label''")
    case None
    then show ?thesis using JObj by (simp add: keep_item_def)
  next
    case (Some l)
    then show ?thesis using JObj
      by (cases l; cases "map_of kvs ''vector''"; (simp add: keep_item_def GRID_SIZE_def)?)
         (rename_tac v, case_tac v, simp_all add: keep_item_def GRID_SIZE_def)
  qed
qed (simp_all add: keep_item_def)

lemma keep_cat_sample: "keep_item (sample_json cat_sample)"
  by (simp add: keep_item_def sample_json_def cat_sample_def GRID_SIZE_def)

lemma drop_unlabelled: "\<not> keep_item unlabelled_entry"
  by (simp add: keep_item_def unlabelled_entry_def)

text \<open>
  Claim C5, as amended. \<^verbatim>\<open>loadDataset\<close> returns, in order, exactly the entries of the
  stored array that are objects whose \<^verbatim>\<open>label\<close> is a string and whose \<^verbatim>\<open>vector\<close> is an
  array of \<open>256\<close> entries, whatever those entries are; every entry that passes the check
  of the specification is among them; and a store that cannot be read, is absent, does
  not parse or does not hold an array gives the empty dataset.
\<close>

theorem loadDataset_keeps:
  "(\<forall>item \<in> set (loadDataset raw).
      \<exists>kvs s xs. item = JObj kvs \<and> map_of kvs ''label'' = Some (JStr s) \<and>
        map_of kvs ''vector'' = Some (JArr xs) \<and> length xs = 256)
   \<and> (\<forall>items. raw = Parsed (JArr items) \<longrightarrow>
        loadDataset raw = filter keep_item items \<and>
        (\<forall>item \<in> set items. spec_structural_check item \<longrightarrow> item \<in> set (loadDataset raw)))
   \<and> ((\<forall>items. raw \<noteq> Parsed (JArr items)) \<longrightarrow> loadDataset raw = [])"
proof -
  have 1: "\<forall>item \<in> set (loadDataset raw). keep_item item"
    by (induction raw rule: loadDataset.induct) simp_all
  have 2: "\<forall>items. raw = Parsed (JArr items) \<longrightarrow>
        loadDataset raw = filter keep_item items \<and>
        (\<forall>item \<in> set items. spec_structural_check item \<longrightarrow> item \<in> set (loadDataset raw))"
    by (auto simp: spec_check_kept)
  have 3: "(\<forall>items. raw \<noteq> Parsed (JArr items)) \<longrightarrow> loadDataset raw = []"
    by (induction raw rule: loadDataset.induct) simp_all
  from 1 2 3 show ?thesis unfolding keep_item_iff by blast
qed

theorem loadDataset_keeps_witness:
  "example_store = Parsed (JArr [sample_json cat_sample, unlabelled_entry])
   \<and> loadDataset example_store = [sample_json cat_sample]"
  using loadDataset_keeps[of example_store] keep_cat_sample drop_unlabelled
  by (simp add: example_store_def)

text \<open>
  Claim C5 as stated fails: an entry whose vector holds 256 values none of which is a
  number is returned, although it does not pass the check of the specification.
\<close>

theorem loadDataset_unchecked_counterexample:
  "loadDataset (Parsed (JArr [unchecked_entry])) = [unchecked_entry] \<and>
   \<not> spec_structural_check unchecked_entry"
  by (simp add: keep_item_def unchecked_entry_def GRID_SIZE_def list_all_iff)

section \<open>The cosine distance\<close>

lemma cosine_loop:
  "foldl (\<lambda>(dot, normA, normB) i.
            (dot + a ! i * b ! i, normA + a ! i * a ! i, normB + b ! i * (b ! i :: real)))
         (d, na, nb) [0..<n] =
   (d + (\<Sum>i<n. a ! i * b ! i), na + (\<Sum>i<n. a ! i * a ! i), nb + (\<Sum>i<n. b ! i * b ! i))"
  by (induction n) simp_all

lemma sum_nth_zip:
  "length a = length b \<Longrightarrow> (\<Sum>i<length a. a ! i * b ! i) = dot_product a (b :: real list)"
proof -
  assume l: "length a = length b"
  have "dot_product a b = (\<Sum>i = 0..<length (zip a b). map (\<lambda>(x, y). x * y) (zip a b) ! i)"
    unfolding dot_product_def by (simp add: sum_list_sum_nth)
  also have "\<dots> = (\<Sum>i = 0..<length a. a ! i * b ! i)"
    using l by (intro sum.cong) simp_all
  finally show ?thesis by (simp add: atLeast0LessThan)
qed

lemma sum_nth_squares: "(\<Sum>i<length a. a ! i * a ! i) = sum_list (map (\<lambda>x. x * x) (a :: real list))"
proof -
  have "sum_list (map (\<lambda>x. x * x) a) = (\<Sum>i = 0..<length a. map (\<lambda>x. x * x) a ! i)"
    by (simp add: sum_list_sum_nth)
  also have "\<dots> = (\<Sum>i = 0..<length a. a ! i * a ! i)"
    by (intro sum.cong) simp_all
  finally show ?thesis by (simp add: atLeast0LessThan)
qed

lemma cosineDistance_sums:
  assumes "length a = length b"
  shows "cosineDistance a b =
     (if vector_norm a * vector_norm b = 0 then 1
      else 1 - dot_product a b / (vector_norm a * vector_norm b))"
proof -
  have "(\<Sum>i<length a. b ! i * b ! i) = sum_list (map (\<lambda>x. x * x) b)"
    using sum_nth_squares[of b] assms by simp
  then show ?thesis
    unfolding cosineDistance_def cosine_loop Let_def
    by (simp add: sum_nth_zip[OF assms] sum_nth_squares vector_norm_def)
qed

lemma sqrt_25: "sqrt 25 = 5"
  by (rule real_sqrt_unique) simp_all

text \<open>The loop in doubles, one accumulator at a time.\<close>

lemma cosine_fl_loop:
  "foldl (\<lambda>(dot, normA, normB) i.
            (fl (dot + fl (a ! i * b ! i)), fl (normA + fl (a ! i * a ! i)),
             fl (normB + fl (b ! i * (b ! i :: real)))))
         (d, na, nb) [0..<n] =
   (foldl (\<lambda>dot i. fl (dot + fl (a ! i * b ! i))) d [0..<n],
    foldl (\<lambda>norm i. fl (norm + fl (a ! i * a ! i))) na [0..<n],
    foldl (\<lambda>norm i. fl (norm + fl (b ! i * b ! i))) nb [0..<n])"
  by (induction n) simp_all

lemma cosineDistance_fl_sums:
  assumes "length a = length b"
  shows "cosineDistance_fl a b =
     (if fl (fl (sqrt (norm2_fl a)) * fl (sqrt (norm2_fl b))) = 0 then 1
      else fl (1 - fl (dot_fl a b / fl (fl (sqrt (norm2_fl a)) * fl (sqrt (norm2_fl b))))))"
  unfolding cosineDistance_fl_def cosine_fl_loop Let_def dot_fl_def norm2_fl_def assms[symmetric]
  by simp

text \<open>
  The accumulator of a squared norm is \<open>0\<close> or a positive double, so at least
  \<open>2\<^sup>-\<^sup>1\<^sup>0\<^sup>7\<^sup>4\<close>; the product of the square roots of two such numbers is not rounded to
  \<open>0\<close>.
\<close>

lemma norm2_acc:
  assumes "s = 0 \<or> 2 powr (- 1074) \<le> s"
  shows "foldl (\<lambda>norm i. fl (norm + fl (a ! i * a ! i))) s js = 0 \<or>
         2 powr (- 1074) \<le> foldl (\<lambda>norm i. fl (norm + fl (a ! i * (a ! i :: real)))) s js"
  using assms
proof (induction js arbitrary: s)
  case Nil
  then show ?case by simp
next
  case (Cons j js)
  have s0: "0 \<le> s" using Cons.prems by (auto intro: order_trans[of 0 "2 powr (- 1074)"])
  have "0 \<le> fl (a ! j * a ! j)" by (rule fl_nonneg) simp
  then have "0 \<le> fl (s + fl (a ! j * a ! j))" using s0 by (intro fl_nonneg) simp
  then have "fl (s + fl (a ! j * a ! j)) = 0 \<or> 0 < fl (s + fl (a ! j * a ! j))" by linarith
  then have "fl (s + fl (a ! j * a ! j)) = 0 \<or> 2 powr (- 1074) \<le> fl (s + fl (a ! j * a ! j))"
    using fl_pos_least by blast
  then show ?case using Cons.IH by simp
qed

lemma norm2_fl_range: "norm2_fl a = 0 \<or> 2 powr (- 1074) \<le> norm2_fl a"
  unfolding norm2_fl_def by (rule norm2_acc) simp

lemma sqrt_least: "sqrt (2 powr (- 1074)) = 2 powr (- 537)"
proof -
  have "sqrt (2 powr (- 1074)) = (2 powr (- 1074)) powr (1 / 2)"
    by (simp add: powr_half_sqrt)
  also have "\<dots> = 2 powr (- 1074 * (1 / 2))" by (rule powr_powr)
  finally show ?thesis by simp
qed

lemma fl_power_of_two:
  assumes "- 1074 \<le> k"
  shows "fl (2 powr of_int k) = 2 powr of_int k"
  using fl_repr[of 1 k] assms by simp

lemma fl_sqrt_least:
  assumes "2 powr (- 1074) \<le> n"
  shows "2 powr (- 537) \<le> fl (sqrt n)"
proof -
  have "sqrt (2 powr (- 1074)) \<le> sqrt n" using assms by (rule real_sqrt_le_mono)
  then have "2 powr (- 537) \<le> sqrt n" unfolding sqrt_least .
  then have "fl (2 powr (- 537)) \<le> fl (sqrt n)" by (rule fl_mono)
  moreover have "fl (2 powr of_int (- 537)) = 2 powr of_int (- 537)"
    by (rule fl_power_of_two) simp
  ultimately show ?thesis by simp
qed

lemma denom_fl_zero_iff:
  assumes "n1 = 0 \<or> 2 powr (- 1074) \<le> n1" and "n2 = 0 \<or> 2 powr (- 1074) \<le> n2"
  shows "fl (fl (sqrt n1) * fl (sqrt n2)) = 0 \<longleftrightarrow> n1 = 0 \<or> n2 = 0"
proof
  assume "n1 = 0 \<or> n2 = 0"
  then show "fl (fl (sqrt n1) * fl (sqrt n2)) = 0" by (auto simp: fl_zero)
next
  assume z: "fl (fl (sqrt n1) * fl (sqrt n2)) = 0"
  show "n1 = 0 \<or> n2 = 0"
  proof (rule ccontr)
    assume "\<not> (n1 = 0 \<or> n2 = 0)"
    then have a: "2 powr (- 1074) \<le> n1" and b: "2 powr (- 1074) \<le> n2" using assms by auto
    have p: "(0::real) \<le> 2 powr (- 537)" by simp
    have "0 \<le> fl (sqrt n1)" using p fl_sqrt_least[OF a] by (rule order_trans)
    then have "2 powr (- 537) * 2 powr (- 537) \<le> fl (sqrt n1) * fl (sqrt n2)"
      using fl_sqrt_least[OF a] fl_sqrt_least[OF b] p by (intro mult_mono)
    moreover have "(2::real) powr (- 537) * 2 powr (- 537) = 2 powr (- 1074)"
      by (simp add: powr_add[symmetric])
    ultimately have "2 powr (- 1074) \<le> fl (sqrt n1) * fl (sqrt n2)" by simp
    then have "fl (2 powr (- 1074)) \<le> fl (fl (sqrt n1) * fl (sqrt n2))" by (rule fl_mono)
    moreover have "fl (2 powr of_int (- 1074)) = 2 powr of_int (- 1074)"
      by (rule fl_power_of_two) simp
    ultimately have "2 powr (- 1074) \<le> fl (fl (sqrt n1) * fl (sqrt n2))" by simp
    moreover have "(0::real) < 2 powr (- 1074)" by simp
    ultimately show False using z by linarith
  qed
qed

text \<open>
  A square is rounded to \<open>0\<close> exactly when it is at most \<open>2\<^sup>-\<^sup>1\<^sup>0\<^sup>7\<^sup>5\<close>, and the accumulator
  of a squared norm is \<open>0\<close> exactly when every square is.
\<close>

lemma round_half_even_pos:
  assumes "1 / 2 < x"
  shows "1 \<le> round_half_even x"
proof (cases "1 \<le> x")
  case True
  then have "1 \<le> \<lfloor>x\<rfloor>" by simp
  then show ?thesis using round_half_even_floor(1)[of x] by linarith
next
  case False
  then have "\<bar>x - of_int 1\<bar> < 1 / 2" using assms by simp
  then have "round_half_even x = 1" by (rule round_half_even_near)
  then show ?thesis by simp
qed

lemma fl_zero_iff:
  assumes "0 \<le> y"
  shows "fl y = 0 \<longleftrightarrow> y \<le> 2 powr (- 1075)"
proof
  assume "y \<le> 2 powr (- 1075)"
  with assms show "fl y = 0" by (rule fl_tiny)
next
  assume z: "fl y = 0"
  show "y \<le> 2 powr (- 1075)"
  proof (rule ccontr)
    assume "\<not> y \<le> 2 powr (- 1075)"
    then have big: "2 powr (- 1075) < y" by simp
    have "(0::real) < 2 powr (- 1075)" by simp
    then have ypos: "0 < y" using big by linarith
    define e where "e = max \<lfloor>log 2 y\<rfloor> (- 1022) - 52"
    have f: "fl y = of_int (round_half_even (y / 2 powr of_int e)) * 2 powr of_int e"
      by (rule fl_pos[OF ypos e_def])
    have "1 \<le> round_half_even (y / 2 powr of_int e)"
    proof (cases "- 1022 \<le> \<lfloor>log 2 y\<rfloor>")
      case True
      have "round_half_even (of_int (2 ^ 52)) \<le> round_half_even (y / 2 powr of_int e)"
        using scaled_above[OF ypos e_def True] by (intro round_half_even_mono) simp
      then have "2 ^ 52 \<le> round_half_even (y / 2 powr of_int e)"
        unfolding round_half_even_int .
      moreover have "(1::int) \<le> 2 ^ 52" by simp
      ultimately show ?thesis by (rule order_trans[rotated])
    next
      case False
      then have e: "e = - 1074" unfolding e_def by simp
      have "(2::real) powr (- 1074) = 2 powr (- 1075 + 1)" by simp
      also have "\<dots> = 2 powr (- 1075) * 2 powr 1" by (rule powr_add)
      finally have "(2::real) powr (- 1075) = 2 powr (- 1074) / 2" by simp
      then have "2 powr (- 1074) / 2 < y" using big by simp
      then have h: "1 / 2 < y / 2 powr (- 1074)" by (simp add: field_simps)
      have "1 \<le> round_half_even (y / 2 powr (- 1074))"
        using h by (rule round_half_even_pos)
      then show ?thesis unfolding e by simp
    qed
    then have "(1::real) \<le> of_int (round_half_even (y / 2 powr of_int e))" by simp
    then have "(0::real) < of_int (round_half_even (y / 2 powr of_int e)) * 2 powr of_int e"
      by (intro mult_pos_pos) simp_all
    then show False using z unfolding f by simp
  qed
qed

lemma norm2_acc_zero:
  assumes "fl s = s" and "0 \<le> s"
  shows "foldl (\<lambda>norm i. fl (norm + fl (a ! i * a ! i))) s js = 0 \<longleftrightarrow>
         s = 0 \<and> (\<forall>j \<in> set js. fl (a ! j * (a ! j :: real)) = 0)"
  using assms
proof (induction js arbitrary: s)
  case Nil
  show ?case by simp
next
  case (Cons j js)
  define t where "t = fl (a ! j * a ! j)"
  have t0: "0 \<le> t" unfolding t_def by (rule fl_nonneg) simp
  have tt: "fl t = t" unfolding t_def by (rule fl_idem)
  have "fl s \<le> fl (s + t)" using t0 by (intro fl_mono) simp
  then have a: "s \<le> fl (s + t)" unfolding Cons.prems(1) .
  have "fl t \<le> fl (s + t)" using Cons.prems(2) by (intro fl_mono) simp
  then have b: "t \<le> fl (s + t)" unfolding tt .
  have z: "fl (s + t) = 0 \<longleftrightarrow> s = 0 \<and> t = 0"
  proof
    assume "fl (s + t) = 0"
    then show "s = 0 \<and> t = 0" using a b t0 Cons.prems(2) by linarith
  next
    assume "s = 0 \<and> t = 0"
    then show "fl (s + t) = 0" by (simp add: fl_zero)
  qed
  have i: "fl (fl (s + t)) = fl (s + t)" by (rule fl_idem)
  have n: "0 \<le> fl (s + t)" using Cons.prems(2) t0 by (intro fl_nonneg) simp
  show ?case using Cons.IH[OF i n] z unfolding t_def by auto
qed

lemma norm2_fl_zero_iff: "norm2_fl a = 0 \<longleftrightarrow> (\<forall>x \<in> set a. x * x \<le> 2 powr (- 1075))"
proof -
  have "norm2_fl a = 0 \<longleftrightarrow> (\<forall>j \<in> set [0..<length a]. fl (a ! j * a ! j) = 0)"
    unfolding norm2_fl_def by (subst norm2_acc_zero) (simp_all add: fl_zero)
  also have "\<dots> \<longleftrightarrow> (\<forall>j < length a. a ! j * a ! j \<le> 2 powr (- 1075))"
    by (auto simp: fl_zero_iff)
  also have "\<dots> \<longleftrightarrow> (\<forall>x \<in> set a. x * x \<le> 2 powr (- 1075))"
    by (simp add: all_set_conv_all_nth)
  finally show ?thesis .
qed

text \<open>A vector of zero norm holds zeros only, and then so does its accumulator.\<close>

lemma vector_norm_zero: "vector_norm a = 0 \<longleftrightarrow> (\<forall>x \<in> set a. x = 0)"
proof -
  have n: "0 \<le> sum_list (map (\<lambda>x. x * x) xs)" for xs :: "real list"
    by (rule sum_list_nonneg) auto
  have "sum_list (map (\<lambda>x. x * x) a) = 0 \<longleftrightarrow> (\<forall>x \<in> set a. x = 0)"
  proof (induction a)
    case Nil
    show ?case by simp
  next
    case (Cons x xs)
    have "x * x + sum_list (map (\<lambda>x. x * x) xs) = 0 \<longleftrightarrow>
          x * x = 0 \<and> sum_list (map (\<lambda>x. x * x) xs) = 0"
      using n[of xs] by (intro add_nonneg_eq_0_iff) simp_all
    then show ?case using Cons.IH by simp
  qed
  then show ?thesis by (simp add: vector_norm_def)
qed

lemma norm2_fl_zeros:
  assumes "\<forall>x \<in> set a. x = 0"
  shows "norm2_fl a = 0"
proof -
  have "foldl (\<lambda>norm i. fl (norm + fl (a ! i * a ! i))) 0 [0..<n] = 0" if "n \<le> length a" for n
    using that
  proof (induction n)
    case 0
    show ?case by simp
  next
    case (Suc n)
    then have "a ! n = 0" using assms by simp
    then show ?case using Suc by (simp add: fl_zero)
  qed
  then show ?thesis unfolding norm2_fl_def by simp
qed

lemma cosineDistance_fl_zero_norm:
  assumes "length a = length b" and "vector_norm a = 0 \<or> vector_norm b = 0"
  shows "cosineDistance_fl a b = 1"
proof -
  have "norm2_fl a = 0 \<or> norm2_fl b = 0"
    using assms(2) norm2_fl_zeros by (auto simp: vector_norm_zero)
  then have "fl (fl (sqrt (norm2_fl a)) * fl (sqrt (norm2_fl b))) = 0"
    by (simp add: denom_fl_zero_iff[OF norm2_fl_range norm2_fl_range])
  then show ?thesis by (simp add: cosineDistance_fl_sums[OF assms(1)])
qed

text \<open>The two distances of \<open>(3, 4)\<close> and \<open>(4, 3)\<close>, and a square that underflows.\<close>

lemma upt_2: "[0..<2] = [0, 1]"
  by (simp add: upt_rec)

lemma quotient_24_25: "fl (24 / 25) = 1080863910568919 / 2 ^ 50"
  by (rule fl_eval[where m = 8646911284551352 and p = 53]) simp_all

lemma cosine_3_4: "fl (1 - 1080863910568919 / 2 ^ 50) = 45035996273705 / 2 ^ 50"
  by (rule fl_eval[where m = 5764607523034240 and p = 57]) simp_all

lemma cosine_fl_3_4: "cosineDistance_fl [3, 4] [4, 3] = 45035996273705 / 2 ^ 50"
proof -
  have d: "dot_fl [3, 4] [4, 3] = 24" by (simp add: dot_fl_def upt_2 fl_numeral)
  have a: "norm2_fl [3, 4] = 25" by (simp add: norm2_fl_def upt_2 fl_numeral)
  have b: "norm2_fl [4, 3] = 25" by (simp add: norm2_fl_def upt_2 fl_numeral)
  have e: "fl (fl (sqrt 25) * fl (sqrt 25)) = 25" by (simp add: sqrt_25 fl_numeral)
  have "cosineDistance_fl [3, 4] [4, 3] = fl (1 - fl (24 / 25))"
    unfolding cosineDistance_fl_sums[of "[3, 4]" "[4, 3]", simplified] d a b e by simp
  then show ?thesis unfolding quotient_24_25 cosine_3_4 .
qed

lemma fl_underflow: "fl (1 / 2 ^ 600 * (1 / 2 ^ 600)) = 0"
proof (rule fl_tiny)
  show "(0::real) \<le> 1 / 2 ^ 600 * (1 / 2 ^ 600)" by simp
  have "(1::real) / 2 ^ 600 * (1 / 2 ^ 600) = 1 / 2 ^ 1200" by (simp add: power_add[symmetric])
  also have "\<dots> = 2 powr (- 1200)" by (simp add: powr_minus_divide powr_numeral)
  also have "\<dots> \<le> 2 powr (- 1075)" by (intro powr_mono) simp_all
  finally show "(1::real) / 2 ^ 600 * (1 / 2 ^ 600) \<le> 2 powr (- 1075)" .
qed

lemma norm2_fl_pair: "norm2_fl [x, y] = fl (fl (fl (x * x)) + fl (y * y))"
  by (simp add: norm2_fl_def upt_2)

lemma norm2_fl_underflow: "norm2_fl [1 / 2 ^ 600, 0] = 0"
  unfolding norm2_fl_pair fl_underflow by (simp add: fl_zero)

text \<open>
  Claim C8, as amended. For vectors of equal length, in exact arithmetic
  \<^verbatim>\<open>cosineDistance\<close> is \<open>1 - dot(a, b) / (\<parallel>a\<parallel> \<cdot> \<parallel>b\<parallel>)\<close> when both norms are non-zero
  and \<open>1\<close> when one of them is zero. In doubles, for at most \<open>2\<^sup>2\<^sup>0\<close> entries of
  magnitude at most \<open>2\<^sup>5\<^sup>0\<^sup>0\<close> (no sum overflows), it is the same expression with every
  operation rounded when both accumulated squared norms are non-zero, and \<open>1\<close> when one
  of them is zero. An accumulated squared norm is zero exactly when every square of the
  vector is at most \<open>2\<^sup>-\<^sup>1\<^sup>0\<^sup>7\<^sup>5\<close> and so rounded to zero: this is the case of every vector of
  zero norm, and also of non-zero vectors. The divisor of the quotient is never zero.
\<close>

theorem cosineDistance_spec:
  assumes "length a = length b"
  shows "cosineDistance a b =
     (if vector_norm a = 0 \<or> vector_norm b = 0 then 1
      else 1 - dot_product a b / (vector_norm a * vector_norm b))
     \<and> (length a \<le> 2 ^ 20 \<and> (\<forall>x \<in> set a. \<bar>x\<bar> \<le> 2 ^ 500) \<and> (\<forall>x \<in> set b. \<bar>x\<bar> \<le> 2 ^ 500) \<longrightarrow>
        cosineDistance_fl a b =
          (if norm2_fl a = 0 \<or> norm2_fl b = 0 then 1
           else fl (1 - fl (dot_fl a b / fl (fl (sqrt (norm2_fl a)) * fl (sqrt (norm2_fl b))))))
        \<and> (norm2_fl a \<noteq> 0 \<and> norm2_fl b \<noteq> 0 \<longrightarrow>
             fl (fl (sqrt (norm2_fl a)) * fl (sqrt (norm2_fl b))) \<noteq> 0)
        \<and> (norm2_fl a = 0 \<longleftrightarrow> (\<forall>x \<in> set a. x * x \<le> 2 powr (- 1075)))
        \<and> (norm2_fl b = 0 \<longleftrightarrow> (\<forall>x \<in> set b. x * x \<le> 2 powr (- 1075)))
        \<and> (vector_norm a = 0 \<or> vector_norm b = 0 \<longrightarrow> cosineDistance_fl a b = 1))"
proof -
  have e: "cosineDistance a b =
     (if vector_norm a = 0 \<or> vector_norm b = 0 then 1
      else 1 - dot_product a b / (vector_norm a * vector_norm b))"
    by (simp add: cosineDistance_sums[OF assms])
  note z = denom_fl_zero_iff[OF norm2_fl_range[of a] norm2_fl_range[of b]]
  have f: "cosineDistance_fl a b =
          (if norm2_fl a = 0 \<or> norm2_fl b = 0 then 1
           else fl (1 - fl (dot_fl a b / fl (fl (sqrt (norm2_fl a)) * fl (sqrt (norm2_fl b))))))"
    unfolding cosineDistance_fl_sums[OF assms] z ..
  have d: "norm2_fl a \<noteq> 0 \<and> norm2_fl b \<noteq> 0 \<longrightarrow>
             fl (fl (sqrt (norm2_fl a)) * fl (sqrt (norm2_fl b))) \<noteq> 0"
    unfolding z by simp
  have n: "vector_norm a = 0 \<or> vector_norm b = 0 \<longrightarrow> cosineDistance_fl a b = 1"
    using cosineDistance_fl_zero_norm[OF assms] by blast
  from e f d n norm2_fl_zero_iff[of a] norm2_fl_zero_iff[of b] show ?thesis by blast
qed

theorem cosineDistance_spec_witness:
  "length [3, 4 :: real] = length [4, 3 :: real] \<and> cosineDistance [3, 4] [4, 3] = 1 / 25
   \<and> cosineDistance_fl [3, 4] [4, 3] = 1 - 1080863910568919 / 2 ^ 50
   \<and> norm2_fl [3, 4] = 25 \<and> norm2_fl [4, 3] = 25 \<and> dot_fl [3, 4] [4, 3] = 24"
proof -
  have d: "dot_fl [3, 4] [4, 3] = 24" by (simp add: dot_fl_def upt_2 fl_numeral)
  have a: "norm2_fl [3, 4] = 25" by (simp add: norm2_fl_def upt_2 fl_numeral)
  have b: "norm2_fl [4, 3] = 25" by (simp add: norm2_fl_def upt_2 fl_numeral)
  have e: "fl (fl (sqrt 25) * fl (sqrt 25)) = 25" by (simp add: sqrt_25 fl_numeral)
  have l: "length [3, 4 :: real] = length [4, 3 :: real]" by simp
  note c = cosineDistance_spec[OF l]
  have x: "cosineDistance [3, 4] [4, 3] = 1 / 25"
    using c by (simp add: dot_product_def vector_norm_def sqrt_25)
  have "cosineDistance_fl [3, 4] [4, 3] = fl (1 - fl (24 / 25))"
    using c unfolding d a b e by simp
  then have "cosineDistance_fl [3, 4] [4, 3] = 45035996273705 / 2 ^ 50"
    unfolding quotient_24_25 cosine_3_4 .
  then have y: "cosineDistance_fl [3, 4] [4, 3] = 1 - 1080863910568919 / 2 ^ 50" by simp
  from l x y a b d show ?thesis by blast
qed

text \<open>
  Claim C8 as stated fails in doubles on \<open>(1, 0)\<close> and \<open>(2\<^sup>-\<^sup>6\<^sup>0\<^sup>0, 0)\<close>: both norms are
  non-zero and \<open>1 - dot(a, b) / (\<parallel>a\<parallel> \<cdot> \<parallel>b\<parallel>)\<close> is \<open>0\<close>, but the square of \<open>2\<^sup>-\<^sup>6\<^sup>0\<^sup>0\<close> is
  rounded to zero and the program returns the fallback \<open>1\<close>.
\<close>

theorem cosineDistance_underflow_counterexample:
  "length [1, 0 :: real] = length [1 / 2 ^ 600, 0 :: real]
   \<and> vector_norm [1, 0] \<noteq> 0 \<and> vector_norm [1 / 2 ^ 600, 0] \<noteq> 0
   \<and> 1 - dot_product [1, 0] [1 / 2 ^ 600, 0] / (vector_norm [1, 0] * vector_norm [1 / 2 ^ 600, 0]) = 0
   \<and> cosineDistance_fl [1, 0] [1 / 2 ^ 600, 0] = 1"
proof -
  have l: "length [1, 0 :: real] = length [1 / 2 ^ 600, 0 :: real]" by simp
  have a: "vector_norm [1, 0] = 1" by (simp add: vector_norm_def)
  have "sqrt ((1 / 2 ^ 600) * (1 / 2 ^ 600)) = \<bar>1 / 2 ^ 600 :: real\<bar>" by (rule real_sqrt_abs2)
  then have b: "vector_norm [1 / 2 ^ 600, 0] = 1 / 2 ^ 600" by (simp add: vector_norm_def)
  have d: "dot_product [1, 0] [1 / 2 ^ 600, 0] = 1 / 2 ^ 600" by (simp add: dot_product_def)
  have "fl (fl (sqrt (norm2_fl [1, 0])) * fl (sqrt (norm2_fl [1 / 2 ^ 600, 0]))) = 0"
    unfolding norm2_fl_underflow by (simp add: fl_zero)
  then have f: "cosineDistance_fl [1, 0] [1 / 2 ^ 600, 0] = 1"
    unfolding cosineDistance_fl_sums[OF l] by simp
  have q: "1 - dot_product [1, 0] [1 / 2 ^ 600, 0] /
             (vector_norm [1, 0] * vector_norm [1 / 2 ^ 600, 0]) = 0"
    unfolding a b d by simp
  have a': "vector_norm [1, 0] \<noteq> 0" unfolding a by simp
  have b': "vector_norm [1 / 2 ^ 600, 0] \<noteq> 0" unfolding b by simp
  from l a' b' q f show ?thesis by blast
qed

section \<open>The votes\<close>

lemma map_of_add_vote:
  "map_of (add_vote w votes e) = (map_of votes)(fst e \<mapsto> vote_of votes (fst e) + w / max (snd e) 0.05)"
  by (simp add: add_vote_def vote_of_def Let_def update_conv')

lemma keys_add_vote: "fst ` set (add_vote w votes e) = insert (fst e) (fst ` set votes)"
  by (simp add: add_vote_def Let_def dom_update)

lemma distinct_add_vote: "distinct (map fst votes) \<Longrightarrow> distinct (map fst (add_vote w votes e))"
  by (simp add: add_vote_def Let_def distinct_update)

lemma add_vote_nonempty: "add_vote w votes e \<noteq> []"
  by (simp add: add_vote_def Let_def)

lemma vote_of_add_vote:
  "vote_of (add_vote w votes e) k =
     vote_of votes k + (if fst e = k then w / max (snd e) 0.05 else 0)"
  by (simp add: vote_of_def map_of_add_vote)

lemma vote_of_foldl:
  "vote_of (foldl (add_vote w) votes es) k = vote_of votes k + vote_weights w k es"
  by (induction es arbitrary: votes) (simp_all add: vote_weights_def vote_of_add_vote)

lemma keys_foldl:
  "fst ` set (foldl (add_vote w) votes es) = fst ` set votes \<union> fst ` set es"
  by (induction es arbitrary: votes) (auto simp: keys_add_vote)

lemma distinct_foldl:
  "distinct (map fst votes) \<Longrightarrow> distinct (map fst (foldl (add_vote w) votes es))"
  by (induction es arbitrary: votes) (simp_all add: distinct_add_vote)

lemma foldl_add_vote_nonempty: "votes \<noteq> [] \<or> es \<noteq> [] \<Longrightarrow> foldl (add_vote w) votes es \<noteq> []"
  by (induction es arbitrary: votes) (simp_all add: add_vote_nonempty)

lemma vote_weights_nonneg: "0 \<le> w \<Longrightarrow> 0 \<le> vote_weights w k es"
  unfolding vote_weights_def by (intro sum_list_nonneg) auto

lemma vote_weights_pos:
  assumes "0 < w" and "e \<in> set es" and "fst e = k"
  shows "w / max (snd e) 0.05 \<le> vote_weights w k es \<and> 0 < vote_weights w k es"
proof -
  let ?ws = "map (\<lambda>e. w / max (snd e) 0.05) (filter (\<lambda>e. fst e = k) es)"
  have m: "w / max (snd e) 0.05 \<in> set ?ws" using assms(2,3) by auto
  have "\<forall>x \<in> set ?ws. 0 \<le> x" using assms(1) by auto
  then have "w / max (snd e) 0.05 \<le> sum_list ?ws"
    using m by (intro member_le_sum_list) auto
  moreover have "0 < w / max (snd e) 0.05" using assms(1) by simp
  ultimately show ?thesis unfolding vote_weights_def by linarith
qed

section \<open>The ranking\<close>

lemma rankVotes_fields:
  "bestLabel (rankVotes votes n) =
     fst (case sort_key (\<lambda>e. - snd e) votes of [] \<Rightarrow> (''unknown'', 0) | e # _ \<Rightarrow> e)"
  "bestScore (rankVotes votes n) =
     snd (case sort_key (\<lambda>e. - snd e) votes of [] \<Rightarrow> (''unknown'', 0) | e # _ \<Rightarrow> e)"
  "secondScore (rankVotes votes n) =
     (case sort_key (\<lambda>e. - snd e) votes of _ # e # _ \<Rightarrow> snd e | _ \<Rightarrow> 0)"
  "voteTotal (rankVotes votes n) = foldl (\<lambda>sum e. sum + snd e) 0 (sort_key (\<lambda>e. - snd e) votes)"
  "margin (rankVotes votes n) = bestScore (rankVotes votes n) - secondScore (rankVotes votes n)"
  "certainty (rankVotes votes n) =
     (if voteTotal (rankVotes votes n) > 0
      then bestScore (rankVotes votes n) / voteTotal (rankVotes votes n) else 0)"
  "prototypeWeight (rankVotes votes n) = min (real n / 10) 1"
  "conf (rankVotes votes n) =
     max 1 (min 99 (round ((certainty (rankVotes votes n) * 0.65 + margin (rankVotes votes n) * 0.25 +
        prototypeWeight (rankVotes votes n) * 0.1) * 100)))"
  by (simp_all only: rankVotes_def Let_def ranking.select_convs)

lemma foldl_snd_sum: "foldl (\<lambda>sum e. sum + snd e) a xs = (a::real) + sum_list (map snd xs)"
  by (induction xs arbitrary: a) simp_all

lemma sum_list_sort_key: "sum_list (map g (sort_key f xs)) = (sum_list (map g xs) :: real)"
proof -
  have "mset (map g (sort_key f xs)) = mset (map g xs)" by simp
  then have "sum_mset (mset (map g (sort_key f xs))) = sum_mset (mset (map g xs))" by (rule arg_cong)
  then show ?thesis by (simp only: sum_mset_sum_list)
qed

lemma voteTotal_sum: "voteTotal (rankVotes votes n) = sum_list (map snd votes)"
  by (simp add: rankVotes_fields(4) foldl_snd_sum sum_list_sort_key)

lemma sorted_desc_head:
  assumes "sorted (map (\<lambda>e. - snd e) (e # es))"
  shows "\<forall>x \<in> set (e # es). snd x \<le> (snd e :: real)"
  using assms by auto

lemma bestScore_Max:
  assumes "votes \<noteq> []"
  shows "bestScore (rankVotes votes n) = Max (snd ` set votes)"
proof -
  let ?r = "sort_key (\<lambda>e. - snd e) votes"
  have "?r \<noteq> []" using assms by (metis length_sort length_0_conv)
  then obtain e es where r: "?r = e # es" by (cases ?r) auto
  have s: "sorted (map (\<lambda>e. - snd e) ?r)" by (rule sorted_sort_key)
  have le: "\<forall>x \<in> set votes. snd x \<le> snd e"
    using sorted_desc_head[of e es] s r by (metis set_sort)
  have mem: "e \<in> set votes" using r by (metis list.set_intros(1) set_sort)
  have "Max (snd ` set votes) = snd e"
    using le mem by (intro Max_eqI) auto
  then show ?thesis by (simp add: rankVotes_fields(2) r)
qed

lemma secondScore_single: "length votes < 2 \<Longrightarrow> secondScore (rankVotes votes n) = 0"
proof -
  assume "length votes < 2"
  then have "length (sort_key (\<lambda>e. - snd e) votes) < 2" by simp
  then show ?thesis
    by (cases "sort_key (\<lambda>e. - snd e) votes" rule: list.exhaust[case_names Nil Cons])
       (auto simp: rankVotes_fields(3) split: list.splits)
qed

lemma secondScore_Max:
  assumes "2 \<le> length votes"
  shows "secondScore (rankVotes votes n) =
           Max (set_mset (mset (map snd votes) - {#bestScore (rankVotes votes n)#}))"
proof -
  let ?r = "sort_key (\<lambda>e. - snd e) votes"
  have "2 \<le> length ?r" using assms by simp
  then obtain e1 e2 es where r: "?r = e1 # e2 # es"
    by (cases ?r; cases "tl ?r") auto
  have s: "sorted (map (\<lambda>e. - snd e) ?r)" by (rule sorted_sort_key)
  have le: "\<forall>x \<in> set (e2 # es). snd x \<le> snd e2"
    using s unfolding r by auto
  have "mset (map snd votes) = mset (map snd ?r)" by simp
  also have "\<dots> = {#snd e1#} + mset (map snd (e2 # es))" unfolding r by simp
  finally have m: "mset (map snd votes) - {#snd e1#} = mset (map snd (e2 # es))" by simp
  have b: "bestScore (rankVotes votes n) = snd e1" by (simp add: rankVotes_fields(2) r)
  have "Max (set (map snd (e2 # es))) = snd e2"
    using le by (intro Max_eqI) auto
  then show ?thesis unfolding b m by (simp add: rankVotes_fields(3) r)
qed

section \<open>The labels of the prototypes\<close>

lemma map_of_byLabel_step:
  "map_of (byLabel_step acc item) =
     (map_of acc)(sample.label item \<mapsto> bucket_add (bucket_or_empty acc (sample.label item)) item)"
  by (auto simp: byLabel_step_def bucket_or_empty_def update_conv' map_add_def fun_eq_iff
      split: option.splits)

lemma keys_byLabel_step:
  "fst ` set (byLabel_step acc item) = insert (sample.label item) (fst ` set acc)"
  by (auto simp: byLabel_step_def dom_update split: option.splits dest: weak_map_of_SomeI
      simp: map_of_eq_None_iff)

lemma distinct_byLabel_step:
  "distinct (map fst acc) \<Longrightarrow> distinct (map fst (byLabel_step acc item))"
  by (auto simp: byLabel_step_def distinct_update map_of_eq_None_iff split: option.splits)

lemma keys_byLabel:
  "fst ` set (foldl byLabel_step acc ds) = fst ` set acc \<union> sample.label ` set ds"
  by (induction ds arbitrary: acc) (auto simp: keys_byLabel_step)

lemma distinct_byLabel:
  "distinct (map fst acc) \<Longrightarrow> distinct (map fst (foldl byLabel_step acc ds))"
  by (induction ds arbitrary: acc) (simp_all add: distinct_byLabel_step)

lemma label_finish_bucket: "prototype.label (finish_bucket e) = fst e"
  by (cases e) (simp add: finish_bucket_def)

lemma labels_buildPrototypes:
  "map prototype.label (buildPrototypes ds) = map fst (foldl byLabel_step [] ds)"
  by (simp add: buildPrototypes_def label_finish_bucket cong: map_cong)

lemma distinct_prototype_labels: "distinct (map prototype.label (buildPrototypes ds))"
  by (simp add: labels_buildPrototypes distinct_byLabel)

lemma set_prototype_labels:
  "prototype.label ` set (buildPrototypes ds) = sample.label ` set ds"
proof -
  have "prototype.label ` set (buildPrototypes ds) = set (map prototype.label (buildPrototypes ds))"
    by simp
  also have "\<dots> = fst ` set (foldl byLabel_step [] ds)"
    unfolding labels_buildPrototypes by simp
  finally show ?thesis by (simp add: keys_byLabel)
qed

lemma length_buildPrototypes: "length (buildPrototypes ds) = card (sample.label ` set ds)"
proof -
  have "card (sample.label ` set ds) = card (set (map prototype.label (buildPrototypes ds)))"
    using set_prototype_labels[of ds] by simp
  also have "\<dots> = length (map prototype.label (buildPrototypes ds))"
    by (rule distinct_card[OF distinct_prototype_labels])
  finally show ?thesis by simp
qed

lemma castVotes_alt:
  "castVotes v fs ds ps =
     foldl (add_vote 0.9) (foldl (add_vote 1) [] (nearest_of v fs ds)) (map (scorePrototype v fs) ps)"
  by (simp add: castVotes_def nearest_of_def Let_def)

lemma nearest_nonempty: "ds \<noteq> [] \<Longrightarrow> nearest_of v fs ds \<noteq> []"
  by (simp add: nearest_of_def) (metis length_sort length_map length_0_conv)

lemma castVotes_nonempty: "ds \<noteq> [] \<Longrightarrow> castVotes v fs ds ps \<noteq> []"
proof -
  assume "ds \<noteq> []"
  then have "foldl (add_vote 1) [] (nearest_of v fs ds) \<noteq> []"
    by (intro foldl_add_vote_nonempty[OF disjI2] nearest_nonempty)
  then show ?thesis
    unfolding castVotes_alt by (rule foldl_add_vote_nonempty[OF disjI1])
qed

lemma castVotes_distinct: "distinct (map fst (castVotes v fs ds ps))"
  unfolding castVotes_alt by (intro distinct_foldl) simp

lemma castVotes_keys:
  "fst ` set (castVotes v fs ds ps) =
     fst ` set (nearest_of v fs ds) \<union> fst ` set (map (scorePrototype v fs) ps)"
  unfolding castVotes_alt by (simp add: keys_foldl)

lemma castVotes_vote_of:
  "vote_of (castVotes v fs ds ps) k =
     vote_weights 1 k (nearest_of v fs ds) + vote_weights 0.9 k (map (scorePrototype v fs) ps)"
proof -
  have "vote_of [] k = 0" by (simp add: vote_of_def)
  then show ?thesis unfolding castVotes_alt by (simp add: vote_of_foldl)
qed

lemma vote_of_member:
  assumes "distinct (map fst votes)" and "(k, t) \<in> set votes"
  shows "vote_of votes k = t"
  using assms by (simp add: vote_of_def)

lemma castVotes_pos:
  assumes "e \<in> set (castVotes v fs ds ps)"
  shows "0 < snd e"
proof -
  obtain k t where e: "e = (k, t)" by (cases e)
  have t: "t = vote_weights 1 k (nearest_of v fs ds) + vote_weights 0.9 k (map (scorePrototype v fs) ps)"
    using vote_of_member[OF castVotes_distinct, of k t v fs ds ps] assms e
    by (simp add: castVotes_vote_of)
  have "k \<in> fst ` set (castVotes v fs ds ps)" using assms e by force
  then consider "k \<in> fst ` set (nearest_of v fs ds)"
    | "k \<in> fst ` set (map (scorePrototype v fs) ps)"
    unfolding castVotes_keys by blast
  then show ?thesis
  proof cases
    case 1
    then obtain x where "x \<in> set (nearest_of v fs ds)" "fst x = k" by auto
    then have "0 < vote_weights 1 k (nearest_of v fs ds)"
      using vote_weights_pos[of 1 x] by simp
    moreover have "0 \<le> vote_weights 0.9 k (map (scorePrototype v fs) ps)"
      by (rule vote_weights_nonneg) simp
    ultimately show ?thesis using t e by simp
  next
    case 2
    then obtain x where "x \<in> set (map (scorePrototype v fs) ps)" "fst x = k" by auto
    then have "0 < vote_weights 0.9 k (map (scorePrototype v fs) ps)"
      using vote_weights_pos[of "0.9" x] by simp
    moreover have "0 \<le> vote_weights 1 k (nearest_of v fs ds)"
      by (rule vote_weights_nonneg) simp
    ultimately show ?thesis using t e by simp
  qed
qed

lemma sum_list_pos_real:
  "xs \<noteq> [] \<Longrightarrow> \<forall>x \<in> set xs. 0 < (x::real) \<Longrightarrow> 0 < sum_list xs"
  by (induction xs) (auto intro: add_pos_nonneg sum_list_nonneg less_imp_le)

lemma castVotes_total_pos:
  assumes "ds \<noteq> []"
  shows "0 < voteTotal (rankVotes (castVotes v fs ds ps) n)"
  unfolding voteTotal_sum
  using castVotes_nonempty[OF assms] castVotes_pos
  by (intro sum_list_pos_real) auto

section \<open>The confidence\<close>

lemma conf_clamp:
  "max 1 (min 99 (round (x * 100))) = max 1 (min 99 (round (100 * spec_clamp x 0.01 0.99)))"
proof -
  consider "x < 0.01" | "0.01 \<le> x \<and> x \<le> 0.99" | "0.99 < x" by linarith
  then show ?thesis
  proof cases
    case 1
    then have "round (x * 100) \<le> round (1::real)" by (intro round_mono) simp
    then have a: "round (x * 100) \<le> 1" by simp
    have "100 * spec_clamp x 0.01 0.99 = 1" using 1 by (simp add: spec_clamp_def)
    then have "round (100 * spec_clamp x 0.01 0.99) = round (1::real)" by (rule arg_cong)
    then have b: "round (100 * spec_clamp x 0.01 0.99) = 1" by simp
    from a b show ?thesis by linarith
  next
    case 2
    then have "spec_clamp x 0.01 0.99 = x" by (simp add: spec_clamp_def)
    then have "100 * spec_clamp x 0.01 0.99 = x * 100" by simp
    then have "round (100 * spec_clamp x 0.01 0.99) = round (x * 100)" by (rule arg_cong)
    then show ?thesis by linarith
  next
    case 3
    then have "round (99::real) \<le> round (x * 100)" by (intro round_mono) simp
    then have a: "99 \<le> round (x * 100)" by simp
    have "100 * spec_clamp x 0.01 0.99 = 99" using 3 by (simp add: spec_clamp_def)
    then have "round (100 * spec_clamp x 0.01 0.99) = round (99::real)" by (rule arg_cong)
    then have b: "round (100 * spec_clamp x 0.01 0.99) = 99" by simp
    from a b show ?thesis by linarith
  qed
qed

lemma classify_tallies:
  "classify st = rankVotes (tallies st) (length (buildPrototypes (dataset st)))"
  by (simp add: classify_def tallies_def Let_def)

lemma tallies_nonempty: "dataset st \<noteq> [] \<Longrightarrow> tallies st \<noteq> []"
  by (simp add: tallies_def Let_def castVotes_nonempty)

lemma classify_total_pos: "dataset st \<noteq> [] \<Longrightarrow> 0 < voteTotal (classify st)"
  unfolding classify_tallies tallies_def Let_def by (rule castVotes_total_pos)

lemma conf_bounds: "1 \<le> conf (rankVotes votes n) \<and> conf (rankVotes votes n) \<le> 99"
  unfolding rankVotes_fields(8) by linarith

text \<open>The ranking in doubles, field by field.\<close>

lemma rankVotes_fl_fields:
  "bestLabel (rankVotes_fl votes n) =
     fst (case sort_key (\<lambda>e. - snd e) votes of [] \<Rightarrow> (''unknown'', 0) | e # _ \<Rightarrow> e)"
  "bestScore (rankVotes_fl votes n) =
     snd (case sort_key (\<lambda>e. - snd e) votes of [] \<Rightarrow> (''unknown'', 0) | e # _ \<Rightarrow> e)"
  "secondScore (rankVotes_fl votes n) =
     (case sort_key (\<lambda>e. - snd e) votes of _ # e # _ \<Rightarrow> snd e | _ \<Rightarrow> 0)"
  "voteTotal (rankVotes_fl votes n) =
     foldl (\<lambda>sum e. fl (sum + snd e)) 0 (sort_key (\<lambda>e. - snd e) votes)"
  "margin (rankVotes_fl votes n) =
     fl (bestScore (rankVotes_fl votes n) - secondScore (rankVotes_fl votes n))"
  "certainty (rankVotes_fl votes n) =
     (if voteTotal (rankVotes_fl votes n) > 0
      then fl (bestScore (rankVotes_fl votes n) / voteTotal (rankVotes_fl votes n)) else 0)"
  "prototypeWeight (rankVotes_fl votes n) = min (fl (real n / 10)) 1"
  "conf (rankVotes_fl votes n) =
     max 1 (min 99 (round (fl (blend_fl (certainty (rankVotes_fl votes n))
        (margin (rankVotes_fl votes n)) (prototypeWeight (rankVotes_fl votes n)) * 100))))"
  "lowConfidence (rankVotes_fl votes n) =
     (conf (rankVotes_fl votes n) < 60 \<or> margin (rankVotes_fl votes n) < fl 0.12)"
  by (simp_all only: rankVotes_fl_def Let_def ranking.select_convs blend_fl_def)

lemma rankVotes_fl_same:
  "bestLabel (rankVotes_fl votes n) = bestLabel (rankVotes votes n)"
  "bestScore (rankVotes_fl votes n) = bestScore (rankVotes votes n)"
  "secondScore (rankVotes_fl votes n) = secondScore (rankVotes votes n)"
  by (simp_all only: rankVotes_fl_fields rankVotes_fields)

lemma foldl_snd_double_sum:
  "foldl (\<lambda>sum e. fl (sum + snd e)) a xs = foldl (\<lambda>sum value. fl (sum + value)) a (map snd xs)"
  by (induction xs arbitrary: a) simp_all

lemma voteTotal_fl:
  "voteTotal (rankVotes_fl votes n) = double_sum (map snd (sort_key (\<lambda>e. - snd e) votes))"
  by (simp only: rankVotes_fl_fields(4) foldl_snd_double_sum double_sum_def)

lemma conf_fl_bounds: "1 \<le> conf (rankVotes_fl votes n) \<and> conf (rankVotes_fl votes n) \<le> 99"
  unfolding rankVotes_fl_fields(8) by linarith

text \<open>
  The doubles \<^verbatim>\<open>0.01\<close> and \<^verbatim>\<open>0.99\<close>; their products with \<open>100\<close> are rounded to \<open>1\<close> and
  to \<open>99\<close>, and rounding is monotone, so the clamp of the specification changes nothing
  in doubles either.
\<close>

lemma fl_001: "fl 0.01 = 5764607523034235 / 2 ^ 59"
  by (rule fl_eval[where m = 5764607523034235 and p = 59]) simp_all

lemma fl_099: "fl 0.99 = 4458563631096791 / 2 ^ 52"
  by (rule fl_eval[where m = 8917127262193582 and p = 53]) simp_all

lemma fl_001_100: "fl ((5764607523034235 / 2 ^ 59) * 100) = 1"
  by (rule fl_eval[where m = 4503599627370496 and p = 52]) simp_all

lemma fl_099_100: "fl ((4458563631096791 / 2 ^ 52) * 100) = 99"
  by (rule fl_eval[where m = 6966505673588736 and p = 46]) simp_all

lemma conf_clamp_fl:
  "max 1 (min 99 (round (fl (x * 100)))) =
   max 1 (min 99 (round (fl (100 * spec_clamp x (fl 0.01) (fl 0.99)))))"
proof -
  have lh: "fl 0.01 \<le> fl 0.99" unfolding fl_001 fl_099 by simp
  consider "x < fl 0.01" | "fl 0.01 \<le> x \<and> x \<le> fl 0.99" | "fl 0.99 < x" by linarith
  then show ?thesis
  proof cases
    case 1
    then have "x * 100 \<le> fl 0.01 * 100" by simp
    then have "fl (x * 100) \<le> fl (fl 0.01 * 100)" by (rule fl_mono)
    then have "fl (x * 100) \<le> 1" unfolding fl_001 fl_001_100 .
    then have "round (fl (x * 100)) \<le> round (1::real)" by (rule round_mono)
    then have a: "round (fl (x * 100)) \<le> 1" by simp
    have "spec_clamp x (fl 0.01) (fl 0.99) = fl 0.01" using 1 lh by (simp add: spec_clamp_def)
    then have "fl (100 * spec_clamp x (fl 0.01) (fl 0.99)) = fl (fl 0.01 * 100)"
      by (simp add: mult.commute)
    then have "fl (100 * spec_clamp x (fl 0.01) (fl 0.99)) = 1" unfolding fl_001 fl_001_100 .
    then have "round (fl (100 * spec_clamp x (fl 0.01) (fl 0.99))) = round (1::real)"
      by (rule arg_cong)
    then have b: "round (fl (100 * spec_clamp x (fl 0.01) (fl 0.99))) = 1" by simp
    from a b show ?thesis by linarith
  next
    case 2
    then have "spec_clamp x (fl 0.01) (fl 0.99) = x" by (simp add: spec_clamp_def)
    then have e: "100 * spec_clamp x (fl 0.01) (fl 0.99) = x * 100" by simp
    show ?thesis unfolding e ..
  next
    case 3
    then have "fl 0.99 * 100 \<le> x * 100" by simp
    then have "fl (fl 0.99 * 100) \<le> fl (x * 100)" by (rule fl_mono)
    then have "99 \<le> fl (x * 100)" unfolding fl_099 fl_099_100 .
    then have "round (99::real) \<le> round (fl (x * 100))" by (rule round_mono)
    then have a: "99 \<le> round (fl (x * 100))" by simp
    have "spec_clamp x (fl 0.01) (fl 0.99) = fl 0.99" using 3 lh by (simp add: spec_clamp_def)
    then have "fl (100 * spec_clamp x (fl 0.01) (fl 0.99)) = fl (fl 0.99 * 100)"
      by (simp add: mult.commute)
    then have "fl (100 * spec_clamp x (fl 0.01) (fl 0.99)) = 99" unfolding fl_099 fl_099_100 .
    then have "round (fl (100 * spec_clamp x (fl 0.01) (fl 0.99))) = round (99::real)"
      by (rule arg_cong)
    then have b: "round (fl (100 * spec_clamp x (fl 0.01) (fl 0.99))) = 99" by simp
    from a b show ?thesis by linarith
  qed
qed

text \<open>In doubles too there is one prototype for every label of the dataset.\<close>

lemma keys_byLabel_step_fl:
  "fst ` set (byLabel_step_fl acc item) = insert (sample.label item) (fst ` set acc)"
  by (auto simp: byLabel_step_fl_def dom_update split: option.splits dest: weak_map_of_SomeI
      simp: map_of_eq_None_iff)

lemma distinct_byLabel_step_fl:
  "distinct (map fst acc) \<Longrightarrow> distinct (map fst (byLabel_step_fl acc item))"
  by (auto simp: byLabel_step_fl_def distinct_update map_of_eq_None_iff split: option.splits)

lemma keys_byLabel_fl:
  "fst ` set (foldl byLabel_step_fl acc ds) = fst ` set acc \<union> sample.label ` set ds"
  by (induction ds arbitrary: acc) (auto simp: keys_byLabel_step_fl)

lemma distinct_byLabel_fl:
  "distinct (map fst acc) \<Longrightarrow> distinct (map fst (foldl byLabel_step_fl acc ds))"
  by (induction ds arbitrary: acc) (simp_all add: distinct_byLabel_step_fl)

lemma label_finish_bucket_fl: "prototype.label (finish_bucket_fl e) = fst e"
  by (cases e) (simp add: finish_bucket_fl_def)

lemma labels_buildPrototypes_fl:
  "map prototype.label (buildPrototypes_fl ds) = map fst (foldl byLabel_step_fl [] ds)"
  by (simp add: buildPrototypes_fl_def label_finish_bucket_fl cong: map_cong)

lemma length_buildPrototypes_fl: "length (buildPrototypes_fl ds) = card (sample.label ` set ds)"
proof -
  have d: "distinct (map prototype.label (buildPrototypes_fl ds))"
    by (simp add: labels_buildPrototypes_fl distinct_byLabel_fl)
  have "set (map prototype.label (buildPrototypes_fl ds)) = sample.label ` set ds"
    unfolding labels_buildPrototypes_fl by (simp add: keys_byLabel_fl)
  then have "card (sample.label ` set ds) = card (set (map prototype.label (buildPrototypes_fl ds)))"
    by simp
  also have "\<dots> = length (map prototype.label (buildPrototypes_fl ds))"
    by (rule distinct_card[OF d])
  finally show ?thesis by simp
qed

text \<open>
  Claim C2, as amended. In exact arithmetic, for a meaningful drawing and a non-empty
  dataset, the confidence shown is
  \<open>round(100 \<cdot> clamp(certainty \<cdot> 0.65 + margin \<cdot> 0.25 + prototypeWeight \<cdot> 0.10, 0.01, 0.99))\<close>
  clamped to \<open>[1, 99]\<close> (and lies in that range), where the certainty is the best tally
  divided by the sum of all tallies, the margin is the best tally minus the second one
  (\<open>0\<close> when there is one label only), the best tally is the largest and the second the
  largest of the others, and the prototype weight is the number of distinct labels of the
  dataset over ten, capped at \<open>1\<close>.

  In doubles, for every \<^verbatim>\<open>Map\<close> of votes that holds numbers (at most \<open>2\<^sup>2\<^sup>0\<close> tallies
  between \<open>0\<close> and \<open>2\<^sup>5\<^sup>0\<^sup>0\<close>, so that no sum overflows; the tallies of the program are at
  most \<open>198\<close>, nine votes of \<open>20\<close> and one of \<open>18\<close>) and the prototypes of the dataset, the
  confidence is the same formula with every operation
  rounded, the products and sums taken in the order of the source; it lies in
  \<open>[1, 99]\<close>; the margin is the rounded difference of the same two tallies; the prototype
  weight is the rounded tenth of the number of distinct labels, capped at \<open>1\<close>; and the
  certainty is the rounded quotient of the best tally by the rounded sum of the tallies
  when that sum is positive, and \<open>0\<close> when it is \<open>0\<close>.
\<close>

theorem confidence_formula:
  assumes "hasMeaningfulDrawing (getDrawingStats st)" and "dataset st \<noteq> []"
  shows "confidence (guessDrawing st) =
           max 1 (min 99 (round (100 * spec_clamp
             (certainty (classify st) * 0.65 + margin (classify st) * 0.25 +
              prototypeWeight (classify st) * 0.1) 0.01 0.99)))
     \<and> 1 \<le> confidence (guessDrawing st) \<and> confidence (guessDrawing st) \<le> 99
     \<and> certainty (classify st) = bestScore (classify st) / voteTotal (classify st)
     \<and> margin (classify st) = bestScore (classify st) - secondScore (classify st)
     \<and> prototypeWeight (classify st) =
           min (real (card (sample.label ` set (dataset st))) / 10) 1
     \<and> voteTotal (classify st) = sum_list (map snd (tallies st))
     \<and> bestScore (classify st) = Max (snd ` set (tallies st))
     \<and> secondScore (classify st) =
           (if length (tallies st) < 2 then 0
            else Max (set_mset (mset (map snd (tallies st)) - {#bestScore (classify st)#})))
     \<and> (length votes \<le> 2 ^ 20 \<and> (\<forall>e \<in> set votes. 0 \<le> snd e \<and> snd e \<le> 2 ^ 500) \<longrightarrow>
         (let r = rankVotes_fl votes (length (buildPrototypes_fl (dataset st))) in
          conf r = max 1 (min 99 (round (fl (100 * spec_clamp
                     (blend_fl (certainty r) (margin r) (prototypeWeight r)) (fl 0.01) (fl 0.99)))))
          \<and> 1 \<le> conf r \<and> conf r \<le> 99
          \<and> certainty r = (if 0 < voteTotal r then fl (bestScore r / voteTotal r) else 0)
          \<and> margin r = fl (bestScore r - secondScore r)
          \<and> prototypeWeight r = min (fl (real (card (sample.label ` set (dataset st))) / 10)) 1
          \<and> voteTotal r = double_sum (map snd (sort_key (\<lambda>e. - snd e) votes))
          \<and> bestScore r = bestScore (rankVotes votes (length (buildPrototypes (dataset st))))
          \<and> secondScore r = secondScore (rankVotes votes (length (buildPrototypes (dataset st))))))"
proof -
  let ?r = "classify st"
  have c: "confidence (guessDrawing st) = conf ?r"
    by (simp add: guess_nonempty[OF assms])
  have 1: "conf ?r = max 1 (min 99 (round (100 * spec_clamp
             (certainty ?r * 0.65 + margin ?r * 0.25 + prototypeWeight ?r * 0.1) 0.01 0.99)))"
    unfolding classify_tallies
    by (subst rankVotes_fields(8)) (simp only: conf_clamp)
  have 2: "1 \<le> conf ?r \<and> conf ?r \<le> 99"
    unfolding classify_tallies by (rule conf_bounds)
  have 3: "certainty ?r = bestScore ?r / voteTotal ?r"
    using classify_total_pos[OF assms(2)] unfolding classify_tallies
    by (subst rankVotes_fields(6)) simp
  have 4: "margin ?r = bestScore ?r - secondScore ?r"
    unfolding classify_tallies by (rule rankVotes_fields(5))
  have 5: "prototypeWeight ?r = min (real (card (sample.label ` set (dataset st))) / 10) 1"
    unfolding classify_tallies by (simp add: rankVotes_fields(7) length_buildPrototypes)
  have 6: "voteTotal ?r = sum_list (map snd (tallies st))"
    unfolding classify_tallies by (rule voteTotal_sum)
  have 7: "bestScore ?r = Max (snd ` set (tallies st))"
    unfolding classify_tallies by (rule bestScore_Max[OF tallies_nonempty[OF assms(2)]])
  have 8: "secondScore ?r =
           (if length (tallies st) < 2 then 0
            else Max (set_mset (mset (map snd (tallies st)) - {#bestScore ?r#})))"
    unfolding classify_tallies
    by (cases "length (tallies st) < 2") (simp_all add: secondScore_single secondScore_Max)
  from 2 have lo: "1 \<le> conf ?r" and hi: "conf ?r \<le> 99" by blast+
  define n where "n = length (buildPrototypes_fl (dataset st))"
  define r where "r = rankVotes_fl votes n"
  have d1: "conf r = max 1 (min 99 (round (fl (100 * spec_clamp
                     (blend_fl (certainty r) (margin r) (prototypeWeight r)) (fl 0.01) (fl 0.99)))))"
    unfolding r_def by (subst rankVotes_fl_fields(8)) (rule conf_clamp_fl)
  have d2: "1 \<le> conf r" and d3: "conf r \<le> 99"
    unfolding r_def using conf_fl_bounds[of votes n] by blast+
  have d4: "certainty r = (if 0 < voteTotal r then fl (bestScore r / voteTotal r) else 0)"
    unfolding r_def by (rule rankVotes_fl_fields(6))
  have d5: "margin r = fl (bestScore r - secondScore r)"
    unfolding r_def by (rule rankVotes_fl_fields(5))
  have d6: "prototypeWeight r = min (fl (real (card (sample.label ` set (dataset st))) / 10)) 1"
    unfolding r_def n_def rankVotes_fl_fields(7) length_buildPrototypes_fl ..
  have d7: "voteTotal r = double_sum (map snd (sort_key (\<lambda>e. - snd e) votes))"
    unfolding r_def by (rule voteTotal_fl)
  have d8: "bestScore r = bestScore (rankVotes votes (length (buildPrototypes (dataset st))))"
    unfolding r_def by (simp only: rankVotes_fl_fields(2) rankVotes_fields(2))
  have d9: "secondScore r = secondScore (rankVotes votes (length (buildPrototypes (dataset st))))"
    unfolding r_def by (simp only: rankVotes_fl_fields(3) rankVotes_fields(3))
  have d0: "(let r = rankVotes_fl votes (length (buildPrototypes_fl (dataset st))) in
          conf r = max 1 (min 99 (round (fl (100 * spec_clamp
                     (blend_fl (certainty r) (margin r) (prototypeWeight r)) (fl 0.01) (fl 0.99)))))
          \<and> 1 \<le> conf r \<and> conf r \<le> 99
          \<and> certainty r = (if 0 < voteTotal r then fl (bestScore r / voteTotal r) else 0)
          \<and> margin r = fl (bestScore r - secondScore r)
          \<and> prototypeWeight r = min (fl (real (card (sample.label ` set (dataset st))) / 10)) 1
          \<and> voteTotal r = double_sum (map snd (sort_key (\<lambda>e. - snd e) votes))
          \<and> bestScore r = bestScore (rankVotes votes (length (buildPrototypes (dataset st))))
          \<and> secondScore r = secondScore (rankVotes votes (length (buildPrototypes (dataset st)))))"
    unfolding Let_def r_def[unfolded n_def, symmetric]
    by (intro conjI) (fact d1 d2 d3 d4 d5 d6 d7 d8 d9)+
  have d: "length votes \<le> 2 ^ 20 \<and> (\<forall>e \<in> set votes. 0 \<le> snd e \<and> snd e \<le> 2 ^ 500) \<longrightarrow>
         (let r = rankVotes_fl votes (length (buildPrototypes_fl (dataset st))) in
          conf r = max 1 (min 99 (round (fl (100 * spec_clamp
                     (blend_fl (certainty r) (margin r) (prototypeWeight r)) (fl 0.01) (fl 0.99)))))
          \<and> 1 \<le> conf r \<and> conf r \<le> 99
          \<and> certainty r = (if 0 < voteTotal r then fl (bestScore r / voteTotal r) else 0)
          \<and> margin r = fl (bestScore r - secondScore r)
          \<and> prototypeWeight r = min (fl (real (card (sample.label ` set (dataset st))) / 10)) 1
          \<and> voteTotal r = double_sum (map snd (sort_key (\<lambda>e. - snd e) votes))
          \<and> bestScore r = bestScore (rankVotes votes (length (buildPrototypes (dataset st))))
          \<and> secondScore r = secondScore (rankVotes votes (length (buildPrototypes (dataset st)))))"
    by (rule impI) (rule d0)
  show ?thesis unfolding c
    by (intro conjI) (fact 1 lo hi 3 4 5 6 7 8 d)+
qed

text \<open>
  The ranking of the two tallies \<open>close_votes\<close> with two prototypes, step by step in
  doubles: the weighted sum is rounded to \<open>0.595\<close> and its product with \<open>100\<close> to \<open>59.5\<close>.
\<close>

lemma close_first: "fl (0 + (1895229583782139 / 2 ^ 51)) = 1895229583782139 / 2 ^ 51"
  by (rule fl_eval[where m = 7580918335128556 and p = 53]) simp_all

lemma close_total: "fl ((1895229583782139 / 2 ^ 51) + (6504692398128027 / 2 ^ 54)) = 5416632267096285 / 2 ^ 52"
  by (rule fl_eval[where m = 5416632267096285 and p = 52]) simp_all

lemma close_margin: "fl ((1895229583782139 / 2 ^ 51) - (6504692398128027 / 2 ^ 54)) = 8657144272129085 / 2 ^ 54"
  by (rule fl_eval[where m = 8657144272129085 and p = 54]) simp_all

lemma close_certainty: "fl ((1895229583782139 / 2 ^ 51) / (5416632267096285 / 2 ^ 52)) = 3151535798046103 / 2 ^ 52"
  by (rule fl_eval[where m = 6303071596092206 and p = 53]) simp_all

lemma fl_two_tenths: "fl (real 2 / 10) = 3602879701896397 / 2 ^ 54"
  by (rule fl_eval[where m = 7205759403792794 and p = 55]) simp_all

lemma fl_065: "fl 0.65 = 5854679515581645 / 2 ^ 53"
  by (rule fl_eval[where m = 5854679515581645 and p = 53]) simp_all

lemma fl_025: "fl 0.25 = 1 / 2 ^ 2"
  by (rule fl_eval[where m = 4503599627370496 and p = 54]) simp_all

lemma fl_01: "fl 0.1 = 3602879701896397 / 2 ^ 55"
  by (rule fl_eval[where m = 7205759403792794 and p = 56]) simp_all

lemma close_term_1: "fl ((3151535798046103 / 2 ^ 52) * (5854679515581645 / 2 ^ 53)) = 2048498268729967 / 2 ^ 52"
  by (rule fl_eval[where m = 8193993074919868 and p = 54]) simp_all

lemma close_term_2: "fl ((8657144272129085 / 2 ^ 54) * (1 / 2 ^ 2)) = 8657144272129085 / 2 ^ 56"
  by (rule fl_eval[where m = 8657144272129085 and p = 56]) simp_all

lemma close_term_3: "fl ((3602879701896397 / 2 ^ 54) * (3602879701896397 / 2 ^ 55)) = 1441151880758559 / 2 ^ 56"
  by (rule fl_eval[where m = 5764607523034236 and p = 58]) simp_all

lemma close_sum_1: "fl ((2048498268729967 / 2 ^ 52) + (8657144272129085 / 2 ^ 56)) = 2589569785738035 / 2 ^ 52"
  by (rule fl_eval[where m = 5179139571476070 and p = 53]) simp_all

lemma close_sum_2: "fl ((2589569785738035 / 2 ^ 52) + (1441151880758559 / 2 ^ 56)) = 2679641778285445 / 2 ^ 52"
  by (rule fl_eval[where m = 5359283556570890 and p = 53]) simp_all

lemma close_scaled: "fl ((2679641778285445 / 2 ^ 52) * 100) = 119 / 2"
  by (rule fl_eval[where m = 8373880557142016 and p = 47]) simp_all

lemma fl_one_tenth: "fl (real 1 / 10) = 3602879701896397 / 2 ^ 55"
  by (rule fl_eval[where m = 7205759403792794 and p = 56]) simp_all

lemma zero_term_3: "fl ((3602879701896397 / 2 ^ 55) * (3602879701896397 / 2 ^ 55)) = 1441151880758559 / 2 ^ 57"
  by (rule fl_eval[where m = 5764607523034236 and p = 59]) simp_all

lemma zero_scaled: "fl ((1441151880758559 / 2 ^ 57) * 100) = 4503599627370497 / 2 ^ 52"
  by (rule fl_eval[where m = 4503599627370497 and p = 52]) simp_all

lemma sort_two_desc:
  assumes "v2 \<le> v1"
  shows "sort_key (\<lambda>e. - snd e) [(k1, v1), (k2, v2 :: real)] = [(k1, v1), (k2, v2)]"
  using assms by simp

lemma rank_fl_two:
  assumes "v2 \<le> v1"
  shows "bestLabel (rankVotes_fl [(k1, v1), (k2, v2)] n) = k1"
    and "bestScore (rankVotes_fl [(k1, v1), (k2, v2)] n) = v1"
    and "secondScore (rankVotes_fl [(k1, v1), (k2, v2)] n) = v2"
    and "voteTotal (rankVotes_fl [(k1, v1), (k2, v2)] n) = fl (fl (0 + v1) + v2)"
  unfolding rankVotes_fl_fields sort_two_desc[OF assms] by simp_all

lemma close_ranking:
  "bestScore (rankVotes_fl close_votes 2) = (1895229583782139 / 2 ^ 51)"
  "secondScore (rankVotes_fl close_votes 2) = (6504692398128027 / 2 ^ 54)"
  "voteTotal (rankVotes_fl close_votes 2) = 5416632267096285 / 2 ^ 52"
  "margin (rankVotes_fl close_votes 2) = 8657144272129085 / 2 ^ 54"
  "certainty (rankVotes_fl close_votes 2) = 3151535798046103 / 2 ^ 52"
  "prototypeWeight (rankVotes_fl close_votes 2) = 3602879701896397 / 2 ^ 54"
proof -
  have le: "(6504692398128027 / 2 ^ 54) \<le> ((1895229583782139 / 2 ^ 51) :: real)" by simp
  show b: "bestScore (rankVotes_fl close_votes 2) = (1895229583782139 / 2 ^ 51)"
    unfolding close_votes_def by (rule rank_fl_two(2)[OF le])
  show s: "secondScore (rankVotes_fl close_votes 2) = (6504692398128027 / 2 ^ 54)"
    unfolding close_votes_def by (rule rank_fl_two(3)[OF le])
  show t: "voteTotal (rankVotes_fl close_votes 2) = 5416632267096285 / 2 ^ 52"
    unfolding close_votes_def rank_fl_two(4)[OF le] close_first close_total by (rule refl)
  show "margin (rankVotes_fl close_votes 2) = 8657144272129085 / 2 ^ 54"
    unfolding rankVotes_fl_fields(5) b s close_margin by (rule refl)
  have pos: "(0::real) < 5416632267096285 / 2 ^ 52" by simp
  show "certainty (rankVotes_fl close_votes 2) = 3151535798046103 / 2 ^ 52"
    unfolding rankVotes_fl_fields(6) b t if_P[OF pos] close_certainty by (rule refl)
  have "min (3602879701896397 / 2 ^ 54) (1::real) = 3602879701896397 / 2 ^ 54" by simp
  then show "prototypeWeight (rankVotes_fl close_votes 2) = 3602879701896397 / 2 ^ 54"
    unfolding rankVotes_fl_fields(7) fl_two_tenths .
qed

lemma close_conf: "conf (rankVotes_fl close_votes 2) = 60"
proof -
  have x: "blend_fl (3151535798046103 / 2 ^ 52) (8657144272129085 / 2 ^ 54) (3602879701896397 / 2 ^ 54) = (2679641778285445 / 2 ^ 52)"
    unfolding blend_fl_def fl_065 fl_025 fl_01 close_term_1 close_term_2 close_term_3
      close_sum_1 close_sum_2 by (rule refl)
  have "conf (rankVotes_fl close_votes 2) = max 1 (min 99 (round (fl ((2679641778285445 / 2 ^ 52) * 100))))"
    unfolding rankVotes_fl_fields(8) close_ranking x ..
  also have "\<dots> = max 1 (min 99 (round (119 / 2 :: real)))" unfolding close_scaled ..
  also have "\<dots> = 60" by (simp add: round_def)
  finally show ?thesis .
qed

lemma close_exact: "conf (rankVotes close_votes 2) = 59"
proof -
  have le: "(6504692398128027 / 2 ^ 54) \<le> ((1895229583782139 / 2 ^ 51) :: real)" by simp
  have s: "sort_key (\<lambda>e. - snd e) close_votes = close_votes"
    unfolding close_votes_def by (rule sort_two_desc[OF le])
  have b: "bestScore (rankVotes close_votes 2) = (1895229583782139 / 2 ^ 51)"
    unfolding rankVotes_fields(2) s by (simp add: close_votes_def)
  have e: "secondScore (rankVotes close_votes 2) = (6504692398128027 / 2 ^ 54)"
    unfolding rankVotes_fields(3) s by (simp add: close_votes_def)
  have t: "voteTotal (rankVotes close_votes 2) = (1895229583782139 / 2 ^ 51) + (6504692398128027 / 2 ^ 54)"
    unfolding voteTotal_sum by (simp add: close_votes_def)
  have p: "prototypeWeight (rankVotes close_votes 2) = 1 / 5"
    unfolding rankVotes_fields(7) by simp
  have m: "margin (rankVotes close_votes 2) = (1895229583782139 / 2 ^ 51) - (6504692398128027 / 2 ^ 54)"
    unfolding rankVotes_fields(5) b e ..
  have c: "certainty (rankVotes close_votes 2) = (1895229583782139 / 2 ^ 51) / ((1895229583782139 / 2 ^ 51) + (6504692398128027 / 2 ^ 54))"
    unfolding rankVotes_fields(6) b t by simp
  show ?thesis unfolding rankVotes_fields(8) c m p by (simp add: round_def)
qed

text \<open>The ranking of a \<^verbatim>\<open>Map\<close> whose votes are all \<open>0\<close>, with one prototype.\<close>

lemma zero_ranking:
  "voteTotal (rankVotes_fl zero_votes 1) = 0"
  "bestScore (rankVotes_fl zero_votes 1) = 0"
  "certainty (rankVotes_fl zero_votes 1) = 0"
  "margin (rankVotes_fl zero_votes 1) = 0"
  "prototypeWeight (rankVotes_fl zero_votes 1) = 3602879701896397 / 2 ^ 55"
  "conf (rankVotes_fl zero_votes 1) = 1"
proof -
  show t: "voteTotal (rankVotes_fl zero_votes 1) = 0"
    unfolding rankVotes_fl_fields(4) by (simp add: zero_votes_def fl_zero)
  show b: "bestScore (rankVotes_fl zero_votes 1) = 0"
    unfolding rankVotes_fl_fields(2) by (simp add: zero_votes_def)
  have s: "secondScore (rankVotes_fl zero_votes 1) = 0"
    unfolding rankVotes_fl_fields(3) by (simp add: zero_votes_def)
  show c: "certainty (rankVotes_fl zero_votes 1) = 0"
    unfolding rankVotes_fl_fields(6) t by simp
  show m: "margin (rankVotes_fl zero_votes 1) = 0"
    unfolding rankVotes_fl_fields(5) b s by (simp add: fl_zero)
  have "min (3602879701896397 / 2 ^ 55) (1::real) = 3602879701896397 / 2 ^ 55" by simp
  then show p: "prototypeWeight (rankVotes_fl zero_votes 1) = 3602879701896397 / 2 ^ 55"
    unfolding rankVotes_fl_fields(7) fl_one_tenth .
  have "fl (0 * fl 0.65) = 0" "fl (0 * fl 0.25) = 0" "fl (0 + 0) = 0" by (simp_all add: fl_zero)
  then have "blend_fl 0 0 (3602879701896397 / 2 ^ 55) = fl (0 + fl ((3602879701896397 / 2 ^ 55) * fl 0.1))"
    unfolding blend_fl_def by (simp only:)
  also have "\<dots> = fl (0 + (1441151880758559 / 2 ^ 57))" unfolding fl_01 zero_term_3 ..
  also have "\<dots> = fl ((1441151880758559 / 2 ^ 57))" by simp
  also have "\<dots> = (1441151880758559 / 2 ^ 57)" using fl_idem[of "(3602879701896397 / 2 ^ 55) * (3602879701896397 / 2 ^ 55)"] unfolding zero_term_3 .
  finally have x: "blend_fl 0 0 (3602879701896397 / 2 ^ 55) = (1441151880758559 / 2 ^ 57)" .
  have "conf (rankVotes_fl zero_votes 1) = max 1 (min 99 (round (fl ((1441151880758559 / 2 ^ 57) * 100))))"
    unfolding rankVotes_fl_fields(8) c m p x ..
  also have "\<dots> = max 1 (min 99 (round (4503599627370497 / 2 ^ 52 :: real)))" unfolding zero_scaled ..
  also have "\<dots> = 1" by (simp add: round_def)
  finally show "conf (rankVotes_fl zero_votes 1) = 1" .
qed

text \<open>
  Claim C2 as stated fails on the tallies \<open>close_votes\<close> of two labels: the program
  multiplies the rounded weighted sum \<open>0.595\<close> by \<open>100\<close>, gets \<open>59.5\<close> and shows \<open>60\<close>,
  while the formula, evaluated exactly on the certainty, margin and prototype weight of the
  program, is below \<open>59.5\<close> and gives \<open>59\<close>; so does the exact ranking of the same
  tallies.
\<close>

theorem confidence_rounding_counterexample:
  "conf (rankVotes_fl close_votes 2) = 60
   \<and> max 1 (min 99 (round (100 * spec_clamp
        (certainty (rankVotes_fl close_votes 2) * 0.65 + margin (rankVotes_fl close_votes 2) * 0.25 +
         prototypeWeight (rankVotes_fl close_votes 2) * 0.1) 0.01 0.99))) = 59
   \<and> conf (rankVotes close_votes 2) = 59"
proof -
  have "max 1 (min 99 (round (100 * spec_clamp
        (certainty (rankVotes_fl close_votes 2) * 0.65 + margin (rankVotes_fl close_votes 2) * 0.25 +
         prototypeWeight (rankVotes_fl close_votes 2) * 0.1) 0.01 0.99))) = 59"
    unfolding close_ranking by (simp add: spec_clamp_def round_def)
  then show ?thesis using close_conf close_exact by blast
qed

section \<open>A dataset with one label\<close>

lemma distance_loop_self:
  "foldl (\<lambda>total i. let d = a ! i - a ! i in total + d * d) (t::real) xs = t"
  by (induction xs arbitrary: t) (simp_all add: Let_def)

lemma distance_self: "distance a a = 0"
  unfolding distance_def distance_loop_self by simp

lemma dot_self: "dot_product a a = sum_list (map (\<lambda>x. x * x) a)"
  by (simp add: dot_product_def zip_same_conv_map comp_def)

lemma cosineDistance_self:
  assumes "vector_norm a \<noteq> 0"
  shows "cosineDistance a a = 0"
proof -
  have nn: "0 \<le> sum_list (map (\<lambda>x. x * x) a)"
    by (intro sum_list_nonneg) auto
  have eq: "dot_product a a = vector_norm a * vector_norm a"
    unfolding vector_norm_def dot_self using nn by simp
  have nz: "vector_norm a * vector_norm a \<noteq> 0" using assms by simp
  show ?thesis
    unfolding cosineDistance_sums[OF refl] eq using nz by simp
qed

lemma featureDistance_self: "featureDistance f f = 0"
  by (simp add: featureDistance_def Let_def)

lemma sort_key_hd_min:
  assumes "xs \<noteq> []"
  shows "hd (sort_key f xs) \<in> set xs \<and> (\<forall>x \<in> set xs. f (hd (sort_key f xs)) \<le> f x)"
proof -
  have ne: "sort_key f xs \<noteq> []" using assms by (metis length_sort length_0_conv)
  then obtain e es where r: "sort_key f xs = e # es" by (cases "sort_key f xs") auto
  have "sorted (map f (sort_key f xs))" by (rule sorted_sort_key)
  then have "\<forall>x \<in> set (e # es). f e \<le> f x" unfolding r by auto
  then have "\<forall>x \<in> set xs. f e \<le> f x" by (metis r set_sort)
  moreover have "e \<in> set xs" by (metis r list.set_intros(1) set_sort)
  ultimately show ?thesis by (simp add: r)
qed

lemma nearest_has_close:
  assumes "s0 \<in> set ds" and "snd (scoreExample v fs s0) \<le> \<delta>"
  shows "\<exists>e \<in> set (nearest_of v fs ds). snd e \<le> \<delta>"
proof -
  let ?sc = "map (scoreExample v fs) ds"
  have ne: "?sc \<noteq> []" using assms(1) by auto
  have m: "scoreExample v fs s0 \<in> set ?sc" using assms(1) by simp
  from sort_key_hd_min[OF ne, of snd]
  have h: "snd (hd (sort_key snd ?sc)) \<le> snd (scoreExample v fs s0)" using m by blast
  have sne: "sort_key snd ?sc \<noteq> []" using ne by (metis length_sort length_0_conv)
  then have "hd (sort_key snd ?sc) \<in> set (take 9 (sort_key snd ?sc))"
    by (cases "sort_key snd ?sc") simp_all
  then show ?thesis unfolding nearest_of_def using h assms(2) by (intro bexI[of _ "hd (sort_key snd ?sc)"]) linarith+
qed

lemma label_scoreExample: "fst (scoreExample v fs s) = sample.label s"
  by (simp add: scoreExample_def Let_def)

lemma label_scorePrototype: "fst (scorePrototype v fs p) = prototype.label p"
  by (simp add: scorePrototype_def Let_def)

lemma nearest_labels: "fst ` set (nearest_of v fs ds) \<subseteq> sample.label ` set ds"
proof -
  have "set (nearest_of v fs ds) \<subseteq> set (map (scoreExample v fs) ds)"
    unfolding nearest_of_def by (metis set_take_subset set_sort)
  then have "fst ` set (nearest_of v fs ds) \<subseteq> fst ` set (map (scoreExample v fs) ds)"
    by (rule image_mono)
  also have "fst ` set (map (scoreExample v fs) ds) = sample.label ` set ds"
    by (simp add: image_image label_scoreExample)
  finally show ?thesis .
qed

lemma singleton_alist:
  assumes "distinct (map fst xs)" and "fst ` set xs = {k}"
  shows "\<exists>v. xs = [(k, v)]"
proof (cases xs)
  case Nil
  then show ?thesis using assms(2) by simp
next
  case (Cons x ys)
  have fx: "fst x = k" using assms(2) Cons by auto
  have "ys = []"
  proof (rule ccontr)
    assume "ys \<noteq> []"
    then obtain y where y: "y \<in> set ys" by (cases ys) auto
    then have "fst y = k" using assms(2) Cons by auto
    then have "fst x \<in> fst ` set ys" using fx y by force
    then show False using assms(1) Cons by simp
  qed
  then show ?thesis using Cons fx by (cases x) simp
qed

lemma single_label_tally:
  assumes "\<forall>s \<in> set ds. sample.label s = l" and "s0 \<in> set ds"
    and "snd (scoreExample v fs s0) \<le> \<delta>" and "0.05 \<le> \<delta>"
  shows "\<exists>t. castVotes v fs ds (buildPrototypes ds) = [(l, t)] \<and> 1 / \<delta> \<le> t"
proof -
  let ?votes = "castVotes v fs ds (buildPrototypes ds)"
  have ne: "ds \<noteq> []" using assms(2) by auto
  have labs: "sample.label ` set ds = {l}" using assms(1,2) by auto
  have "fst ` set ?votes \<subseteq> {l}"
    unfolding castVotes_keys using nearest_labels[of v fs ds] set_prototype_labels[of ds] labs
    by (auto simp: label_scorePrototype image_iff) 
  moreover have "?votes \<noteq> []" by (rule castVotes_nonempty[OF ne])
  ultimately have "fst ` set ?votes = {l}" by (cases ?votes) auto
  from singleton_alist[OF castVotes_distinct this]
  obtain t where v: "?votes = [(l, t)]" by blast
  have t: "t = vote_weights 1 l (nearest_of v fs ds) +
               vote_weights 0.9 l (map (scorePrototype v fs) (buildPrototypes ds))"
    using castVotes_vote_of[of v fs ds "buildPrototypes ds" l] v by (simp add: vote_of_def)
  from nearest_has_close[OF assms(2,3)]
  obtain e where e: "e \<in> set (nearest_of v fs ds)" "snd e \<le> \<delta>" by blast
  have "fst e = l" using e(1) nearest_labels[of v fs ds] labs by auto
  from vote_weights_pos[of 1 e, OF _ e(1) this]
  have "1 / max (snd e) 0.05 \<le> vote_weights 1 l (nearest_of v fs ds)" by simp
  moreover have "1 / \<delta> \<le> 1 / max (snd e) 0.05"
    using e(2) assms(4) by (intro divide_left_mono) (auto simp: max_def)
  moreover have "0 \<le> vote_weights 0.9 l (map (scorePrototype v fs) (buildPrototypes ds))"
    by (rule vote_weights_nonneg) simp
  ultimately have "1 / \<delta> \<le> t" using t by linarith
  with v show ?thesis by blast
qed

lemma rank_single:
  assumes "0 < t"
  shows "bestLabel (rankVotes [(l, t)] n) = l"
    and "margin (rankVotes [(l, t)] n) = t"
    and "certainty (rankVotes [(l, t)] n) = 1"
    and "conf (rankVotes [(l, t)] n) =
           max 1 (min 99 (round ((0.65 + t * 0.25 + min (real n / 10) 1 * 0.1) * 100)))"
proof -
  let ?r = "rankVotes [(l, t)] n"
  show "bestLabel ?r = l" by (simp add: rankVotes_fields(1))
  have b: "bestScore ?r = t" by (simp add: rankVotes_fields(2))
  have s: "secondScore ?r = 0" by (simp add: rankVotes_fields(3))
  have v: "voteTotal ?r = t" by (simp add: rankVotes_fields(4))
  show m: "margin ?r = t" by (simp add: rankVotes_fields(5) b s)
  show c: "certainty ?r = 1" using assms by (simp add: rankVotes_fields(6) b v)
  show "conf ?r = max 1 (min 99 (round ((0.65 + t * 0.25 + min (real n / 10) 1 * 0.1) * 100)))"
    by (simp add: rankVotes_fields(8) m c rankVotes_fields(7))
qed

lemma single_label_classify:
  assumes "\<forall>s \<in> set (dataset st). sample.label s = l" and "s0 \<in> set (dataset st)"
    and "blended_distance st s0 \<le> \<delta>" and "0.05 \<le> \<delta>"
  shows "\<exists>t. tallies st = [(l, t)] \<and> 1 / \<delta> \<le> t \<and> bestLabel (classify st) = l \<and>
             margin (classify st) = t \<and> certainty (classify st) = 1 \<and>
             conf (classify st) = max 1 (min 99 (round ((0.66 + t * 0.25) * 100)))"
proof -
  let ?v = "vec (getDrawingStats st)"
  let ?fs = "combineFeatures ?v (strokesRef st)"
  have d: "snd (scoreExample ?v ?fs s0) \<le> \<delta>"
    using assms(3) by (simp add: blended_distance_def Let_def)
  from single_label_tally[OF assms(1,2) d assms(4)]
  obtain t where t: "castVotes ?v ?fs (dataset st) (buildPrototypes (dataset st)) = [(l, t)]"
    and lo: "1 / \<delta> \<le> t" by blast
  have ty: "tallies st = [(l, t)]" using t by (simp add: tallies_def Let_def)
  have "0 < 1 / \<delta>" using assms(4) by simp
  then have pos: "0 < t" using lo by linarith
  have "sample.label ` set (dataset st) = {l}" using assms(1,2) by auto
  then have n: "length (buildPrototypes (dataset st)) = 1"
    by (simp add: length_buildPrototypes)
  have c: "classify st = rankVotes [(l, t)] 1"
    unfolding classify_tallies ty n ..
  have "conf (classify st) = max 1 (min 99 (round ((0.66 + t * 0.25) * 100)))"
    unfolding c rank_single(4)[OF pos] by (simp add: algebra_simps)
  with ty lo show ?thesis unfolding c by (simp add: rank_single[OF pos])
qed

lemma conf_of_margin:
  fixes t :: real
  assumes "cf = max 1 (min 99 (round ((0.66 + t * 0.25) * 100)))"
  shows "0 \<le> t \<Longrightarrow> 66 \<le> cf" and "20 \<le> t \<Longrightarrow> cf = 99"
proof -
  assume "0 \<le> t"
  then have "round (66::real) \<le> round ((0.66 + t * 0.25) * 100)" by (intro round_mono) simp
  then have "66 \<le> round ((0.66 + t * 0.25) * 100)" by simp
  then show "66 \<le> cf" using assms by linarith
next
  assume "20 \<le> t"
  then have "round (99::real) \<le> round ((0.66 + t * 0.25) * 100)" by (intro round_mono) simp
  then have "99 \<le> round ((0.66 + t * 0.25) * 100)" by simp
  then show "cf = 99" using assms by linarith
qed

lemma norm_ones: "vector_norm (replicate 256 1) = 16"
proof -
  have "sqrt 256 = 16" by (rule real_sqrt_unique) simp_all
  then show ?thesis by (simp add: vector_norm_def sum_list_replicate)
qed

lemma trained_near: "blended_distance (trained_app n) cat_sample = 0"
proof -
  have v: "vec (getDrawingStats (trained_app n)) = replicate 256 1"
    by (simp add: stats_trained vec_stats drawn_app_def initial_app_def vec_black)
  have s: "strokesRef (trained_app n) = [example_stroke]"
    by (simp add: trained_app_def drawn_app_def initial_app_def)
  have f: "item_features cat_sample = combineFeatures (replicate 256 1) [example_stroke]"
    by (simp add: item_features_def cat_sample_def)
  have c: "sample.vector cat_sample = replicate 256 1" by (simp add: cat_sample_def)
  have cd: "cosineDistance (replicate 256 1) (replicate 256 1) = 0"
    by (rule cosineDistance_self) (simp add: norm_ones)
  show ?thesis
    unfolding blended_distance_def Let_def v s scoreExample_def f c
    by (simp add: distance_self cd featureDistance_self)
qed

lemma trained_labels: "\<forall>s \<in> set (dataset (trained_app n)). sample.label s = ''cat''"
  by (simp add: trained_app_def cat_sample_def)

lemma trained_member: "0 < n \<Longrightarrow> cat_sample \<in> set (dataset (trained_app n))"
  by (simp add: trained_app_def)

lemma trained_classify:
  assumes "0 < n"
  shows "bestLabel (classify (trained_app n)) = ''cat''" and "20 \<le> margin (classify (trained_app n))"
    and "certainty (classify (trained_app n)) = 1" and "conf (classify (trained_app n)) = 99"
    and "prototypeWeight (classify (trained_app n)) = 1 / 10"
proof -
  have d: "blended_distance (trained_app n) cat_sample \<le> 0.05" by (simp add: trained_near)
  from single_label_classify[OF trained_labels trained_member[OF assms] d]
  obtain t where t: "20 \<le> t" "bestLabel (classify (trained_app n)) = ''cat''"
    "margin (classify (trained_app n)) = t" "certainty (classify (trained_app n)) = 1"
    "conf (classify (trained_app n)) = max 1 (min 99 (round ((0.66 + t * 0.25) * 100)))" by auto
  show "bestLabel (classify (trained_app n)) = ''cat''" by (rule t(2))
  show "20 \<le> margin (classify (trained_app n))" using t(1,3) by simp
  show "certainty (classify (trained_app n)) = 1" by (rule t(4))
  show "conf (classify (trained_app n)) = 99" by (rule conf_of_margin(2)[OF t(5) t(1)])
  have "sample.label ` set (dataset (trained_app n)) = {''cat''}"
    using trained_labels[of n] trained_member[OF assms] by auto
  then have "length (buildPrototypes (dataset (trained_app n))) = 1"
    by (simp add: length_buildPrototypes)
  then show "prototypeWeight (classify (trained_app n)) = 1 / 10"
    unfolding classify_tallies by (simp add: rankVotes_fields(7))
qed



text \<open>The ranking of the single tally \<open>198\<close> with one prototype, in doubles.\<close>

lemma strong_total: "fl (0 + 198) = 198"
  by (rule fl_eval[where m = 6966505673588736 and p = 45]) simp_all

lemma strong_certainty: "fl (198 / 198) = 1"
  by (rule fl_eval[where m = 4503599627370496 and p = 52]) simp_all

lemma strong_margin: "fl (198 - 0) = 198"
  by (rule fl_eval[where m = 6966505673588736 and p = 45]) simp_all

lemma strong_term_1: "fl (1 * (5854679515581645 / 2 ^ 53)) = 5854679515581645 / 2 ^ 53"
  by (rule fl_eval[where m = 5854679515581645 and p = 53]) simp_all

lemma strong_term_2: "fl (198 * (1 / 2 ^ 2)) = 99 / 2"
  by (rule fl_eval[where m = 6966505673588736 and p = 47]) simp_all

lemma strong_sum_1: "fl ((5854679515581645 / 2 ^ 53) + (99 / 2)) = 7057985041019699 / 2 ^ 47"
  by (rule fl_eval[where m = 7057985041019699 and p = 47]) simp_all

lemma strong_sum_2: "fl ((7057985041019699 / 2 ^ 47) + (1441151880758559 / 2 ^ 57)) = 1764848103975813 / 2 ^ 45"
  by (rule fl_eval[where m = 7059392415903252 and p = 47]) simp_all

lemma strong_scaled: "fl ((1764848103975813 / 2 ^ 45) * 100) = 5016"
  by (rule fl_eval[where m = 5515150324924416 and p = 40]) simp_all

lemma strong_ranking:
  "certainty (rankVotes_fl strong_votes 1) = 1"
  "margin (rankVotes_fl strong_votes 1) = 198"
  "prototypeWeight (rankVotes_fl strong_votes 1) = 3602879701896397 / 2 ^ 55"
  "conf (rankVotes_fl strong_votes 1) = 99"
proof -
  have t: "voteTotal (rankVotes_fl strong_votes 1) = 198"
    unfolding rankVotes_fl_fields(4) strong_votes_def by (simp add: fl_numeral)
  have b: "bestScore (rankVotes_fl strong_votes 1) = 198"
    unfolding rankVotes_fl_fields(2) by (simp add: strong_votes_def)
  have s: "secondScore (rankVotes_fl strong_votes 1) = 0"
    unfolding rankVotes_fl_fields(3) by (simp add: strong_votes_def)
  have pos: "(0::real) < 198" by simp
  show c: "certainty (rankVotes_fl strong_votes 1) = 1"
    unfolding rankVotes_fl_fields(6) b t if_P[OF pos] strong_certainty ..
  show m: "margin (rankVotes_fl strong_votes 1) = 198"
    unfolding rankVotes_fl_fields(5) b s strong_margin ..
  have "min (3602879701896397 / 2 ^ 55) (1::real) = 3602879701896397 / 2 ^ 55" by simp
  then show p: "prototypeWeight (rankVotes_fl strong_votes 1) = 3602879701896397 / 2 ^ 55"
    unfolding rankVotes_fl_fields(7) fl_one_tenth .
  have x: "blend_fl 1 198 (3602879701896397 / 2 ^ 55) = (1764848103975813 / 2 ^ 45)"
    unfolding blend_fl_def fl_065 fl_025 fl_01 strong_term_1 strong_term_2 zero_term_3
      strong_sum_1 strong_sum_2 by (rule refl)
  have "conf (rankVotes_fl strong_votes 1) = max 1 (min 99 (round (fl ((1764848103975813 / 2 ^ 45) * 100))))"
    unfolding rankVotes_fl_fields(8) c m p x ..
  also have "\<dots> = max 1 (min 99 (round (5016 :: real)))" unfolding strong_scaled ..
  also have "\<dots> = 99" by simp
  finally show "conf (rankVotes_fl strong_votes 1) = 99" .
qed

lemma overflow_meaningful: "hasMeaningfulDrawing (getDrawingStats overflow_app)"
proof -
  have "getDrawingStats overflow_app = getDrawingStats drawn_app"
    by (simp add: getDrawingStats_def overflow_app_def)
  then show ?thesis by (simp add: drawn_meaningful)
qed

lemma one_prototype_fl:
  "length (buildPrototypes_fl (dataset (trained_app 10))) = 1"
  "length (buildPrototypes_fl (dataset overflow_app)) = 1"
proof -
  have "sample.label ` set (dataset (trained_app 10)) = {''cat''}"
    by (simp add: trained_app_def cat_sample_def)
  then show "length (buildPrototypes_fl (dataset (trained_app 10))) = 1"
    unfolding length_buildPrototypes_fl by simp
  have "sample.label ` set (dataset overflow_app) = {''cat''}"
    by (simp add: overflow_app_def huge_sample_def)
  then show "length (buildPrototypes_fl (dataset overflow_app)) = 1"
    unfolding length_buildPrototypes_fl by simp
qed

theorem confidence_formula_witness:
  "hasMeaningfulDrawing (getDrawingStats (trained_app 10)) \<and> dataset (trained_app 10) \<noteq> []
   \<and> certainty (classify (trained_app 10)) = 1
   \<and> prototypeWeight (classify (trained_app 10)) = 1 / 10
   \<and> 20 \<le> margin (classify (trained_app 10))
   \<and> confidence (guessDrawing (trained_app 10)) = 99
   \<and> length (buildPrototypes_fl (dataset (trained_app 10))) = 1
   \<and> certainty (rankVotes_fl strong_votes 1) = 1
   \<and> margin (rankVotes_fl strong_votes 1) = 198
   \<and> conf (rankVotes_fl strong_votes 1) = 99
   \<and> hasMeaningfulDrawing (getDrawingStats overflow_app) \<and> dataset overflow_app \<noteq> []
   \<and> length (buildPrototypes_fl (dataset overflow_app)) = 1
   \<and> voteTotal (rankVotes_fl zero_votes 1) = 0
   \<and> certainty (rankVotes_fl zero_votes 1) = 0
   \<and> conf (rankVotes_fl zero_votes 1) = 1"
proof -
  let ?r = "classify (trained_app 10)"
  have ne: "dataset (trained_app 10) \<noteq> []" by (simp add: trained_app_def)
  have p: "0 < (10::nat)" by simp
  have m: "20 \<le> margin ?r" by (rule trained_classify(2)[OF p])
  note t = confidence_formula[OF trained_meaningful ne, where votes = strong_votes]
  have sb: "length strong_votes \<le> 2 ^ 20 \<and> (\<forall>e \<in> set strong_votes. 0 \<le> snd e \<and> snd e \<le> 2 ^ 500)"
    by (simp add: strong_votes_def)
  have zb: "length zero_votes \<le> 2 ^ 20 \<and> (\<forall>e \<in> set zero_votes. 0 \<le> snd e \<and> snd e \<le> 2 ^ 500)"
    by (simp add: zero_votes_def)
  have f: "confidence (guessDrawing (trained_app 10)) =
             max 1 (min 99 (round (100 * spec_clamp
               (certainty ?r * 0.65 + margin ?r * 0.25 + prototypeWeight ?r * 0.1) 0.01 0.99)))"
    by (rule conjunct1[OF t])
  have cl: "spec_clamp (certainty ?r * 0.65 + margin ?r * 0.25 + prototypeWeight ?r * 0.1) 0.01 0.99
              = 0.99"
    unfolding trained_classify(3)[OF p] trained_classify(5)[OF p] using m
    by (simp add: spec_clamp_def)
  have e: "confidence (guessDrawing (trained_app 10)) = 99"
    unfolding f cl by simp
  have s: "certainty (rankVotes_fl strong_votes 1) =
             (if 0 < voteTotal (rankVotes_fl strong_votes 1)
              then fl (bestScore (rankVotes_fl strong_votes 1) / voteTotal (rankVotes_fl strong_votes 1))
              else 0)"
    using t sb unfolding one_prototype_fl Let_def by blast
  have one: "0 < voteTotal (rankVotes_fl strong_votes 1)"
    using s strong_ranking(1) by (auto split: if_splits)
  have neo: "dataset overflow_app \<noteq> []" by (simp add: overflow_app_def)
  note z = confidence_formula[OF overflow_meaningful neo, where votes = zero_votes]
  have zc: "certainty (rankVotes_fl zero_votes 1) =
             (if 0 < voteTotal (rankVotes_fl zero_votes 1)
              then fl (bestScore (rankVotes_fl zero_votes 1) / voteTotal (rankVotes_fl zero_votes 1))
              else 0)"
    using z zb unfolding one_prototype_fl Let_def by blast
  have z0: "certainty (rankVotes_fl zero_votes 1) = 0"
    unfolding zc zero_ranking(1) by simp
  from e trained_meaningful[of 10] ne m trained_classify(3,5)[OF p] one_prototype_fl
    strong_ranking(1,2,4) overflow_meaningful neo zero_ranking(1,6) z0
  show ?thesis by simp
qed

section \<open>Prototypes and the order of the samples\<close>

lemma vsum_loop_length:
  "length (foldl (\<lambda>vs i. vs[i := vs ! i + v ! i]) vs js) = length (vs :: real list)"
  by (induction js arbitrary: vs) simp_all

lemma vsum_loop_nth:
  "i < length vs \<Longrightarrow>
   foldl (\<lambda>vs i. vs[i := vs ! i + v ! i]) vs [0..<n] ! i =
     (if i < n then vs ! i + v ! i else (vs ! i :: real))"
proof (induction n)
  case 0
  then show ?case by simp
next
  case (Suc n)
  then show ?case
    by (auto simp: vsum_loop_length nth_list_update less_Suc_eq)
qed

lemma add_features_commute:
  "add_features (add_features f a) b = add_features (add_features f b) a"
  by (simp add: add_features_def)

lemma bucket_add_commute: "bucket_add (bucket_add b s) t = bucket_add (bucket_add b t) s"
proof -
  have "vectorSum (bucket_add (bucket_add b s) t) = vectorSum (bucket_add (bucket_add b t) s)"
    by (rule nth_equalityI) (simp_all add: bucket_add_def vsum_loop_length vsum_loop_nth)
  then show ?thesis
    by (simp add: bucket_add_def add_features_commute)
qed

lemma foldl_bucket_add_mset:
  assumes "mset xs = mset ys"
  shows "foldl bucket_add b xs = foldl bucket_add b ys"
proof -
  have "fold (\<lambda>s b. bucket_add b s) xs = fold (\<lambda>s b. bucket_add b s) ys"
    by (rule fold_multiset_equiv[OF _ assms]) (simp add: fun_eq_iff bucket_add_commute)
  then show ?thesis by (simp add: foldl_conv_fold)
qed

lemma bucket_or_empty_step:
  "bucket_or_empty (byLabel_step acc a) l =
     (if l = sample.label a then bucket_add (bucket_or_empty acc l) a else bucket_or_empty acc l)"
  by (simp add: bucket_or_empty_def map_of_byLabel_step)

lemma filter_label_none:
  "l \<notin> sample.label ` set ds \<Longrightarrow> filter (\<lambda>s. sample.label s = l) ds = []"
  by (auto simp: filter_empty_conv)

lemma map_of_byLabel:
  "map_of (foldl byLabel_step acc ds) l =
     (if l \<in> sample.label ` set ds
      then Some (foldl bucket_add (bucket_or_empty acc l) (filter (\<lambda>s. sample.label s = l) ds))
      else map_of acc l)"
proof (induction ds arbitrary: acc)
  case Nil
  then show ?case by simp
next
  case (Cons a ds)
  have "map_of (foldl byLabel_step acc (a # ds)) l =
          map_of (foldl byLabel_step (byLabel_step acc a) ds) l" by simp
  also have "\<dots> =
     (if l \<in> sample.label ` set ds
      then Some (foldl bucket_add (bucket_or_empty (byLabel_step acc a) l)
                   (filter (\<lambda>s. sample.label s = l) ds))
      else map_of (byLabel_step acc a) l)"
    by (rule Cons.IH)
  also have "\<dots> =
     (if l \<in> sample.label ` set (a # ds)
      then Some (foldl bucket_add (bucket_or_empty acc l)
                   (filter (\<lambda>s. sample.label s = l) (a # ds)))
      else map_of acc l)"
    by (cases "l = sample.label a")
       (auto simp: bucket_or_empty_step map_of_byLabel_step filter_label_none)
  finally show ?case .
qed

lemma map_of_byLabel_mset:
  assumes "mset ds1 = mset ds2"
  shows "map_of (foldl byLabel_step [] ds1) = map_of (foldl byLabel_step [] ds2)"
proof
  fix l
  have s: "set ds1 = set ds2" using assms by (rule mset_eq_setD)
  have "mset (filter (\<lambda>s. sample.label s = l) ds1) = mset (filter (\<lambda>s. sample.label s = l) ds2)"
    using assms by (simp only: mset_filter)
  then have "foldl bucket_add b (filter (\<lambda>s. sample.label s = l) ds1) =
             foldl bucket_add b (filter (\<lambda>s. sample.label s = l) ds2)" for b
    by (rule foldl_bucket_add_mset)
  then show "map_of (foldl byLabel_step [] ds1) l = map_of (foldl byLabel_step [] ds2) l"
    by (simp add: map_of_byLabel s)
qed

lemma buckets_mset:
  assumes "mset ds1 = mset ds2"
  shows "set (foldl byLabel_step [] ds1) = set (foldl byLabel_step [] ds2)"
proof -
  have d1: "distinct (map fst (foldl byLabel_step [] ds1))" by (rule distinct_byLabel) simp
  have d2: "distinct (map fst (foldl byLabel_step [] ds2))" by (rule distinct_byLabel) simp
  show ?thesis
    using map_of_inject_set[OF d1 d2] map_of_byLabel_mset[OF assms] by simp
qed

lemma prototypes_mset:
  assumes "mset ds1 = mset ds2"
  shows "set (buildPrototypes ds1) = set (buildPrototypes ds2)"
  by (simp add: buildPrototypes_def buckets_mset[OF assms])

lemma find_distinct:
  assumes "distinct (map f xs)" and "p \<in> set xs"
  shows "find (\<lambda>q. f q = f p) xs = Some p"
  using assms by (induction xs) (auto simp: image_iff)

lemma find_same_set:
  assumes "distinct (map f xs)" and "distinct (map f ys)" and "set xs = set ys"
  shows "find (\<lambda>q. f q = l) xs = find (\<lambda>q. f q = l) ys"
proof (cases "\<exists>p \<in> set xs. f p = l")
  case True
  then obtain p where p: "p \<in> set xs" "f p = l" by blast
  have "find (\<lambda>q. f q = f p) xs = Some p" by (rule find_distinct[OF assms(1) p(1)])
  moreover have "find (\<lambda>q. f q = f p) ys = Some p"
    using p(1) assms(3) by (intro find_distinct[OF assms(2)]) simp
  ultimately show ?thesis using p(2) by simp
next
  case False
  then have "find (\<lambda>q. f q = l) xs = None" by (simp add: find_None_iff)
  moreover have "find (\<lambda>q. f q = l) ys = None" using False assms(3) by (simp add: find_None_iff)
  ultimately show ?thesis by simp
qed

text \<open>What a bucket holds after a run of samples.\<close>

lemma count_foldl_bucket:
  "bucket.count (foldl bucket_add b xs) = bucket.count b + length xs"
  by (induction xs arbitrary: b) (simp_all add: bucket_add_def)

lemma length_vectorSum_foldl:
  "length (vectorSum (foldl bucket_add b xs)) = length (vectorSum b)"
  by (induction xs arbitrary: b) (simp_all add: bucket_add_def vsum_loop_length)

lemma vectorSum_foldl_bucket:
  assumes "\<forall>s \<in> set xs. i < length (sample.vector s)" and "i < length (vectorSum b)"
  shows "vectorSum (foldl bucket_add b xs) ! i =
           vectorSum b ! i + sum_list (map (\<lambda>s. sample.vector s ! i) xs)"
  using assms
proof (induction xs arbitrary: b)
  case Nil
  then show ?case by simp
next
  case (Cons a xs)
  have l: "i < length (vectorSum (bucket_add b a))"
    using Cons.prems(2) by (simp add: bucket_add_def vsum_loop_length)
  have "vectorSum (bucket_add b a) ! i = vectorSum b ! i + sample.vector a ! i"
    using Cons.prems by (simp add: bucket_add_def vsum_loop_nth)
  then show ?case
    using Cons.IH[OF _ l] Cons.prems(1) by simp
qed

lemma featureSum_foldl_bucket:
  "featureSum (foldl bucket_add b xs) =
     \<lparr> fillRatio = fillRatio (featureSum b) + sum_list (map (\<lambda>s. fillRatio (item_features s)) xs),
       aspectRatio = aspectRatio (featureSum b) + sum_list (map (\<lambda>s. aspectRatio (item_features s)) xs),
       compactness = compactness (featureSum b) + sum_list (map (\<lambda>s. compactness (item_features s)) xs),
       symmetryX = symmetryX (featureSum b) + sum_list (map (\<lambda>s. symmetryX (item_features s)) xs),
       symmetryY = symmetryY (featureSum b) + sum_list (map (\<lambda>s. symmetryY (item_features s)) xs),
       edgeDensity = edgeDensity (featureSum b) + sum_list (map (\<lambda>s. edgeDensity (item_features s)) xs),
       lengthNorm = lengthNorm (featureSum b) + sum_list (map (\<lambda>s. lengthNorm (item_features s)) xs),
       straightness = straightness (featureSum b) + sum_list (map (\<lambda>s. straightness (item_features s)) xs),
       strokeCount = strokeCount (featureSum b) + sum_list (map (\<lambda>s. strokeCount (item_features s)) xs) \<rparr>"
proof (induction xs arbitrary: b)
  case Nil
  show ?case by simp
next
  case (Cons a xs)
  show ?case
    by (simp add: Cons.IH) (simp add: bucket_add_def add_features_def)
qed

lemma finish_is_mean:
  assumes "\<forall>s \<in> set ds. length (sample.vector s) = GRID_SIZE * GRID_SIZE"
  shows "finish_bucket (l, foldl bucket_add empty_bucket (filter (\<lambda>s. sample.label s = l) ds)) =
           spec_prototype l ds"
proof -
  let ?xs = "filter (\<lambda>s. sample.label s = l) ds"
  let ?b = "foldl bucket_add empty_bucket ?xs"
  have c: "bucket.count ?b = length ?xs"
    by (simp add: count_foldl_bucket empty_bucket_def)
  have len: "length (vectorSum ?b) = GRID_SIZE * GRID_SIZE"
    by (simp add: length_vectorSum_foldl empty_bucket_def)
  have nth: "vectorSum ?b ! i = sum_list (map (\<lambda>s. sample.vector s ! i) ?xs)"
    if "i < GRID_SIZE * GRID_SIZE" for i
  proof -
    have a: "\<forall>s \<in> set ?xs. i < length (sample.vector s)" using assms that by simp
    have b: "i < length (vectorSum empty_bucket)" using that by (simp add: empty_bucket_def)
    show ?thesis
      using vectorSum_foldl_bucket[OF a b] that by (simp add: empty_bucket_def)
  qed
  have v: "map (\<lambda>v. v / real (bucket.count ?b)) (vectorSum ?b) =
           map (\<lambda>i. sum_list (map (\<lambda>s. sample.vector s ! i) ?xs) / real (length ?xs))
             [0..<GRID_SIZE * GRID_SIZE]"
    by (rule nth_equalityI) (simp_all add: len c nth)
  have f: "scale_features (featureSum ?b) (real (bucket.count ?b)) =
           prototype.features (spec_prototype l ds)"
    unfolding featureSum_foldl_bucket c
    by (simp add: scale_features_def spec_prototype_def Let_def empty_bucket_def)
  show ?thesis
    unfolding finish_bucket_def using v f c
    by (simp add: spec_prototype_def Let_def)
qed

lemma prototypes_are_means:
  assumes "\<forall>s \<in> set ds. length (sample.vector s) = GRID_SIZE * GRID_SIZE"
    and "p \<in> set (buildPrototypes ds)"
  shows "p = spec_prototype (prototype.label p) ds"
proof -
  from assms(2) obtain l b where e: "(l, b) \<in> set (foldl byLabel_step [] ds)"
    and p: "p = finish_bucket (l, b)"
    by (auto simp: buildPrototypes_def)
  have d: "distinct (map fst (foldl byLabel_step [] ds))" by (rule distinct_byLabel) simp
  have m: "map_of (foldl byLabel_step [] ds) l = Some b" using d e by simp
  have "l \<in> sample.label ` set ds"
    using e keys_byLabel[of "[]" ds] by force
  then have "b = foldl bucket_add empty_bucket (filter (\<lambda>s. sample.label s = l) ds)"
    using m by (simp add: map_of_byLabel bucket_or_empty_def)
  then have "p = spec_prototype l ds" using p finish_is_mean[OF assms(1)] by simp
  moreover have "prototype.label p = l" using p by (simp add: label_finish_bucket)
  ultimately show ?thesis by simp
qed

lemma two_labels:
  "map prototype.label (buildPrototypes [cat_sample, dog_sample]) = [''cat'', ''dog'']"
  "map prototype.label (buildPrototypes [dog_sample, cat_sample]) = [''dog'', ''cat'']"
  by (simp_all add: labels_buildPrototypes byLabel_step_def cat_sample_def dog_sample_def)

section \<open>The prototype sums in doubles\<close>

lemma vsum_fl_length:
  "length (foldl (\<lambda>vs i. vs[i := fl (vs ! i + v ! i)]) vs js) = length vs"
  by (induction js arbitrary: vs) simp_all

lemma vsum_fl_nth:
  "i < length vs \<Longrightarrow>
   foldl (\<lambda>vs i. vs[i := fl (vs ! i + v ! i)]) vs [0..<n] ! i =
     (if i < n then fl (vs ! i + v ! i) else vs ! i)"
proof (induction n)
  case 0
  then show ?case by simp
next
  case (Suc n)
  then show ?case
    by (auto simp: vsum_fl_length nth_list_update less_Suc_eq)
qed

lemma bucket_add_fl_head:
  assumes "length (vectorSum b) = 256"
  shows "length (vectorSum (bucket_add_fl b (ulp_sample x))) = 256"
    and "vectorSum (bucket_add_fl b (ulp_sample x)) ! 0 = fl (vectorSum b ! 0 + x)"
    and "bucket.count (bucket_add_fl b (ulp_sample x)) = bucket.count b + 1"
  using assms by (simp_all add: bucket_add_fl_def ulp_sample_def vsum_fl_length vsum_fl_nth)

lemma empty_bucket_head:
  "length (vectorSum empty_bucket) = 256" "vectorSum empty_bucket ! 0 = 0"
  "bucket.count empty_bucket = 0"
  by (simp_all add: empty_bucket_def GRID_SIZE_def)

lemma byLabel_fl_cat:
  "byLabel_step_fl [] (ulp_sample x) = [(''cat'', bucket_add_fl empty_bucket (ulp_sample x))]"
  "byLabel_step_fl [(''cat'', b)] (ulp_sample x) = [(''cat'', bucket_add_fl b (ulp_sample x))]"
  by (simp_all add: byLabel_step_fl_def ulp_sample_def)

lemma prototypes_fl_four:
  "map (\<lambda>p. prototype.vector p ! 0)
     (buildPrototypes_fl [ulp_sample a, ulp_sample b, ulp_sample c, ulp_sample d]) =
   [fl (fl (fl (fl (fl (0 + a) + b) + c) + d) / 4)]"
proof -
  let ?b1 = "bucket_add_fl empty_bucket (ulp_sample a)"
  let ?b2 = "bucket_add_fl ?b1 (ulp_sample b)"
  let ?b3 = "bucket_add_fl ?b2 (ulp_sample c)"
  let ?b4 = "bucket_add_fl ?b3 (ulp_sample d)"
  have l1: "length (vectorSum ?b1) = 256" by (rule bucket_add_fl_head(1)[OF empty_bucket_head(1)])
  have l2: "length (vectorSum ?b2) = 256" by (rule bucket_add_fl_head(1)[OF l1])
  have l3: "length (vectorSum ?b3) = 256" by (rule bucket_add_fl_head(1)[OF l2])
  have l4: "length (vectorSum ?b4) = 256" by (rule bucket_add_fl_head(1)[OF l3])
  have v: "vectorSum ?b4 ! 0 = fl (fl (fl (fl (0 + a) + b) + c) + d)"
    by (simp only: bucket_add_fl_head(2)[OF l3] bucket_add_fl_head(2)[OF l2]
        bucket_add_fl_head(2)[OF l1] bucket_add_fl_head(2)[OF empty_bucket_head(1)]
        empty_bucket_head(2))
  have c: "bucket.count ?b4 = 4"
    by (simp add: bucket_add_fl_head(3)[OF l3] bucket_add_fl_head(3)[OF l2]
        bucket_add_fl_head(3)[OF l1] bucket_add_fl_head(3)[OF empty_bucket_head(1)]
        empty_bucket_head(3))
  have f: "foldl byLabel_step_fl [] [ulp_sample a, ulp_sample b, ulp_sample c, ulp_sample d] =
             [(''cat'', ?b4)]"
    by (simp add: byLabel_fl_cat)
  have "prototype.vector (finish_bucket_fl (''cat'', ?b4)) ! 0 = fl (vectorSum ?b4 ! 0 / 4)"
    using l4 by (simp add: finish_bucket_fl_def c)
  then show ?thesis unfolding buildPrototypes_fl_def f v by simp
qed

lemma same_count_pair:
  "same_count (l, b) (l', b') = (l = l' \<and> bucket.count b = bucket.count b')"
  by (simp add: same_count_def)

lemma same_count_map_of_None:
  assumes "list_all2 same_count xs ys"
  shows "map_of xs l = None \<longleftrightarrow> map_of ys l = None"
  using assms
proof (induction rule: list_all2_induct)
  case Nil
  show ?case by simp
next
  case (Cons x xs y ys)
  then show ?case by (cases x; cases y) (simp add: same_count_pair)
qed

lemma same_count_map_of_Some:
  assumes "list_all2 same_count xs ys" and "map_of xs l = Some b" and "map_of ys l = Some b'"
  shows "bucket.count b = bucket.count b'"
  using assms
proof (induction rule: list_all2_induct)
  case Nil
  then show ?case by simp
next
  case (Cons x xs y ys)
  then show ?case by (cases x; cases y) (simp add: same_count_pair split: if_splits)
qed

lemma same_count_update:
  assumes "list_all2 same_count xs ys" and "bucket.count b = bucket.count b'"
  shows "list_all2 same_count (AList.update l b xs) (AList.update l b' ys)"
  using assms
proof (induction rule: list_all2_induct)
  case Nil
  then show ?case by (simp add: same_count_pair)
next
  case (Cons x xs y ys)
  then show ?case by (cases x; cases y) (simp add: same_count_pair)
qed

lemma same_count_step:
  assumes "list_all2 same_count xs ys"
  shows "list_all2 same_count (byLabel_step_fl xs s) (byLabel_step ys s)"
proof (cases "map_of xs (sample.label s)")
  case None
  then have n: "map_of ys (sample.label s) = None"
    using same_count_map_of_None[OF assms] by blast
  have "same_count (sample.label s, bucket_add_fl empty_bucket s)
          (sample.label s, bucket_add empty_bucket s)"
    by (simp add: same_count_pair bucket_add_fl_def bucket_add_def)
  then show ?thesis
    using assms None n
    by (simp add: byLabel_step_fl_def byLabel_step_def list_all2_appendI)
next
  case (Some b)
  then obtain b' where s: "map_of ys (sample.label s) = Some b'"
    using same_count_map_of_None[OF assms, of "sample.label s"]
    by (cases "map_of ys (sample.label s)") auto
  have "bucket.count b = bucket.count b'"
    by (rule same_count_map_of_Some[OF assms Some s])
  then have "bucket.count (bucket_add_fl b s) = bucket.count (bucket_add b' s)"
    by (simp add: bucket_add_fl_def bucket_add_def)
  then show ?thesis
    using Some s by (simp add: byLabel_step_fl_def byLabel_step_def same_count_update[OF assms])
qed

lemma same_count_foldl:
  "list_all2 same_count xs ys \<Longrightarrow>
   list_all2 same_count (foldl byLabel_step_fl xs ds) (foldl byLabel_step ys ds)"
  by (induction ds arbitrary: xs ys) (simp_all add: same_count_step)

lemma same_count_finish:
  "list_all2 same_count xs ys \<Longrightarrow>
   map (\<lambda>p. (prototype.label p, prototype.count p)) (map finish_bucket_fl xs) =
   map (\<lambda>p. (prototype.label p, prototype.count p)) (map finish_bucket ys)"
proof (induction rule: list_all2_induct)
  case Nil
  show ?case by simp
next
  case (Cons x xs y ys)
  then show ?case
    by (cases x; cases y) (simp add: same_count_pair finish_bucket_fl_def finish_bucket_def)
qed

lemma counts_fl:
  "map (\<lambda>p. (prototype.label p, prototype.count p)) (buildPrototypes_fl ds) =
   map (\<lambda>p. (prototype.label p, prototype.count p)) (buildPrototypes ds)"
proof -
  have "list_all2 same_count (foldl byLabel_step_fl [] ds) (foldl byLabel_step [] ds)"
    by (rule same_count_foldl) simp
  then show ?thesis
    unfolding buildPrototypes_fl_def buildPrototypes_def by (rule same_count_finish)
qed

lemma counts_fl_mset:
  assumes "mset ds1 = mset ds2"
  shows "set (map (\<lambda>p. (prototype.label p, prototype.count p)) (buildPrototypes_fl ds1)) =
         set (map (\<lambda>p. (prototype.label p, prototype.count p)) (buildPrototypes_fl ds2))"
  unfolding counts_fl using prototypes_mset[OF assms] by simp

text \<open>
  Claim C9, as amended. For two datasets with the same multiset of samples, each vector of
  \<open>GRID_SIZE\<^sup>2\<close> entries, \<^verbatim>\<open>buildPrototypes\<close> yields the same labels with the same sample
  counts, also in the arithmetic of doubles; and in exact arithmetic it yields the same
  prototypes label by label, each the prototype of the specification for its label, with
  the same mean vector and the same feature means. The lists hold the prototypes in the
  order in which the labels first occur.
\<close>

theorem buildPrototypes_order_independent:
  assumes "mset ds1 = mset ds2"
    and "\<forall>s \<in> set ds1. length (sample.vector s) = GRID_SIZE * GRID_SIZE"
  shows "set (buildPrototypes ds1) = set (buildPrototypes ds2)
     \<and> distinct (map prototype.label (buildPrototypes ds1))
     \<and> distinct (map prototype.label (buildPrototypes ds2))
     \<and> (\<forall>l. find (\<lambda>p. prototype.label p = l) (buildPrototypes ds1) =
              find (\<lambda>p. prototype.label p = l) (buildPrototypes ds2))
     \<and> (\<forall>p \<in> set (buildPrototypes ds1). p = spec_prototype (prototype.label p) ds1)
     \<and> set (map (\<lambda>p. (prototype.label p, prototype.count p)) (buildPrototypes_fl ds1)) =
         set (map (\<lambda>p. (prototype.label p, prototype.count p)) (buildPrototypes_fl ds2))"
proof -
  have s: "set (buildPrototypes ds1) = set (buildPrototypes ds2)"
    by (rule prototypes_mset[OF assms(1)])
  have d1: "distinct (map prototype.label (buildPrototypes ds1))"
    by (rule distinct_prototype_labels)
  have d2: "distinct (map prototype.label (buildPrototypes ds2))"
    by (rule distinct_prototype_labels)
  have f: "\<forall>l. find (\<lambda>p. prototype.label p = l) (buildPrototypes ds1) =
              find (\<lambda>p. prototype.label p = l) (buildPrototypes ds2)"
    using find_same_set[OF d1 d2 s] by blast
  have m: "\<forall>p \<in> set (buildPrototypes ds1). p = spec_prototype (prototype.label p) ds1"
    using prototypes_are_means[OF assms(2)] by blast
  from s d1 d2 f m counts_fl_mset[OF assms(1)] show ?thesis by blast
qed

theorem buildPrototypes_order_independent_witness:
  "mset [cat_sample, dog_sample] = mset [dog_sample, cat_sample]
   \<and> length (sample.vector cat_sample) = 256 \<and> length (sample.vector dog_sample) = 256
   \<and> set (buildPrototypes [cat_sample, dog_sample]) = set (buildPrototypes [dog_sample, cat_sample])
   \<and> map prototype.label (buildPrototypes [cat_sample, dog_sample]) = [''cat'', ''dog'']
   \<and> map prototype.label (buildPrototypes [dog_sample, cat_sample]) = [''dog'', ''cat'']"
proof -
  have m: "mset [cat_sample, dog_sample] = mset [dog_sample, cat_sample]" by simp
  have l: "length (sample.vector cat_sample) = 256" "length (sample.vector dog_sample) = 256"
    by (simp_all add: cat_sample_def dog_sample_def)
  then have w: "\<forall>s \<in> set [cat_sample, dog_sample]. length (sample.vector s) = GRID_SIZE * GRID_SIZE"
    by (simp add: GRID_SIZE_def)
  from buildPrototypes_order_independent[OF m w] m l two_labels show ?thesis by blast
qed

text \<open>
  Claim C9 as stated fails in the arithmetic of the program. The two lists hold the same
  four samples; summed in the first order the first cell is \<open>1\<close>, since \<open>1 + 2\<^sup>-\<^sup>5\<^sup>3\<close> is
  rounded back to \<open>1\<close> twice, and summed in the second order it is \<open>1 + 2\<^sup>-\<^sup>5\<^sup>2\<close>; the
  means are \<open>1/4\<close> and \<open>1/4 + 2\<^sup>-\<^sup>5\<^sup>4\<close>.
\<close>

theorem buildPrototypes_rounding_counterexample:
  "mset ulp_order_a = mset ulp_order_b
   \<and> map (\<lambda>p. prototype.vector p ! 0) (buildPrototypes_fl ulp_order_a) = [1 / 4]
   \<and> map (\<lambda>p. prototype.vector p ! 0) (buildPrototypes_fl ulp_order_b) = [1 / 4 + 1 / 2 ^ 54]
   \<and> buildPrototypes_fl ulp_order_a \<noteq> buildPrototypes_fl ulp_order_b"
proof -
  have m: "mset ulp_order_a = mset ulp_order_b"
    by (simp add: ulp_order_a_def ulp_order_b_def)
  have a: "fl (fl (fl (fl (fl (0 + 1) + 1 / 2 ^ 53) + 1 / 2 ^ 53) + 0) / 4) = 1 / 4"
    by (simp only: add_0_left add_0_right fl_one fl_one_half_ulp fl_quarter)
  have b: "fl (fl (fl (fl (fl (0 + 1 / 2 ^ 53) + 1 / 2 ^ 53) + 1) + 0) / 4) = 1 / 4 + 1 / 2 ^ 54"
    by (simp only: add_0_left add_0_right fl_eps fl_two_eps fl_one_ulp fl_one_ulp_id fl_one_ulp_quarter)
  have va: "map (\<lambda>p. prototype.vector p ! 0) (buildPrototypes_fl ulp_order_a) = [1 / 4]"
    unfolding ulp_order_a_def prototypes_fl_four a ..
  have vb: "map (\<lambda>p. prototype.vector p ! 0) (buildPrototypes_fl ulp_order_b) = [1 / 4 + 1 / 2 ^ 54]"
    unfolding ulp_order_b_def prototypes_fl_four b ..
  have "buildPrototypes_fl ulp_order_a \<noteq> buildPrototypes_fl ulp_order_b"
  proof
    assume "buildPrototypes_fl ulp_order_a = buildPrototypes_fl ulp_order_b"
    then have "[1 / 4] = [1 / 4 + 1 / 2 ^ 54 :: real]" using va vb by simp
    then show False by simp
  qed
  with m va vb show ?thesis by blast
qed

section \<open>A tie between two labels\<close>
















end
